theory Spec2Isabelle
  imports Complex_Main
begin

section \<open>Numbers, arrays and loops\<close>

text \<open>
  The engine computes with JavaScript numbers. They are modelled as real numbers:
  \<open>Math.exp\<close> is \<open>exp\<close>, \<open>Math.log2\<close> is \<open>log 2\<close>, \<open>Math.log\<close> is \<open>ln\<close>,
  \<open>Math.pow(2, h)\<close> is \<open>2 powr h\<close>. Rounding, overflow to \<open>Infinity\<close> and \<open>NaN\<close> are
  outside this model; where the source can divide by zero the theorems carry the hypothesis
  that excludes it, or the model returns \<open>None\<close> for the value that is not a real number.
  An array is a list, a matrix a list of rows, an index a natural number. A counted loop
  \<^verbatim>\<open>for (let j = 0; j < n; j++) body\<close> is \<open>fold body [0..<n]\<close> on the variables
  the body assigns.
\<close>

abbreviation (input) e12 :: real where
  "e12 \<equiv> 1 / 10 ^ 12"

definition set2 :: "'a list list \<Rightarrow> nat \<Rightarrow> nat \<Rightarrow> 'a \<Rightarrow> 'a list list" where
  \<comment> \<open>the assignment \<^verbatim>\<open>M[i][j] = v\<close>\<close>
  "set2 M i j v = M[i := (M ! i)[j := v]]"

definition zeros :: "nat \<Rightarrow> nat \<Rightarrow> real list list" where
  \<comment> \<open>\<^verbatim>\<open>Array(n).fill(null).map(() => Array(m).fill(0))\<close>\<close>
  "zeros n m = replicate n (replicate m 0)"

type_synonym matrix = "real list list"

datatype error = TypeError

definition bind_err :: "error + 'a \<Rightarrow> ('a \<Rightarrow> error + 'b) \<Rightarrow> error + 'b" where
  \<comment> \<open>a thrown exception ends the computation: what follows runs on a returned value only\<close>
  "bind_err m f = (case m of Inl e \<Rightarrow> Inl e | Inr x \<Rightarrow> f x)"

primrec fold_err :: "('a \<Rightarrow> 's \<Rightarrow> error + 's) \<Rightarrow> 'a list \<Rightarrow> 's \<Rightarrow> error + 's" where
  \<comment> \<open>a loop whose body can throw\<close>
  "fold_err f [] s = Inr s"
| "fold_err f (x # xs) s = bind_err (f x s) (fold_err f xs)"

definition shape :: "nat \<Rightarrow> nat \<Rightarrow> 'a list list \<Rightarrow> bool" where
  \<comment> \<open>an \<open>n\<close> by \<open>m\<close> matrix: every read \<open>M[i][j]\<close> with \<open>i < n\<close>, \<open>j < m\<close> is in range\<close>
  "shape n m M \<longleftrightarrow> length M = n \<and> list_all (\<lambda>row. length row = m) M"

section \<open>math-utils.js\<close>

subsection \<open>squaredEuclideanDistance, computeDistanceMatrix\<close>

definition squaredEuclideanDistance :: "real list \<Rightarrow> real list \<Rightarrow> real" where
  "squaredEuclideanDistance a b =
     fold (\<lambda>i acc. let diff = a ! i - b ! i in acc + diff * diff) [0..<length a] 0"

definition distance_step :: "matrix \<Rightarrow> nat \<Rightarrow> nat \<Rightarrow> matrix \<Rightarrow> matrix" where
  \<comment> \<open>\<^verbatim>\<open>const dist = squaredEuclideanDistance(X[i], X[j]); D[i][j] = dist; D[j][i] = dist;\<close>\<close>
  "distance_step X i j D =
     (let dist = squaredEuclideanDistance (X ! i) (X ! j) in set2 (set2 D i j dist) j i dist)"

definition computeDistanceMatrix :: "matrix \<Rightarrow> matrix" where
  "computeDistanceMatrix X =
     (let n = length X in
      fold (\<lambda>i. fold (distance_step X i) [Suc i..<n]) [0..<n] (zeros n n))"

subsection \<open>shannonEntropy, entropyToPerplexity\<close>

definition shannonEntropy :: "real list \<Rightarrow> real" where
  "shannonEntropy P =
     fold (\<lambda>i H. if P ! i > e12 then H - P ! i * log 2 (P ! i) else H) [0..<length P] 0"

definition entropyToPerplexity :: "real \<Rightarrow> real" where
  "entropyToPerplexity entropy = 2 powr entropy"

subsection \<open>computeConditionalProbabilities\<close>

definition kernel_step :: "real list \<Rightarrow> real \<Rightarrow> nat \<Rightarrow> nat \<Rightarrow> real list \<times> real \<Rightarrow> real list \<times> real" where
  \<comment> \<open>body of the first loop: \<^verbatim>\<open>if (j !== i) { P[j] = Math.exp(-distances[j] / twoSigmaSq); sum += P[j]; }\<close>\<close>
  "kernel_step distances twoSigmaSq i j = (\<lambda>(P, sum_P).
     if j \<noteq> i then
       (let P' = P[j := exp (- (distances ! j) / twoSigmaSq)] in (P', sum_P + P' ! j))
     else (P, sum_P))"

definition normalize_step :: "real \<Rightarrow> nat \<Rightarrow> real list \<Rightarrow> real list" where
  \<comment> \<open>body of the second loop: \<^verbatim>\<open>P[j] /= sum\<close>\<close>
  "normalize_step sum_P j P = P[j := P ! j / sum_P]"

definition computeConditionalProbabilities :: "real list \<Rightarrow> real \<Rightarrow> nat \<Rightarrow> real list" where
  "computeConditionalProbabilities distances sigma i =
     (let n = length distances;
          twoSigmaSq = 2 * sigma * sigma;
          P0 = replicate n 0;
          r = fold (kernel_step distances twoSigmaSq i) [0..<n] (P0, 0);
          P = fst r;
          sum_P = snd r
      in if sum_P > e12 then fold (normalize_step sum_P) [0..<n] P else P)"

text \<open>The quantities of the specification: the Gaussian kernel value of entry \<open>j\<close> and the
  sum of the kernel values over all entries but the centre.\<close>

definition gauss_kernel :: "real list \<Rightarrow> real \<Rightarrow> nat \<Rightarrow> real" where
  "gauss_kernel distances sigma j = exp (- (distances ! j) / (2 * sigma * sigma))"

definition kernel_sum :: "real list \<Rightarrow> real \<Rightarrow> nat \<Rightarrow> real" where
  "kernel_sum distances sigma i = (\<Sum>k \<in> {..<length distances} - {i}. gauss_kernel distances sigma k)"

subsection \<open>findSigma\<close>

record history_entry =
  h_iteration :: nat
  h_sigma :: real
  h_perplexity :: real

record sigma_result =
  r_sigma :: real
  r_P :: "real list"
  r_entropy :: real
  r_perplexity :: real
  r_history :: "history_entry list"

text \<open>
  The loop of \<^verbatim>\<open>findSigma\<close>, on the variables \<^verbatim>\<open>iter\<close>, \<^verbatim>\<open>sigmaMin\<close>,
  \<^verbatim>\<open>sigmaMax\<close>, \<^verbatim>\<open>sigma\<close> and \<^verbatim>\<open>history\<close>. The \<^verbatim>\<open>return\<close> inside the loop
  and the one after it are the two non-recursive branches.
\<close>

function findSigma_loop ::
  "real list \<Rightarrow> nat \<Rightarrow> real \<Rightarrow> bool \<Rightarrow> nat \<Rightarrow> real \<Rightarrow> nat \<Rightarrow> real \<Rightarrow> real \<Rightarrow> real \<Rightarrow>
   history_entry list \<Rightarrow> sigma_result" where
  "findSigma_loop distances i targetEntropy returnHistory maxIter tol iter sigmaMin sigmaMax sigma history =
     (if iter < maxIter then
        (let P = computeConditionalProbabilities distances sigma i;
             entropy = shannonEntropy P;
             perplexity = entropyToPerplexity entropy;
             history' = (if returnHistory
               then history @ [\<lparr>h_iteration = iter, h_sigma = sigma, h_perplexity = perplexity\<rparr>]
               else history);
             entropyDiff = entropy - targetEntropy
         in if \<bar>entropyDiff\<bar> < tol then
              \<lparr>r_sigma = sigma, r_P = P, r_entropy = entropy, r_perplexity = perplexity,
               r_history = history'\<rparr>
            else if entropyDiff > 0 then
              findSigma_loop distances i targetEntropy returnHistory maxIter tol (Suc iter)
                sigmaMin sigma ((sigmaMin + sigma) / 2) history'
            else
              findSigma_loop distances i targetEntropy returnHistory maxIter tol (Suc iter)
                sigma sigmaMax
                (if sigmaMax = 10 ^ 10 then (sigma + sigmaMax) / 2 * 2 else (sigma + sigmaMax) / 2)
                history')
      else
        (let P = computeConditionalProbabilities distances sigma i;
             entropy = shannonEntropy P;
             perplexity = entropyToPerplexity entropy
         in \<lparr>r_sigma = sigma, r_P = P, r_entropy = entropy, r_perplexity = perplexity,
             r_history = history\<rparr>))"
  by pat_completeness auto
termination
  by (relation "measure (\<lambda>(distances, i, targetEntropy, returnHistory, maxIter, tol, iter, rest). maxIter - iter)")
     auto

declare findSigma_loop.simps [simp del]

definition findSigma ::
  "matrix \<Rightarrow> nat \<Rightarrow> real \<Rightarrow> bool \<Rightarrow> nat \<Rightarrow> real \<Rightarrow> error + sigma_result" where
  \<comment> \<open>\<^verbatim>\<open>distanceMatrix[i]\<close> is \<^verbatim>\<open>undefined\<close> for a row that is not there, and reading its
      \<^verbatim>\<open>length\<close> throws\<close>
  "findSigma distanceMatrix i targetPerplexity returnHistory maxIter tol =
     (if i < length distanceMatrix then
        (let distances = distanceMatrix ! i;
             targetEntropy = log 2 targetPerplexity
         in Inr (findSigma_loop distances i targetEntropy returnHistory maxIter tol
                   0 (1 / 10 ^ 10) (10 ^ 10) 1 []))
      else Inl TypeError)"

text \<open>The default arguments \<^verbatim>\<open>maxIter = 50\<close> and \<^verbatim>\<open>tol = 1e-5\<close>.\<close>

abbreviation (input) default_maxIter :: nat where
  "default_maxIter \<equiv> 50"

abbreviation (input) default_tol :: real where
  "default_tol \<equiv> 1 / 10 ^ 5"

subsection \<open>computeQMatrix, klDivergence, computeGradient\<close>

definition qunnorm_step :: "matrix \<Rightarrow> nat \<Rightarrow> nat \<Rightarrow> matrix \<times> real \<Rightarrow> matrix \<times> real" where
  "qunnorm_step Y i j = (\<lambda>(Qunnorm, sum_q).
     let distSq = squaredEuclideanDistance (Y ! i) (Y ! j);
         qij = 1 / (1 + distSq)
     in (set2 (set2 Qunnorm i j qij) j i qij, sum_q + 2 * qij))"

definition qnorm_step :: "matrix \<Rightarrow> real \<Rightarrow> nat \<Rightarrow> nat \<Rightarrow> matrix \<Rightarrow> matrix" where
  "qnorm_step Qunnorm sum_q i j Q =
     (if i \<noteq> j then set2 Q i j (max (Qunnorm ! i ! j / sum_q) e12) else Q)"

definition computeQMatrix :: "matrix \<Rightarrow> matrix" where
  "computeQMatrix Y =
     (let n = length Y;
          r = fold (\<lambda>i. fold (qunnorm_step Y i) [Suc i..<n]) [0..<n] (zeros n n, 0);
          Qunnorm = fst r;
          sum_q = snd r
      in fold (\<lambda>i. fold (qnorm_step Qunnorm sum_q i) [0..<n]) [0..<n] (zeros n n))"

definition kl_step :: "matrix \<Rightarrow> matrix \<Rightarrow> nat \<Rightarrow> nat \<Rightarrow> real \<Rightarrow> real" where
  "kl_step P Q i j kl =
     (if i \<noteq> j \<and> P ! i ! j > e12 then kl + P ! i ! j * ln (P ! i ! j / Q ! i ! j) else kl)"

definition klDivergence :: "matrix \<Rightarrow> matrix \<Rightarrow> real" where
  "klDivergence P Q =
     (let n = length P in fold (\<lambda>i. fold (kl_step P Q i) [0..<n]) [0..<n] 0)"

definition gradient_dim_step :: "real \<Rightarrow> matrix \<Rightarrow> nat \<Rightarrow> nat \<Rightarrow> nat \<Rightarrow> matrix \<Rightarrow> matrix" where
  \<comment> \<open>\<^verbatim>\<open>grad[i][dim] += mult * (Y[i][dim] - Y[j][dim])\<close>\<close>
  "gradient_dim_step mult Y i j dm grad =
     set2 grad i dm (grad ! i ! dm + mult * (Y ! i ! dm - Y ! j ! dm))"

definition gradient_pair_step :: "matrix \<Rightarrow> matrix \<Rightarrow> matrix \<Rightarrow> nat \<Rightarrow> nat \<Rightarrow> nat \<Rightarrow> matrix \<Rightarrow> matrix" where
  "gradient_pair_step P Q Y d i j grad =
     (if i \<noteq> j then
        (let distSq = squaredEuclideanDistance (Y ! i) (Y ! j);
             qunnorm = 1 / (1 + distSq);
             mult = 4 * (P ! i ! j - Q ! i ! j) * qunnorm
         in fold (gradient_dim_step mult Y i j) [0..<d] grad)
      else grad)"

definition computeGradient :: "matrix \<Rightarrow> matrix \<Rightarrow> matrix \<Rightarrow> error + matrix" where
  \<comment> \<open>\<^verbatim>\<open>Y[0].length\<close> throws when \<^verbatim>\<open>Y\<close> has no row\<close>
  "computeGradient P Q Y =
     (case Y of
        [] \<Rightarrow> Inl TypeError
      | y0 # _ \<Rightarrow>
          (let n = length Y; d = length y0
           in Inr (fold (\<lambda>i. fold (gradient_pair_step P Q Y d i) [0..<n]) [0..<n] (zeros n d))))"

subsection \<open>initializeEmbedding\<close>

text \<open>
  \<^verbatim>\<open>Math.random\<close> is the one source of values the program does not compute. It is a
  sequence \<open>rnd\<close> of numbers and a position in it: a call reads \<open>rnd k\<close> and moves to
  \<open>Suc k\<close>.
\<close>

fun random_row :: "(nat \<Rightarrow> real) \<Rightarrow> real \<Rightarrow> nat \<Rightarrow> nat \<Rightarrow> real list \<times> nat" where
  "random_row rnd scale 0 k = ([], k)"
| "random_row rnd scale (Suc d) k =
     (let x = (rnd k - 1 / 2) * 2 * scale; r = random_row rnd scale d (Suc k)
      in (x # fst r, snd r))"

fun initializeEmbedding :: "(nat \<Rightarrow> real) \<Rightarrow> nat \<Rightarrow> nat \<Rightarrow> real \<Rightarrow> nat \<Rightarrow> matrix \<times> nat" where
  "initializeEmbedding rnd 0 d scale k = ([], k)"
| "initializeEmbedding rnd (Suc n) d scale k =
     (let p = random_row rnd scale d k; r = initializeEmbedding rnd n d scale (snd p)
      in (fst p # fst r, snd r))"

section \<open>precomputed-tsne.js\<close>

subsection \<open>Steps and snapshots\<close>

datatype TSNESteps =
    INTRO | INPUT_DATA | COMPUTE_DISTANCES | COMPUTE_SIGMAS | COMPUTE_P_CONDITIONAL
  | SYMMETRIZE_P | EARLY_EXAGGERATION | INITIALIZE_EMBEDDING | COMPUTE_Q | COMPUTE_GRADIENT
  | UPDATE_EMBEDDING | ITERATION_PROGRESS | REMOVE_EXAGGERATION | FINAL_RESULT

record iteration_snapshot =
  it_iteration :: nat
  it_embedding :: matrix
  it_Q :: matrix
  it_gradient :: matrix
  it_cost :: real

text \<open>
  The \<^verbatim>\<open>data\<close> object of a snapshot, one constructor for each call of
  \<^verbatim>\<open>_addSnapshot\<close> in \<^verbatim>\<open>run\<close>, with the fields in the order of the source. A number
  that can be \<^verbatim>\<open>Infinity\<close>, \<^verbatim>\<open>NaN\<close> or \<^verbatim>\<open>undefined\<close> is an \<open>option\<close>, \<open>None\<close> for
  that value. The field \<^verbatim>\<open>info\<close> of a snapshot is \<^verbatim>\<open>StepInfo[stepType]\<close>, a constant table
  of display texts indexed by the step type; it is left out.
\<close>

datatype snapshot_data =
    IntroData nat nat nat real
  | InputData matrix "int list" nat nat
  | DistancesData matrix "real option" real "real option"
  | SigmasData "real list" real "(nat \<times> history_entry list) list" real
  | PConditionalData matrix "nat \<times> real list \<times> real"
  | SymmetrizeData matrix matrix
  | ExaggerationData matrix matrix real
  | InitializeData matrix nat
  | QData matrix matrix
  | GradientData matrix matrix matrix matrix
  | UpdateData matrix matrix real
  | ProgressData "iteration_snapshot list" "real list" nat
  | RemoveExaggerationData nat matrix matrix
  | FinalData matrix "real option" "real list" "int list"

record snapshot =
  stepId :: nat
  stepType :: TSNESteps
  snap_data :: snapshot_data
  snap_labels :: "int list"
  snap_inputData :: "matrix option"

subsection \<open>The engine and its constructor\<close>

text \<open>
  The fields of a \<^verbatim>\<open>PrecomputedTSNE\<close> object, \<^verbatim>\<open>this.x\<close> written \<open>this_x\<close>. The
  matrices that the constructor sets to \<^verbatim>\<open>null\<close> are the empty list until \<^verbatim>\<open>run\<close>
  assigns them; \<^verbatim>\<open>inputData\<close> and \<^verbatim>\<open>labels\<close>, which \<^verbatim>\<open>_addSnapshot\<close> tests, are
  options. Counts and iteration numbers are natural numbers.
\<close>

record PrecomputedTSNE =
  this_perplexity :: real
  this_learningRate :: real
  this_maxIterations :: nat
  this_targetDim :: nat
  this_earlyExaggeration :: real
  this_earlyExaggerationIter :: nat
  this_momentum :: real
  this_finalMomentum :: real
  this_momentumSwitchIter :: nat
  this_snapshots :: "snapshot list"
  this_stepIndex :: nat
  this_inputData :: "matrix option"
  this_labels :: "int list option"
  this_n :: nat
  this_distanceMatrix :: matrix
  this_sigmas :: "real list"
  this_P_conditional :: matrix
  this_P :: matrix
  this_P_original :: matrix
  this_embedding :: matrix
  this_Q :: matrix
  this_gradient :: matrix
  this_velocity :: matrix
  this_costs :: "real list"
  this_iterationSnapshots :: "iteration_snapshot list"

record options =
  opt_perplexity :: "real option"
  opt_learningRate :: "real option"
  opt_maxIterations :: "nat option"
  opt_targetDim :: "nat option"
  opt_earlyExaggeration :: "real option"
  opt_earlyExaggerationIter :: "nat option"

definition or_default :: "'a::zero option \<Rightarrow> 'a \<Rightarrow> 'a" where
  \<comment> \<open>\<^verbatim>\<open>options.x || d\<close>: the default replaces a missing option and the number 0\<close>
  "or_default x d = (case x of None \<Rightarrow> d | Some v \<Rightarrow> if v = 0 then d else v)"

definition new_PrecomputedTSNE :: "options \<Rightarrow> PrecomputedTSNE" where
  "new_PrecomputedTSNE opts =
     \<lparr>this_perplexity = or_default (opt_perplexity opts) 30,
      this_learningRate = or_default (opt_learningRate opts) 200,
      this_maxIterations = or_default (opt_maxIterations opts) 500,
      this_targetDim = or_default (opt_targetDim opts) 2,
      this_earlyExaggeration = or_default (opt_earlyExaggeration opts) 4,
      this_earlyExaggerationIter = or_default (opt_earlyExaggerationIter opts) 100,
      this_momentum = 1 / 2,
      this_finalMomentum = 8 / 10,
      this_momentumSwitchIter = 250,
      this_snapshots = [],
      this_stepIndex = 0,
      this_inputData = None,
      this_labels = None,
      this_n = 0,
      this_distanceMatrix = [],
      this_sigmas = [],
      this_P_conditional = [],
      this_P = [],
      this_P_original = [],
      this_embedding = [],
      this_Q = [],
      this_gradient = [],
      this_velocity = [],
      this_costs = [],
      this_iterationSnapshots = []\<rparr>"

subsection \<open>gaussianRandom\<close>

text \<open>
  \<^verbatim>\<open>while (u === 0) u = Math.random();\<close> draws until a value is not 0. On a sequence that
  is 0 from some position on the loop does not end: the result is \<open>None\<close>.
\<close>

partial_function (option) draw_nonzero :: "(nat \<Rightarrow> real) \<Rightarrow> nat \<Rightarrow> (real \<times> nat) option" where
  "draw_nonzero rnd k = (if rnd k = 0 then draw_nonzero rnd (Suc k) else Some (rnd k, Suc k))"

definition gaussianRandom :: "(nat \<Rightarrow> real) \<Rightarrow> nat \<Rightarrow> (real \<times> nat) option" where
  "gaussianRandom rnd k =
     (case draw_nonzero rnd k of
        None \<Rightarrow> None
      | Some (u, k1) \<Rightarrow>
          (case draw_nonzero rnd k1 of
             None \<Rightarrow> None
           | Some (v, k2) \<Rightarrow> Some (sqrt (- 2 * ln u) * cos (2 * pi * v), k2)))"

subsection \<open>Methods\<close>

definition addSnapshot :: "TSNESteps \<Rightarrow> snapshot_data \<Rightarrow> PrecomputedTSNE \<Rightarrow> PrecomputedTSNE" where
  "addSnapshot st d s =
     s\<lparr>this_snapshots := this_snapshots s @
          [\<lparr>stepId = this_stepIndex s,
            stepType = st,
            snap_data = d,
            snap_labels = (case this_labels s of None \<Rightarrow> [] | Some l \<Rightarrow> l),
            snap_inputData = this_inputData s\<rparr>],
       this_stepIndex := Suc (this_stepIndex s)\<rparr>"

definition min_step :: "matrix \<Rightarrow> nat \<Rightarrow> nat \<Rightarrow> real option \<Rightarrow> real option" where
  \<comment> \<open>\<^verbatim>\<open>if (i !== j && D[i][j] < min) min = D[i][j]\<close>, with \<open>None\<close> for \<^verbatim>\<open>Infinity\<close>\<close>
  "min_step D i j m =
     (if i \<noteq> j \<and> (case m of None \<Rightarrow> True | Some v \<Rightarrow> D ! i ! j < v) then Some (D ! i ! j) else m)"

definition getMinNonZeroDist :: "PrecomputedTSNE \<Rightarrow> real option" where
  "getMinNonZeroDist s =
     fold (\<lambda>i. fold (min_step (this_distanceMatrix s) i) [0..<this_n s]) [0..<this_n s] None"

definition max_step :: "matrix \<Rightarrow> nat \<Rightarrow> nat \<Rightarrow> real \<Rightarrow> real" where
  "max_step D i j m = (if D ! i ! j > m then D ! i ! j else m)"

definition getMaxDist :: "PrecomputedTSNE \<Rightarrow> real" where
  "getMaxDist s =
     fold (\<lambda>i. fold (max_step (this_distanceMatrix s) i) [0..<this_n s]) [0..<this_n s] 0"

definition avg_step :: "matrix \<Rightarrow> nat \<Rightarrow> nat \<Rightarrow> real \<times> nat \<Rightarrow> real \<times> nat" where
  "avg_step D i j = (\<lambda>(sum_d, count). (sum_d + D ! i ! j, Suc count))"

definition getAvgDist :: "PrecomputedTSNE \<Rightarrow> real option" where
  \<comment> \<open>\<^verbatim>\<open>sum / count\<close> is \<^verbatim>\<open>0 / 0\<close>, that is \<^verbatim>\<open>NaN\<close>, when there is no pair of points\<close>
  "getAvgDist s =
     (let r = fold (\<lambda>i. fold (avg_step (this_distanceMatrix s) i) [Suc i..<this_n s])
                [0..<this_n s] (0, 0)
      in if snd r = 0 then None else Some (fst r / real (snd r)))"

definition sigma_step ::
  "PrecomputedTSNE \<Rightarrow> nat \<Rightarrow> real list \<times> (nat \<times> history_entry list) list \<Rightarrow>
   error + real list \<times> (nat \<times> history_entry list) list" where
  "sigma_step s i = (\<lambda>(sigmas, searchHistory).
     bind_err (findSigma (this_distanceMatrix s) i (this_perplexity s) True default_maxIter default_tol)
       (\<lambda>result. Inr (sigmas @ [r_sigma result],
                      if i < 3 then searchHistory @ [(i, r_history result)] else searchHistory)))"

definition computeAllSigmas ::
  "PrecomputedTSNE \<Rightarrow> error + real list \<times> (nat \<times> history_entry list) list" where
  "computeAllSigmas s = fold_err (sigma_step s) [0..<this_n s] ([], [])"

definition conditional_kernel_step :: "matrix \<Rightarrow> real \<Rightarrow> nat \<Rightarrow> nat \<Rightarrow> matrix \<times> real \<Rightarrow> matrix \<times> real" where
  \<comment> \<open>\<^verbatim>\<open>if (i !== j) { const dist = this.distanceMatrix[i][j];
      P[i][j] = Math.exp(-dist * dist / sigma2); sum += P[i][j]; }\<close>\<close>
  "conditional_kernel_step D sigma2 i j = (\<lambda>(P, sum_P).
     if i \<noteq> j then
       (let dist = D ! i ! j; P' = set2 P i j (exp (- dist * dist / sigma2))
        in (P', sum_P + P' ! i ! j))
     else (P, sum_P))"

definition conditional_row_step :: "PrecomputedTSNE \<Rightarrow> nat \<Rightarrow> matrix \<Rightarrow> matrix" where
  "conditional_row_step s i P =
     (let sigma = this_sigmas s ! i;
          sigma2 = 2 * sigma * sigma;
          r = fold (conditional_kernel_step (this_distanceMatrix s) sigma2 i) [0..<this_n s] (P, 0);
          P1 = fst r;
          sum_P = snd r
      in if sum_P > 0
         then fold (\<lambda>j P. set2 P i j (P ! i ! j / sum_P)) [0..<this_n s] P1
         else P1)"

definition computeConditionalP :: "PrecomputedTSNE \<Rightarrow> matrix" where
  "computeConditionalP s =
     fold (conditional_row_step s) [0..<this_n s] (zeros (this_n s) (this_n s))"

definition getExamplePRow :: "nat \<Rightarrow> PrecomputedTSNE \<Rightarrow> error + nat \<times> real list \<times> real" where
  \<comment> \<open>spreading \<^verbatim>\<open>this.P_conditional[pointIndex]\<close> throws when the row is not there\<close>
  "getExamplePRow pointIndex s =
     (if pointIndex < length (this_P_conditional s)
      then Inr (pointIndex, this_P_conditional s ! pointIndex, this_sigmas s ! pointIndex)
      else Inl TypeError)"

definition symmetrize_step :: "matrix \<Rightarrow> nat \<Rightarrow> nat \<Rightarrow> nat \<Rightarrow> matrix \<Rightarrow> matrix" where
  \<comment> \<open>\<^verbatim>\<open>const pij = (Pc[i][j] + Pc[j][i]) / (2 * n); P[i][j] = pij; P[j][i] = pij;\<close>\<close>
  "symmetrize_step Pc n i j P =
     (let pij = (Pc ! i ! j + Pc ! j ! i) / (2 * real n) in set2 (set2 P i j pij) j i pij)"

definition floor_step :: "real \<Rightarrow> nat \<Rightarrow> nat \<Rightarrow> matrix \<Rightarrow> matrix" where
  \<comment> \<open>\<^verbatim>\<open>P[i][j] = Math.max(P[i][j], minP)\<close>\<close>
  "floor_step minP i j P = set2 P i j (max (P ! i ! j) minP)"

definition symmetrizeP :: "PrecomputedTSNE \<Rightarrow> matrix" where
  "symmetrizeP s =
     (let n = this_n s;
          P1 = fold (\<lambda>i. fold (symmetrize_step (this_P_conditional s) n i) [Suc i..<n]) [0..<n]
                 (zeros n n);
          minP = e12
      in fold (\<lambda>i. fold (floor_step minP i) [0..<n]) [0..<n] P1)"

definition exaggerate_step :: "real \<Rightarrow> nat \<Rightarrow> nat \<Rightarrow> matrix \<Rightarrow> matrix" where
  \<comment> \<open>\<^verbatim>\<open>this.P[i][j] *= this.earlyExaggeration\<close>\<close>
  "exaggerate_step factor i j P = set2 P i j (P ! i ! j * factor)"

definition applyEarlyExaggeration :: "PrecomputedTSNE \<Rightarrow> PrecomputedTSNE" where
  "applyEarlyExaggeration s =
     s\<lparr>this_P := fold (\<lambda>i. fold (exaggerate_step (this_earlyExaggeration s) i) [0..<this_n s])
                    [0..<this_n s] (this_P s)\<rparr>"

definition restore_step :: "matrix \<Rightarrow> nat \<Rightarrow> nat \<Rightarrow> matrix \<Rightarrow> matrix" where
  \<comment> \<open>\<^verbatim>\<open>this.P[i][j] = this.P_original[i][j]\<close>\<close>
  "restore_step P_original i j P = set2 P i j (P_original ! i ! j)"

definition removeEarlyExaggeration :: "PrecomputedTSNE \<Rightarrow> PrecomputedTSNE" where
  "removeEarlyExaggeration s =
     s\<lparr>this_P := fold (\<lambda>i. fold (restore_step (this_P_original s) i) [0..<this_n s])
                    [0..<this_n s] (this_P s)\<rparr>"

fun gaussian_row :: "(nat \<Rightarrow> real) \<Rightarrow> real \<Rightarrow> nat \<Rightarrow> nat \<Rightarrow> (real list \<times> nat) option" where
  "gaussian_row rnd scale 0 k = Some ([], k)"
| "gaussian_row rnd scale (Suc d) k =
     (case gaussianRandom rnd k of
        None \<Rightarrow> None
      | Some (g, k1) \<Rightarrow>
          (case gaussian_row rnd scale d k1 of
             None \<Rightarrow> None
           | Some (row, k2) \<Rightarrow> Some (g * scale # row, k2)))"

fun gaussian_rows :: "(nat \<Rightarrow> real) \<Rightarrow> real \<Rightarrow> nat \<Rightarrow> nat \<Rightarrow> nat \<Rightarrow> (matrix \<times> nat) option" where
  "gaussian_rows rnd scale 0 d k = Some ([], k)"
| "gaussian_rows rnd scale (Suc n) d k =
     (case gaussian_row rnd scale d k of
        None \<Rightarrow> None
      | Some (row, k1) \<Rightarrow>
          (case gaussian_rows rnd scale n d k1 of
             None \<Rightarrow> None
           | Some (rows, k2) \<Rightarrow> Some (row # rows, k2)))"

definition PrecomputedTSNE_initializeEmbedding ::
  "(nat \<Rightarrow> real) \<Rightarrow> nat \<Rightarrow> PrecomputedTSNE \<Rightarrow> (matrix \<times> nat) option" where
  \<comment> \<open>the rows in order, the entries of a row in order, each one call of \<^verbatim>\<open>gaussianRandom\<close>\<close>
  "PrecomputedTSNE_initializeEmbedding rnd k s =
     (let scale = 1 / 10000 in gaussian_rows rnd scale (this_n s) (this_targetDim s) k)"

definition momentum_step :: "real \<Rightarrow> real \<Rightarrow> matrix \<Rightarrow> nat \<Rightarrow> nat \<Rightarrow> matrix \<times> matrix \<Rightarrow> matrix \<times> matrix" where
  \<comment> \<open>\<^verbatim>\<open>this.velocity[i][d] = mom * this.velocity[i][d] - this.learningRate * this.gradient[i][d];
      this.embedding[i][d] += this.velocity[i][d];\<close> on the pair of velocity and embedding\<close>
  "momentum_step mom learningRate gradient i d = (\<lambda>(velocity, embedding).
     let velocity' = set2 velocity i d (mom * velocity ! i ! d - learningRate * gradient ! i ! d)
     in (velocity', set2 embedding i d (embedding ! i ! d + velocity' ! i ! d)))"

definition center_step :: "nat \<Rightarrow> nat \<Rightarrow> matrix \<Rightarrow> matrix" where
  \<comment> \<open>one dimension \<open>d\<close>: the mean over the \<open>n\<close> points, then its subtraction from each\<close>
  "center_step n d embedding =
     (let mean0 = fold (\<lambda>i mean. mean + embedding ! i ! d) [0..<n] 0;
          mean = mean0 / real n
      in fold (\<lambda>i E. set2 E i d (E ! i ! d - mean)) [0..<n] embedding)"

definition PrecomputedTSNE_updateEmbedding :: "nat \<Rightarrow> PrecomputedTSNE \<Rightarrow> PrecomputedTSNE" where
  "PrecomputedTSNE_updateEmbedding iteration s =
     (let mom = (if iteration < this_momentumSwitchIter s then this_momentum s else this_finalMomentum s);
          r = fold (\<lambda>i. fold (momentum_step mom (this_learningRate s) (this_gradient s) i)
                          [0..<this_targetDim s])
                [0..<this_n s] (this_velocity s, this_embedding s)
      in s\<lparr>this_velocity := fst r,
           this_embedding := fold (center_step (this_n s)) [0..<this_targetDim s] (snd r)\<rparr>)"

definition captureIterations :: "PrecomputedTSNE \<Rightarrow> int list" where
  "captureIterations s =
     [0, 5, 10, 25, 50, 75, 100, 150, 200, 300, 400, int (this_maxIterations s) - 1]"

definition iteration_step ::
  "nat \<Rightarrow> PrecomputedTSNE \<times> iteration_snapshot list \<Rightarrow>
   error + PrecomputedTSNE \<times> iteration_snapshot list" where
  \<comment> \<open>the body of the loop of \<^verbatim>\<open>_runIterations\<close>, on the engine and \<^verbatim>\<open>keyIterations\<close>\<close>
  "iteration_step iter = (\<lambda>(s, keyIterations).
     let s1 = (if iter = this_earlyExaggerationIter s then removeEarlyExaggeration s else s);
         s2 = s1\<lparr>this_Q := computeQMatrix (this_embedding s1)\<rparr>
     in bind_err (computeGradient (this_P s2) (this_Q s2) (this_embedding s2)) (\<lambda>g.
          let s3 = s2\<lparr>this_gradient := g\<rparr>;
              s4 = PrecomputedTSNE_updateEmbedding iter s3;
              cost = klDivergence (this_P s4) (this_Q s4);
              s5 = s4\<lparr>this_costs := this_costs s4 @ [cost]\<rparr>
          in if int iter \<in> set (captureIterations s5) then
               (let snapshot = \<lparr>it_iteration = iter, it_embedding = this_embedding s5,
                                 it_Q = this_Q s5, it_gradient = this_gradient s5, it_cost = cost\<rparr>
                in Inr (s5\<lparr>this_iterationSnapshots := this_iterationSnapshots s5 @ [snapshot]\<rparr>,
                        keyIterations @ [snapshot]))
             else Inr (s5, keyIterations)))"

definition runIterations ::
  "PrecomputedTSNE \<Rightarrow> error + PrecomputedTSNE \<times> iteration_snapshot list" where
  "runIterations s =
     fold_err iteration_step [1..<this_maxIterations s] (s\<lparr>this_iterationSnapshots := []\<rparr>, [])"

subsection \<open>run\<close>

text \<open>
  \<^verbatim>\<open>run\<close> is one function in the source, a sequence of fourteen steps that its
  comments number from 0 to 13. Each step is a function here, on the engine, and
  \<^verbatim>\<open>run\<close> is their composition in the order of the source. The first statement that
  reads \<^verbatim>\<open>inputData[0].length\<close> throws on an empty \<^verbatim>\<open>inputData\<close>. The steps before
  \<^verbatim>\<open>_initializeEmbedding\<close> read no random number; the steps after it read none either.
\<close>

definition run_start :: "matrix \<Rightarrow> int list \<Rightarrow> PrecomputedTSNE \<Rightarrow> PrecomputedTSNE" where
  \<comment> \<open>\<^verbatim>\<open>this.inputData = inputData; this.labels = labels; this.n = inputData.length;
      this.snapshots = [];\<close>\<close>
  "run_start inputData labels s =
     s\<lparr>this_inputData := Some inputData, this_labels := Some labels,
       this_n := length inputData, this_snapshots := []\<rparr>"

definition step0_intro :: "real list \<Rightarrow> PrecomputedTSNE \<Rightarrow> PrecomputedTSNE" where
  \<comment> \<open>\<open>x0\<close> is \<^verbatim>\<open>inputData[0]\<close>\<close>
  "step0_intro x0 s =
     addSnapshot INTRO (IntroData (this_n s) (length x0) (this_targetDim s) (this_perplexity s)) s"

definition step1_input_data :: "real list \<Rightarrow> matrix \<Rightarrow> int list \<Rightarrow> PrecomputedTSNE \<Rightarrow> PrecomputedTSNE" where
  "step1_input_data x0 inputData labels s =
     addSnapshot INPUT_DATA (InputData inputData labels (this_n s) (length x0)) s"

definition step2_distances :: "matrix \<Rightarrow> PrecomputedTSNE \<Rightarrow> PrecomputedTSNE" where
  "step2_distances inputData s =
     (let s' = s\<lparr>this_distanceMatrix := computeDistanceMatrix inputData\<rparr>
      in addSnapshot COMPUTE_DISTANCES
           (DistancesData (this_distanceMatrix s') (getMinNonZeroDist s') (getMaxDist s')
              (getAvgDist s')) s')"

definition average :: "real list \<Rightarrow> error + real" where
  \<comment> \<open>\<^verbatim>\<open>sigmas.reduce((a, b) => a + b) / sigmas.length\<close>: \<^verbatim>\<open>reduce\<close> without an initial
      value throws on an empty array\<close>
  "average xs = (case xs of [] \<Rightarrow> Inl TypeError | x # ys \<Rightarrow> Inr (foldl (+) x ys / real (length xs)))"

definition step3_sigmas :: "PrecomputedTSNE \<Rightarrow> error + PrecomputedTSNE" where
  "step3_sigmas s =
     bind_err (computeAllSigmas s) (\<lambda>sigmaResult.
       let s' = s\<lparr>this_sigmas := fst sigmaResult\<rparr>
       in bind_err (average (this_sigmas s')) (\<lambda>avgSigma.
            Inr (addSnapshot COMPUTE_SIGMAS
                   (SigmasData (this_sigmas s') (this_perplexity s') (snd sigmaResult) avgSigma) s')))"

definition step4_conditional :: "PrecomputedTSNE \<Rightarrow> error + PrecomputedTSNE" where
  "step4_conditional s =
     (let s' = s\<lparr>this_P_conditional := computeConditionalP s\<rparr>
      in bind_err (getExamplePRow 0 s') (\<lambda>exampleRow.
           Inr (addSnapshot COMPUTE_P_CONDITIONAL
                  (PConditionalData (this_P_conditional s') exampleRow) s')))"

definition step5_symmetrize :: "PrecomputedTSNE \<Rightarrow> PrecomputedTSNE" where
  "step5_symmetrize s =
     (let s1 = s\<lparr>this_P := symmetrizeP s\<rparr>;
          s2 = s1\<lparr>this_P_original := this_P s1\<rparr>
      in addSnapshot SYMMETRIZE_P (SymmetrizeData (this_P s2) (this_P_conditional s2)) s2)"

definition step6_exaggeration :: "PrecomputedTSNE \<Rightarrow> PrecomputedTSNE" where
  "step6_exaggeration s =
     (let s' = applyEarlyExaggeration s
      in addSnapshot EARLY_EXAGGERATION
           (ExaggerationData (this_P s') (this_P_original s') (this_earlyExaggeration s')) s')"

definition run_probabilities :: "matrix \<Rightarrow> int list \<Rightarrow> PrecomputedTSNE \<Rightarrow> error + PrecomputedTSNE" where
  \<comment> \<open>the statements of \<^verbatim>\<open>run\<close> before \<^verbatim>\<open>_initializeEmbedding\<close>\<close>
  "run_probabilities inputData labels s0 =
     (case inputData of
        [] \<Rightarrow> Inl TypeError
      | x0 # _ \<Rightarrow>
          bind_err
            (step3_sigmas
               (step2_distances inputData
                  (step1_input_data x0 inputData labels
                     (step0_intro x0 (run_start inputData labels s0)))))
            (\<lambda>s7. bind_err (step4_conditional s7)
               (\<lambda>s9. Inr (step6_exaggeration (step5_symmetrize s9)))))"

definition step7_initialize :: "matrix \<Rightarrow> PrecomputedTSNE \<Rightarrow> PrecomputedTSNE" where
  \<comment> \<open>\<open>Y0\<close> is the matrix that \<^verbatim>\<open>_initializeEmbedding\<close> returned\<close>
  "step7_initialize Y0 s =
     (let s1 = s\<lparr>this_embedding := Y0\<rparr>;
          s2 = s1\<lparr>this_velocity := zeros (this_n s1) (this_targetDim s1)\<rparr>
      in addSnapshot INITIALIZE_EMBEDDING (InitializeData (this_embedding s2) (this_targetDim s2)) s2)"

definition step8_q :: "PrecomputedTSNE \<Rightarrow> PrecomputedTSNE" where
  "step8_q s =
     (let s' = s\<lparr>this_Q := computeQMatrix (this_embedding s)\<rparr>
      in addSnapshot COMPUTE_Q (QData (this_Q s') (this_embedding s')) s')"

definition step9_gradient :: "PrecomputedTSNE \<Rightarrow> error + PrecomputedTSNE" where
  "step9_gradient s =
     bind_err (computeGradient (this_P s) (this_Q s) (this_embedding s)) (\<lambda>g.
       let s' = s\<lparr>this_gradient := g\<rparr>
       in Inr (addSnapshot COMPUTE_GRADIENT
                 (GradientData (this_gradient s') (this_P s') (this_Q s') (this_embedding s')) s'))"

definition step10_update :: "PrecomputedTSNE \<Rightarrow> PrecomputedTSNE" where
  "step10_update s =
     (let s' = PrecomputedTSNE_updateEmbedding 0 s
      in addSnapshot UPDATE_EMBEDDING
           (UpdateData (this_embedding s') (this_gradient s') (this_learningRate s')) s')"

definition step11_iterations :: "PrecomputedTSNE \<Rightarrow> error + PrecomputedTSNE" where
  "step11_iterations s =
     bind_err (runIterations s) (\<lambda>r.
       let s' = fst r; keyIterations = snd r
       in Inr (addSnapshot ITERATION_PROGRESS
                 (ProgressData keyIterations (this_costs s') (this_maxIterations s')) s'))"

definition find_embedding :: "PrecomputedTSNE \<Rightarrow> matrix" where
  \<comment> \<open>\<^verbatim>\<open>this.iterationSnapshots.find(s => s.iteration >= this.earlyExaggerationIter)?.embedding
      || this.embedding\<close>\<close>
  "find_embedding s =
     (case List.find (\<lambda>x. it_iteration x \<ge> this_earlyExaggerationIter s) (this_iterationSnapshots s) of
        None \<Rightarrow> this_embedding s
      | Some x \<Rightarrow> it_embedding x)"

definition step12_remove_exaggeration :: "PrecomputedTSNE \<Rightarrow> PrecomputedTSNE" where
  "step12_remove_exaggeration s =
     addSnapshot REMOVE_EXAGGERATION
       (RemoveExaggerationData (this_earlyExaggerationIter s) (find_embedding s) (this_P_original s)) s"

definition last_cost :: "real list \<Rightarrow> real option" where
  \<comment> \<open>\<^verbatim>\<open>this.costs[this.costs.length - 1]\<close> is \<^verbatim>\<open>undefined\<close> on an empty array\<close>
  "last_cost cs = (if cs = [] then None else Some (last cs))"

definition step13_final :: "int list \<Rightarrow> PrecomputedTSNE \<Rightarrow> PrecomputedTSNE" where
  "step13_final labels s =
     addSnapshot FINAL_RESULT
       (FinalData (this_embedding s) (last_cost (this_costs s)) (this_costs s) labels) s"

definition run_optimization :: "matrix \<Rightarrow> int list \<Rightarrow> PrecomputedTSNE \<Rightarrow> error + PrecomputedTSNE" where
  \<comment> \<open>the statements of \<^verbatim>\<open>run\<close> from the assignment of the initial embedding \<open>Y0\<close> on\<close>
  "run_optimization Y0 labels s14 =
     bind_err (step9_gradient (step8_q (step7_initialize Y0 s14)))
       (\<lambda>s21. bind_err (step11_iterations (step10_update s21))
          (\<lambda>s25. Inr (step13_final labels (step12_remove_exaggeration s25))))"

definition run ::
  "matrix \<Rightarrow> int list \<Rightarrow> (nat \<Rightarrow> real) \<Rightarrow> nat \<Rightarrow> PrecomputedTSNE \<Rightarrow>
   (error + PrecomputedTSNE) option" where
  \<comment> \<open>\<open>None\<close>: the random draws of \<^verbatim>\<open>_initializeEmbedding\<close> do not end. The value returned by
      \<^verbatim>\<open>run\<close> is the field \<^verbatim>\<open>snapshots\<close> of the engine returned here.\<close>
  "run inputData labels rnd k s0 =
     (case run_probabilities inputData labels s0 of
        Inl e \<Rightarrow> Some (Inl e)
      | Inr s14 \<Rightarrow>
          (case PrecomputedTSNE_initializeEmbedding rnd k s14 of
             None \<Rightarrow> None
           | Some (Y0, k') \<Rightarrow> Some (run_optimization Y0 labels s14)))"

section \<open>tsne.js\<close>

text \<open>
  The class \<^verbatim>\<open>TSNE\<close> keeps its own state; its fields are written \<open>tsne_x\<close>. The record
  has the configuration and the fields that \<^verbatim>\<open>_symmetrizeP\<close>, \<^verbatim>\<open>_applyExaggeration\<close>,
  \<^verbatim>\<open>_removeExaggeration\<close> and \<^verbatim>\<open>_updateEmbedding\<close> read or write.
\<close>

record TSNE =
  tsne_perplexity :: real
  tsne_learningRate :: real
  tsne_momentum :: real
  tsne_earlyExaggeration :: real
  tsne_exaggerationIter :: nat
  tsne_maxIter :: nat
  tsne_targetDim :: nat
  tsne_n :: nat
  tsne_Pcond :: matrix
  tsne_P :: matrix
  tsne_Porig :: matrix
  tsne_Y :: matrix
  tsne_Yprev :: matrix
  tsne_gradient :: matrix
  tsne_iteration :: nat
  tsne_exaggerationActive :: bool
  tsne_embedHistory :: "matrix list"

record tsne_options =
  topt_perplexity :: "real option"
  topt_learningRate :: "real option"
  topt_momentum :: "real option"
  topt_earlyExaggeration :: "real option"
  topt_exaggerationIter :: "nat option"
  topt_maxIter :: "nat option"
  topt_targetDim :: "nat option"

definition nullish :: "'a option \<Rightarrow> 'a \<Rightarrow> 'a" where
  \<comment> \<open>\<^verbatim>\<open>options.x ?? d\<close>: the default replaces a missing option only\<close>
  "nullish x d = (case x of None \<Rightarrow> d | Some v \<Rightarrow> v)"

definition new_TSNE :: "tsne_options \<Rightarrow> TSNE" where
  \<comment> \<open>the constructor followed by \<^verbatim>\<open>reset()\<close>\<close>
  "new_TSNE opts =
     \<lparr>tsne_perplexity = nullish (topt_perplexity opts) 30,
      tsne_learningRate = nullish (topt_learningRate opts) 200,
      tsne_momentum = nullish (topt_momentum opts) (8 / 10),
      tsne_earlyExaggeration = nullish (topt_earlyExaggeration opts) 4,
      tsne_exaggerationIter = nullish (topt_exaggerationIter opts) 250,
      tsne_maxIter = nullish (topt_maxIter opts) 1000,
      tsne_targetDim = nullish (topt_targetDim opts) 2,
      tsne_n = 0,
      tsne_Pcond = [],
      tsne_P = [],
      tsne_Porig = [],
      tsne_Y = [],
      tsne_Yprev = [],
      tsne_gradient = [],
      tsne_iteration = 0,
      tsne_exaggerationActive = False,
      tsne_embedHistory = []\<rparr>"

definition TSNE_symmetrizeP :: "TSNE \<Rightarrow> TSNE" where
  "TSNE_symmetrizeP s =
     (let n = tsne_n s;
          P = fold (\<lambda>i. fold (symmetrize_step (tsne_Pcond s) n i) [Suc i..<n]) [0..<n] (zeros n n)
      in s\<lparr>tsne_P := P, tsne_Porig := P\<rparr>)"

definition TSNE_applyExaggeration :: "TSNE \<Rightarrow> TSNE" where
  "TSNE_applyExaggeration s =
     s\<lparr>tsne_P := fold (\<lambda>i. fold (exaggerate_step (tsne_earlyExaggeration s) i) [0..<tsne_n s])
                    [0..<tsne_n s] (tsne_P s),
       tsne_exaggerationActive := True\<rparr>"

definition unexaggerate_step :: "real \<Rightarrow> nat \<Rightarrow> nat \<Rightarrow> matrix \<Rightarrow> matrix" where
  \<comment> \<open>\<^verbatim>\<open>this.P[i][j] /= this.earlyExaggeration\<close>\<close>
  "unexaggerate_step factor i j P = set2 P i j (P ! i ! j / factor)"

definition TSNE_removeExaggeration :: "TSNE \<Rightarrow> TSNE option" where
  \<comment> \<open>a division by the factor 0 gives \<^verbatim>\<open>NaN\<close> or \<^verbatim>\<open>Infinity\<close> in every entry: the result is
      not a matrix of real numbers, \<open>None\<close>\<close>
  "TSNE_removeExaggeration s =
     (if tsne_earlyExaggeration s = 0 \<and> 0 < tsne_n s then None
      else Some (s\<lparr>tsne_P := fold (\<lambda>i. fold (unexaggerate_step (tsne_earlyExaggeration s) i)
                                            [0..<tsne_n s])
                                [0..<tsne_n s] (tsne_P s),
                   tsne_exaggerationActive := False\<rparr>))"

definition descent_step :: "TSNE \<Rightarrow> nat \<Rightarrow> nat \<Rightarrow> matrix \<Rightarrow> matrix" where
  \<comment> \<open>\<^verbatim>\<open>const gradStep = this.learningRate * this.gradient[i][d];
      const momentumStep = this.momentum * (this.Y[i][d] - this.Yprev[i][d]);
      Ynew[i][d] = this.Y[i][d] - gradStep + momentumStep;\<close>\<close>
  "descent_step s i d Ynew =
     (let gradStep = tsne_learningRate s * tsne_gradient s ! i ! d;
          momentumStep = tsne_momentum s * (tsne_Y s ! i ! d - tsne_Yprev s ! i ! d)
      in set2 Ynew i d (tsne_Y s ! i ! d - gradStep + momentumStep))"

definition TSNE_updateEmbedding :: "TSNE \<Rightarrow> TSNE" where
  "TSNE_updateEmbedding s =
     (let Ynew = fold (\<lambda>i. fold (descent_step s i) [0..<tsne_targetDim s]) [0..<tsne_n s]
                   (zeros (tsne_n s) (tsne_targetDim s));
          s1 = s\<lparr>tsne_Yprev := tsne_Y s, tsne_Y := Ynew\<rparr>
      in if tsne_iteration s1 mod 10 = 0
         then s1\<lparr>tsne_embedHistory := tsne_embedHistory s1 @ [tsne_Y s1]\<rparr>
         else s1)"

section \<open>Quantities of the specification and example inputs\<close>

definition row_entropy :: "real list \<Rightarrow> nat \<Rightarrow> real \<Rightarrow> real" where
  \<comment> \<open>the entropy of the conditional distribution of a row, as a function of \<open>sigma\<close>\<close>
  "row_entropy distances i sigma =
     shannonEntropy (computeConditionalProbabilities distances sigma i)"

definition next_bracket :: "(real \<Rightarrow> real) \<Rightarrow> real \<Rightarrow> real \<times> real \<times> real \<Rightarrow> real \<times> real \<times> real" where
  \<comment> \<open>one step of the search of the specification on (lower bound, upper bound, guess):
      entropy too high, the guess becomes the upper bound and the new guess is the midpoint
      with the lower bound; otherwise the guess becomes the lower bound and the new guess is
      the midpoint with the upper bound, doubled while the upper bound is still \<open>1e10\<close>\<close>
  "next_bracket H target = (\<lambda>(lo, hi, s).
     if H s - target > 0 then (lo, s, (lo + s) / 2)
     else (s, hi, if hi = 10 ^ 10 then (s + hi) / 2 * 2 else (s + hi) / 2))"

definition guess_from :: "(real \<Rightarrow> real) \<Rightarrow> real \<Rightarrow> real \<times> real \<times> real \<Rightarrow> nat \<Rightarrow> real" where
  "guess_from H target x k = snd (snd ((next_bracket H target ^^ k) x))"

definition guess :: "(real \<Rightarrow> real) \<Rightarrow> real \<Rightarrow> nat \<Rightarrow> real" where
  \<comment> \<open>the guess after \<open>k\<close> steps from the bracket \<open>(1e-10, 1e10)\<close> and the guess 1\<close>
  "guess H target k = guess_from H target (1 / 10 ^ 10, 10 ^ 10, 1) k"

definition converged :: "(real \<Rightarrow> real) \<Rightarrow> real \<Rightarrow> real \<Rightarrow> real \<Rightarrow> bool" where
  "converged H target tol s \<longleftrightarrow> \<bar>H s - target\<bar> < tol"

definition engine_kernel :: "PrecomputedTSNE \<Rightarrow> nat \<Rightarrow> nat \<Rightarrow> real" where
  \<comment> \<open>the value that \<^verbatim>\<open>PrecomputedTSNE._computeConditionalP\<close> stores at \<open>(i, j)\<close> before it
      normalizes: the entry of the matrix of squared distances is squared again\<close>
  "engine_kernel s i j =
     exp (- (this_distanceMatrix s ! i ! j) * (this_distanceMatrix s ! i ! j)
          / (2 * (this_sigmas s ! i) * (this_sigmas s ! i)))"

definition engine_kernel_sum :: "PrecomputedTSNE \<Rightarrow> nat \<Rightarrow> real" where
  "engine_kernel_sum s i = (\<Sum>k \<in> {..<this_n s} - {i}. engine_kernel s i k)"

definition recorded :: "TSNESteps \<Rightarrow> PrecomputedTSNE \<Rightarrow> PrecomputedTSNE \<Rightarrow> bool" where
  \<comment> \<open>from \<open>s\<close> to \<open>s'\<close> one snapshot of type \<open>st\<close> was added, with the next step index\<close>
  "recorded st s s' \<longleftrightarrow>
     map stepType (this_snapshots s') = map stepType (this_snapshots s) @ [st]
     \<and> map stepId (this_snapshots s') = map stepId (this_snapshots s) @ [this_stepIndex s]
     \<and> this_stepIndex s' = Suc (this_stepIndex s)
     \<and> this_n s' = this_n s
     \<and> this_targetDim s' = this_targetDim s"

definition frame ::
  "PrecomputedTSNE \<Rightarrow>
   snapshot list \<times> nat \<times> nat \<times> nat \<times> real \<times> real \<times> nat \<times> real \<times> nat \<times> nat \<times> nat" where
  \<comment> \<open>what an iteration of the optimization leaves as it is: the snapshots and the step
      index, the counts, the momentum schedule and the learning rate, the iteration
      bounds, and the number of rows of the embedding\<close>
  "frame s =
     (this_snapshots s, this_stepIndex s, this_n s, this_targetDim s,
      this_momentum s, this_finalMomentum s, this_momentumSwitchIter s, this_learningRate s,
      this_maxIterations s, this_earlyExaggerationIter s, length (this_embedding s))"

definition all_steps :: "TSNESteps list" where
  "all_steps = [INTRO, INPUT_DATA, COMPUTE_DISTANCES, COMPUTE_SIGMAS, COMPUTE_P_CONDITIONAL,
     SYMMETRIZE_P, EARLY_EXAGGERATION, INITIALIZE_EMBEDDING, COMPUTE_Q, COMPUTE_GRADIENT,
     UPDATE_EMBEDDING, ITERATION_PROGRESS, REMOVE_EXAGGERATION, FINAL_RESULT]"

definition positive_bracket :: "real \<times> real \<times> real \<Rightarrow> bool" where
  "positive_bracket = (\<lambda>(lo, hi, s). 0 < lo \<and> 0 < hi \<and> 0 < s)"

definition trace_entry :: "real list \<Rightarrow> nat \<Rightarrow> nat \<Rightarrow> real \<Rightarrow> history_entry" where
  \<comment> \<open>the entry of the search history for the guess \<open>sigma\<close> at iteration \<open>iter\<close>\<close>
  "trace_entry distances i iter sigma =
     \<lparr>h_iteration = iter, h_sigma = sigma,
      h_perplexity = entropyToPerplexity (row_entropy distances i sigma)\<rparr>"

definition joint :: "matrix \<Rightarrow> nat \<Rightarrow> nat \<Rightarrow> nat \<Rightarrow> real" where
  \<comment> \<open>the joint probability \<open>(P(j|i) + P(i|j)) / (2N)\<close> of the specification\<close>
  "joint Pc n i j = (Pc ! i ! j + Pc ! j ! i) / (2 * real n)"

definition column_mean :: "nat \<Rightarrow> matrix \<Rightarrow> nat \<Rightarrow> real" where
  \<comment> \<open>the mean of dimension \<open>d\<close> over the \<open>n\<close> points of an embedding\<close>
  "column_mean n E d = (\<Sum>i<n. E ! i ! d) / real n"

definition centred :: "nat \<Rightarrow> nat \<Rightarrow> matrix \<Rightarrow> bool" where
  \<comment> \<open>an \<open>n\<close> by \<open>d\<close> embedding whose mean is 0 in each of its \<open>d\<close> dimensions\<close>
  "centred n d E \<longleftrightarrow> shape n d E \<and> list_all (\<lambda>k. column_mean n E k = 0) [0..<d]"

definition optimizer_invariant :: "PrecomputedTSNE \<Rightarrow> bool" where
  \<comment> \<open>what holds after every update of a run: the embedding is centred, the velocity has
      its shape, and so has every embedding that an iteration snapshot captured\<close>
  "optimizer_invariant s \<longleftrightarrow>
     centred (this_n s) (this_targetDim s) (this_embedding s)
     \<and> shape (this_n s) (this_targetDim s) (this_velocity s)
     \<and> list_all (\<lambda>x. centred (this_n s) (this_targetDim s) (it_embedding x))
           (this_iterationSnapshots s)"

definition momentum_at :: "nat \<Rightarrow> PrecomputedTSNE \<Rightarrow> real" where
  \<comment> \<open>the value of \<^verbatim>\<open>mom\<close> in \<^verbatim>\<open>_updateEmbedding(iteration)\<close>\<close>
  "momentum_at t s = (if t < this_momentumSwitchIter s then this_momentum s else this_finalMomentum s)"

definition scheduled_momentum :: "nat \<Rightarrow> real" where
  \<comment> \<open>the two-phase schedule of the specification with its default values\<close>
  "scheduled_momentum t = (if t < 250 then 1 / 2 else 8 / 10)"

definition no_options :: options where
  "no_options = \<lparr>opt_perplexity = None, opt_learningRate = None, opt_maxIterations = None,
     opt_targetDim = None, opt_earlyExaggeration = None, opt_earlyExaggerationIter = None\<rparr>"

definition tsne_no_options :: tsne_options where
  "tsne_no_options = \<lparr>topt_perplexity = None, topt_learningRate = None, topt_momentum = None,
     topt_earlyExaggeration = None, topt_exaggerationIter = None, topt_maxIter = None,
     topt_targetDim = None\<rparr>"

definition pre_two_points :: PrecomputedTSNE where
  \<comment> \<open>an engine with default options on two points, each the only neighbour of the other\<close>
  "pre_two_points = (new_PrecomputedTSNE no_options)
     \<lparr>this_n := 2,
      this_P_conditional := [[0, 1], [1, 0]],
      this_P := [[e12, 1 / 2], [1 / 2, e12]],
      this_P_original := [[e12, 1 / 2], [1 / 2, e12]]\<rparr>"

definition tsne_two_points :: TSNE where
  "tsne_two_points = (new_TSNE tsne_no_options)
     \<lparr>tsne_n := 2,
      tsne_Pcond := [[0, 1], [1, 0]],
      tsne_P := [[0, 1 / 2], [1 / 2, 0]],
      tsne_Porig := [[0, 1 / 2], [1 / 2, 0]]\<rparr>"

definition tsne_zero_factor :: TSNE where
  \<comment> \<open>\<^verbatim>\<open>new TSNE({ earlyExaggeration: 0 })\<close> on the same two points\<close>
  "tsne_zero_factor = (new_TSNE (tsne_no_options\<lparr>topt_earlyExaggeration := Some 0\<rparr>))
     \<lparr>tsne_n := 2,
      tsne_Pcond := [[0, 1], [1, 0]],
      tsne_P := [[0, 1 / 2], [1 / 2, 0]],
      tsne_Porig := [[0, 1 / 2], [1 / 2, 0]]\<rparr>"

definition pre_one_dim :: PrecomputedTSNE where
  \<comment> \<open>two points in one target dimension, before an update\<close>
  "pre_one_dim = (new_PrecomputedTSNE (no_options\<lparr>opt_targetDim := Some 1\<rparr>))
     \<lparr>this_n := 2,
      this_embedding := [[2], [0]],
      this_velocity := [[1], [0]],
      this_gradient := [[0], [0]]\<rparr>"

definition tsne_first_step :: TSNE where
  \<comment> \<open>two points in one target dimension before the first update: \<^verbatim>\<open>Yprev\<close> is the copy
      of \<^verbatim>\<open>Y\<close>, the gradient sums to 0\<close>
  "tsne_first_step = (new_TSNE (tsne_no_options\<lparr>topt_targetDim := Some 1\<rparr>))
     \<lparr>tsne_n := 2,
      tsne_Y := [[2], [0]],
      tsne_Yprev := [[2], [0]],
      tsne_gradient := [[1], [- 1]]\<rparr>"

definition tsne_second_step :: TSNE where
  \<comment> \<open>two points in one target dimension before the update of iteration 1\<close>
  "tsne_second_step = (new_TSNE (tsne_no_options\<lparr>topt_targetDim := Some 1\<rparr>))
     \<lparr>tsne_n := 2,
      tsne_Y := [[2], [0]],
      tsne_Yprev := [[1], [0]],
      tsne_gradient := [[0], [0]],
      tsne_iteration := 1\<rparr>"

definition three_coincident :: matrix where
  \<comment> \<open>the distance matrix of three points at the same place\<close>
  "three_coincident = [[0, 0, 0], [0, 0, 0], [0, 0, 0]]"

definition pre_three_points :: PrecomputedTSNE where
  \<comment> \<open>the engine after the search for sigma on the points 0, 1 and 2 of a line, had the
      search returned 1 for each: the matrix holds the squared distances\<close>
  "pre_three_points = (new_PrecomputedTSNE no_options)
     \<lparr>this_n := 3,
      this_distanceMatrix := computeDistanceMatrix [[0], [1], [2]],
      this_sigmas := [1, 1, 1]\<rparr>"

definition quarter_stream :: "nat \<Rightarrow> real" where
  \<comment> \<open>a sequence of random numbers: every call of \<^verbatim>\<open>Math.random\<close> returns 0.25\<close>
  "quarter_stream k = 1 / 4"

definition half_then_quarter :: "nat \<Rightarrow> real" where
  \<comment> \<open>another one: the first call returns 0.5, every later call 0.25\<close>
  "half_then_quarter k = (if k = 0 then 1 / 2 else 1 / 4)"

section \<open>Loops over an array\<close>

lemma fold_upt_Suc: "fold f [0..<Suc n] s = f n (fold f [0..<n] s)"
  by simp

lemma length_fold_upd:
  "length (fold (\<lambda>j P. P[j := g j P]) [0..<m] P) = length P"
  by (induction m) simp_all

lemma nth_fold_upd:
  assumes "m \<le> length P" and "k < length P"
  shows "fold (\<lambda>j P. P[j := f j (P ! j)]) [0..<m] P ! k = (if k < m then f k (P ! k) else P ! k)"
  using assms
proof (induction m arbitrary: k)
  case 0
  then show ?case by simp
next
  case (Suc m)
  let ?Q = "fold (\<lambda>j P. P[j := f j (P ! j)]) [0..<m] P"
  have len: "length ?Q = length P" by (rule length_fold_upd)
  have ih: "?Q ! k = (if k < m then f k (P ! k) else P ! k)"
    using Suc.IH [of k] Suc.prems by simp
  have ihm: "?Q ! m = P ! m"
    using Suc.IH [of m] Suc.prems by simp
  show ?case
  proof (cases "k = m")
    case True
    then show ?thesis using Suc.prems len ihm by simp
  next
    case False
    then show ?thesis using Suc.prems len ih by (simp add: less_Suc_eq)
  qed
qed

lemma fold_invariant:
  assumes "I s" and "\<And>x s. x \<in> set xs \<Longrightarrow> I s \<Longrightarrow> I (f x s)"
  shows "I (fold f xs s)"
  using assms by (induction xs arbitrary: s) simp_all

lemma shape_nth: "shape n m M \<longleftrightarrow> length M = n \<and> (\<forall>i<n. length (M ! i) = m)"
  by (auto simp: shape_def list_all_length)

lemma length_set2 [simp]: "length (set2 M i j v) = length M"
  by (simp add: set2_def)

lemma length_nth_set2 [simp]: "length (set2 M i j v ! a) = length (M ! a)"
  by (cases "i < length M") (simp_all add: set2_def nth_list_update list_update_beyond)

lemma shape_set2 [simp]: "shape n m (set2 M i j v) = shape n m M"
  by (simp add: shape_nth)

lemma nth_set2:
  "i < length M \<Longrightarrow> j < length (M ! i) \<Longrightarrow>
   set2 M i j v ! a ! b = (if a = i \<and> b = j then v else M ! a ! b)"
  by (simp add: set2_def nth_list_update)

lemma shape_zeros [simp]: "shape n m (zeros n m)"
  by (simp add: shape_nth zeros_def)

lemma nth_zeros [simp]: "a < n \<Longrightarrow> b < m \<Longrightarrow> zeros n m ! a ! b = 0"
  by (simp add: zeros_def)

lemma length_zeros [simp]: "length (zeros n m) = n"
  by (simp add: zeros_def)

text \<open>A loop that assigns to each entry of a block of a matrix a value computed from the old entry.\<close>

lemma cell_loop_row:
  assumes "shape N M A" and "i < N" and "m \<le> M"
  shows "shape N M (fold (\<lambda>j A. set2 A i j (g j (A ! i ! j))) [0..<m] A)
    \<and> (\<forall>a b. fold (\<lambda>j A. set2 A i j (g j (A ! i ! j))) [0..<m] A ! a ! b =
          (if a = i \<and> b < m then g b (A ! a ! b) else A ! a ! b))"
  using assms(3)
proof (induction m)
  case 0
  show ?case using assms(1) by simp
next
  case (Suc m)
  let ?R = "fold (\<lambda>j A. set2 A i j (g j (A ! i ! j))) [0..<m] A"
  have sh: "shape N M ?R"
    and nth: "\<And>a b. ?R ! a ! b = (if a = i \<and> b < m then g b (A ! a ! b) else A ! a ! b)"
    using Suc by simp_all
  have i: "i < length ?R" and m: "m < length (?R ! i)"
    using sh assms(2) Suc.prems by (simp_all add: shape_nth)
  have "set2 ?R i m (g m (?R ! i ! m)) ! a ! b =
      (if a = i \<and> b < Suc m then g b (A ! a ! b) else A ! a ! b)" for a b
    unfolding nth_set2 [OF i m] nth by (auto simp: less_Suc_eq)
  then show ?case using sh by simp
qed

lemma cell_loop:
  assumes "shape N M A" and "n \<le> N" and "m \<le> M"
  shows "shape N M (fold (\<lambda>i. fold (\<lambda>j A. set2 A i j (g i j (A ! i ! j))) [0..<m]) [0..<n] A)
    \<and> (\<forall>a b. fold (\<lambda>i. fold (\<lambda>j A. set2 A i j (g i j (A ! i ! j))) [0..<m]) [0..<n] A ! a ! b =
          (if a < n \<and> b < m then g a b (A ! a ! b) else A ! a ! b))"
  using assms(2)
proof (induction n)
  case 0
  show ?case using assms(1) by simp
next
  case (Suc n)
  let ?R = "fold (\<lambda>i. fold (\<lambda>j A. set2 A i j (g i j (A ! i ! j))) [0..<m]) [0..<n] A"
  have sh: "shape N M ?R"
    and nth: "\<And>a b. ?R ! a ! b = (if a < n \<and> b < m then g a b (A ! a ! b) else A ! a ! b)"
    using Suc by simp_all
  have n: "n < N" using Suc.prems by simp
  note row = cell_loop_row [OF sh n assms(3), of "g n"]
  have "fold (\<lambda>j A. set2 A n j (g n j (A ! n ! j))) [0..<m] ?R ! a ! b =
      (if a < Suc n \<and> b < m then g a b (A ! a ! b) else A ! a ! b)" for a b
    using row nth by (auto simp: less_Suc_eq)
  then show ?case using row by simp
qed

text \<open>The loop over the pairs \<open>i < j\<close> that writes a value at \<open>(i, j)\<close> and at \<open>(j, i)\<close>.\<close>

lemma pair_loop_row:
  assumes "shape n n A" and "i < n" and "m \<le> n"
  shows "shape n n (fold (\<lambda>j A. set2 (set2 A i j (f i j)) j i (f i j)) [Suc i..<m] A)
    \<and> (\<forall>a b. fold (\<lambda>j A. set2 (set2 A i j (f i j)) j i (f i j)) [Suc i..<m] A ! a ! b =
          (if a = i \<and> i < b \<and> b < m then f i b
           else if b = i \<and> i < a \<and> a < m then f i a
           else A ! a ! b))"
  using assms(3)
proof (induction m)
  case 0
  show ?case using assms(1) by simp
next
  case (Suc m)
  let ?body = "\<lambda>j A. set2 (set2 A i j (f i j)) j i (f i j)"
  let ?R = "fold ?body [Suc i..<m] A"
  have sh: "shape n n ?R"
    and nth: "\<And>a b. ?R ! a ! b =
          (if a = i \<and> i < b \<and> b < m then f i b
           else if b = i \<and> i < a \<and> a < m then f i a
           else A ! a ! b)"
    using Suc by simp_all
  show ?case
  proof (cases "Suc i \<le> m")
    case False
    then have "[Suc i..<Suc m] = []" and "[Suc i..<m] = []" by simp_all
    then show ?thesis using assms(1) False by auto
  next
    case True
    then have upt: "[Suc i..<Suc m] = [Suc i..<m] @ [m]" by simp
    have m: "m < n" using Suc.prems by simp
    have l1: "i < length ?R" "m < length (?R ! i)"
      using sh assms(2) m by (simp_all add: shape_nth)
    have l2: "m < length (set2 ?R i m (f i m))" "i < length (set2 ?R i m (f i m) ! m)"
      using sh assms(2) m by (simp_all add: shape_nth)
    have "?body m ?R ! a ! b =
          (if a = i \<and> i < b \<and> b < Suc m then f i b
           else if b = i \<and> i < a \<and> a < Suc m then f i a
           else A ! a ! b)" for a b
      unfolding nth_set2 [OF l2] nth_set2 [OF l1] nth using True
      by (auto simp: less_Suc_eq)
    then show ?thesis unfolding upt using sh by simp
  qed
qed

lemma pair_loop:
  assumes "shape n n A" and "k \<le> n"
  shows "shape n n (fold (\<lambda>i. fold (\<lambda>j A. set2 (set2 A i j (f i j)) j i (f i j)) [Suc i..<n]) [0..<k] A)
    \<and> (\<forall>a b. a < n \<longrightarrow> b < n \<longrightarrow>
          fold (\<lambda>i. fold (\<lambda>j A. set2 (set2 A i j (f i j)) j i (f i j)) [Suc i..<n]) [0..<k] A ! a ! b =
          (if a \<noteq> b \<and> min a b < k then f (min a b) (max a b) else A ! a ! b))"
  using assms(2)
proof (induction k)
  case 0
  show ?case using assms(1) by simp
next
  case (Suc k)
  let ?body = "\<lambda>i. fold (\<lambda>j A. set2 (set2 A i j (f i j)) j i (f i j)) [Suc i..<n]"
  let ?R = "fold ?body [0..<k] A"
  have sh: "shape n n ?R"
    and nth: "\<And>a b. a < n \<Longrightarrow> b < n \<Longrightarrow> ?R ! a ! b =
          (if a \<noteq> b \<and> min a b < k then f (min a b) (max a b) else A ! a ! b)"
    using Suc by simp_all
  have k: "k < n" using Suc.prems by simp
  note row = pair_loop_row [OF sh k order_refl, of f]
  have "?body k ?R ! a ! b =
          (if a \<noteq> b \<and> min a b < Suc k then f (min a b) (max a b) else A ! a ! b)"
    if "a < n" "b < n" for a b
    using row nth [OF that] that by (auto simp: less_Suc_eq min_def max_def)
  then show ?case using row by simp
qed

section \<open>Conditional probabilities of a row\<close>

lemma kernel_fold:
  assumes "m \<le> length distances"
  shows "fold (kernel_step distances t i) [0..<m] (replicate (length distances) 0, 0) =
     (map (\<lambda>j. if j < m \<and> j \<noteq> i then exp (- (distances ! j) / t) else 0) [0..<length distances],
      \<Sum>k \<in> {..<m} - {i}. exp (- (distances ! k) / t))"
  using assms
proof (induction m)
  case 0
  show ?case by (simp add: map_replicate_const)
next
  case (Suc m)
  let ?n = "length distances"
  let ?e = "\<lambda>j. exp (- (distances ! j) / t)"
  let ?P = "map (\<lambda>j. if j < m \<and> j \<noteq> i then ?e j else 0) [0..<?n]"
  have m: "m < ?n" using Suc.prems by simp
  have ih: "fold (kernel_step distances t i) [0..<m] (replicate ?n 0, 0) = (?P, \<Sum>k \<in> {..<m} - {i}. ?e k)"
    using Suc by simp
  have step: "fold (kernel_step distances t i) [0..<Suc m] (replicate ?n 0, 0) =
      kernel_step distances t i m (?P, \<Sum>k \<in> {..<m} - {i}. ?e k)"
    unfolding fold_upt_Suc ih ..
  show ?case
  proof (cases "m = i")
    case True
    have a: "{..<Suc m} - {i} = {..<m} - {i}" using True by auto
    have b: "map (\<lambda>j. if j < Suc m \<and> j \<noteq> i then ?e j else 0) [0..<?n] = ?P"
      using True by (auto simp: less_Suc_eq)
    have "kernel_step distances t i m (?P, \<Sum>k \<in> {..<m} - {i}. ?e k) = (?P, \<Sum>k \<in> {..<m} - {i}. ?e k)"
      using True by (simp add: kernel_step_def)
    then show ?thesis unfolding step a b .
  next
    case False
    have s: "{..<Suc m} - {i} = insert m ({..<m} - {i})" using False by auto
    have a: "(\<Sum>k \<in> {..<Suc m} - {i}. ?e k) = (\<Sum>k \<in> {..<m} - {i}. ?e k) + ?e m"
      unfolding s by (subst sum.insert) auto
    have b: "map (\<lambda>j. if j < Suc m \<and> j \<noteq> i then ?e j else 0) [0..<?n] = ?P[m := ?e m]"
      using m False by (intro nth_equalityI) (auto simp: nth_list_update less_Suc_eq)
    have c: "?P[m := ?e m] ! m = ?e m" using m by simp
    have "kernel_step distances t i m (?P, \<Sum>k \<in> {..<m} - {i}. ?e k) =
        (?P[m := ?e m], (\<Sum>k \<in> {..<m} - {i}. ?e k) + ?e m)"
      using False c by (simp add: kernel_step_def Let_def del: nth_list_update_eq nth_map)
    then show ?thesis unfolding step a b .
  qed
qed

lemma normalize_fold:
  "fold (normalize_step S) [0..<length P] P = map (\<lambda>x. x / S) P"
proof (intro nth_equalityI)
  show "length (fold (normalize_step S) [0..<length P] P) = length (map (\<lambda>x. x / S) P)"
    unfolding normalize_step_def by (simp add: length_fold_upd)
next
  fix k assume "k < length (fold (normalize_step S) [0..<length P] P)"
  then have k: "k < length P" unfolding normalize_step_def by (simp add: length_fold_upd)
  show "fold (normalize_step S) [0..<length P] P ! k = map (\<lambda>x. x / S) P ! k"
    unfolding normalize_step_def
    using nth_fold_upd [of "length P" P k "\<lambda>j x. x / S"] k by simp
qed

lemma computeConditionalProbabilities_eq:
  "computeConditionalProbabilities distances sigma i =
     (let S = kernel_sum distances sigma i in
      map (\<lambda>j. if j = i then 0
               else if S > e12 then gauss_kernel distances sigma j / S else gauss_kernel distances sigma j)
        [0..<length distances])"
proof -
  let ?n = "length distances"
  let ?P = "map (\<lambda>j. if j < ?n \<and> j \<noteq> i then exp (- (distances ! j) / (2 * sigma * sigma)) else 0) [0..<?n]"
  have f: "fold (kernel_step distances (2 * sigma * sigma) i) [0..<?n] (replicate ?n 0, 0) =
      (?P, kernel_sum distances sigma i)"
    using kernel_fold [of ?n distances "2 * sigma * sigma" i] by (simp add: kernel_sum_def gauss_kernel_def)
  have n: "fold (normalize_step S) [0..<?n] ?P = map (\<lambda>x. x / S) ?P" for S
    using normalize_fold [of S ?P] by simp
  show ?thesis
    unfolding computeConditionalProbabilities_def Let_def f fst_conv snd_conv n
    by (auto simp: gauss_kernel_def)
qed


lemma exp_minus_40_le: "exp (- 40 :: real) \<le> e12"
proof -
  have "(2::real) \<le> exp 1" using exp_ge_add_one_self [of "1::real"] by simp
  then have "(2::real) ^ 40 \<le> exp 1 ^ 40" by (rule power_mono) simp
  also have "exp (1::real) ^ 40 = exp 40"
    using exp_of_nat_mult [of 40 "1::real"] by simp
  finally have "(10::real) ^ 12 \<le> exp 40" by simp
  then have "inverse (exp (40::real)) \<le> inverse (10 ^ 12)"
    by (intro le_imp_inverse_le) simp_all
  then show ?thesis by (simp add: exp_minus inverse_eq_divide)
qed

lemma kernel_sum_0_80: "kernel_sum [0, 80] 1 0 = exp (- 40)"
proof -
  have "{..<length [0, 80 :: real]} - {0} = {Suc 0}" by auto
  then show ?thesis by (simp add: kernel_sum_def gauss_kernel_def)
qed

text \<open>
  Claim C6, as amended. When the sum of the kernel values over the entries other than the
  centre is at most \<open>1e-12\<close> (and \<open>sigma\<close> is not 0), \<^verbatim>\<open>computeConditionalProbabilities\<close>
  skips the normalization and returns the row of the kernel values themselves, with 0 at
  the centre: every entry lies between 0 and \<open>1e-12\<close>, and nothing is thrown. The entries
  are not reset to zero.
\<close>

theorem C6_degenerate_row_keeps_kernel_values:
  assumes "sigma \<noteq> 0" and "kernel_sum distances sigma i \<le> e12"
  shows "computeConditionalProbabilities distances sigma i =
           map (\<lambda>j. if j = i then 0 else gauss_kernel distances sigma j) [0..<length distances]
         \<and> (\<forall>p \<in> set (computeConditionalProbabilities distances sigma i). 0 \<le> p \<and> p \<le> e12)"
proof -
  let ?n = "length distances"
  let ?row = "map (\<lambda>j. if j = i then 0 else gauss_kernel distances sigma j) [0..<?n]"
  have eq: "computeConditionalProbabilities distances sigma i = ?row"
    using assms(2) by (simp add: computeConditionalProbabilities_eq Let_def)
  have "0 \<le> p \<and> p \<le> e12" if "p \<in> set ?row" for p
  proof -
    from that obtain j where j: "j < ?n" and p: "p = (if j = i then 0 else gauss_kernel distances sigma j)"
      by auto
    show ?thesis
    proof (cases "j = i")
      case True
      then show ?thesis using p by simp
    next
      case False
      have "gauss_kernel distances sigma j \<le> kernel_sum distances sigma i"
        unfolding kernel_sum_def
        by (rule member_le_sum) (use j False in \<open>auto simp: gauss_kernel_def\<close>)
      then show ?thesis using p False assms(2) by (simp add: gauss_kernel_def)
    qed
  qed
  then show ?thesis unfolding eq by blast
qed

text \<open>The row of two points at squared distance 80 with \<open>sigma = 1\<close> is such a row.\<close>

theorem C6_degenerate_row_witness:
  "(1::real) \<noteq> 0 \<and> kernel_sum [0, 80] 1 0 \<le> e12
   \<and> computeConditionalProbabilities [0, 80] 1 0 = [0, exp (- 40)]"
proof -
  have h: "kernel_sum [0, 80] 1 0 \<le> e12"
    unfolding kernel_sum_0_80 by (rule exp_minus_40_le)
  have "computeConditionalProbabilities [0, 80] 1 0 =
          map (\<lambda>j. if j = 0 then 0 else gauss_kernel [0, 80] 1 j) [0..<length [0, 80 :: real]]"
    using C6_degenerate_row_keeps_kernel_values [of 1 "[0, 80]" 0] h by simp
  also have "\<dots> = [0, exp (- 40)]"
    by (simp add: gauss_kernel_def upt_rec)
  finally show ?thesis using h by simp
qed

text \<open>
  Claim C6 as it is written fails on that row: the kernel sum is \<open>exp (- 40)\<close>, below
  \<open>1e-12\<close>, and the returned row is \<open>[0, exp (- 40)]\<close>, not the zero row.
\<close>

theorem C6_degenerate_row_not_zero:
  "kernel_sum [0, 80] 1 0 \<le> e12 \<and> computeConditionalProbabilities [0, 80] 1 0 \<noteq> [0, 0]"
proof -
  have h: "kernel_sum [0, 80] 1 0 \<le> e12"
    unfolding kernel_sum_0_80 by (rule exp_minus_40_le)
  have "computeConditionalProbabilities [0, 80] 1 0 = [0, exp (- 40)]"
    using h by (simp add: computeConditionalProbabilities_eq Let_def gauss_kernel_def upt_rec)
  then show ?thesis using h by simp
qed

text \<open>
  Claim C1, as amended. For every row of squared distances, every \<open>sigma > 0\<close> and every
  centre \<open>i\<close> such that the sum of the kernel values over the entries other than \<open>i\<close>
  exceeds \<open>1e-12\<close>, \<^verbatim>\<open>computeConditionalProbabilities\<close> of math-utils returns a row of
  the same length with entry \<open>j\<close> equal to the kernel value of \<open>j\<close> divided by that sum,
  entry \<open>i\<close> equal to 0, and the entries other than \<open>i\<close> sum to 1.
\<close>

theorem C1_conditional_row_normalized:
  assumes "0 < sigma" and "kernel_sum distances sigma i > e12"
  shows "length (computeConditionalProbabilities distances sigma i) = length distances
         \<and> (\<forall>j < length distances. computeConditionalProbabilities distances sigma i ! j =
               (if j = i then 0 else gauss_kernel distances sigma j / kernel_sum distances sigma i))
         \<and> (\<Sum>j \<in> {..<length distances} - {i}. computeConditionalProbabilities distances sigma i ! j) = 1"
proof -
  let ?n = "length distances"
  let ?S = "kernel_sum distances sigma i"
  let ?row = "computeConditionalProbabilities distances sigma i"
  have S: "0 < ?S" using assms(2) by (rule less_trans [rotated]) simp
  have len: "length ?row = ?n"
    by (simp add: computeConditionalProbabilities_eq Let_def)
  have nth: "?row ! j = (if j = i then 0 else gauss_kernel distances sigma j / ?S)" if "j < ?n" for j
    using that assms(2) by (simp add: computeConditionalProbabilities_eq Let_def)
  have "(\<Sum>j \<in> {..<?n} - {i}. ?row ! j) = (\<Sum>j \<in> {..<?n} - {i}. gauss_kernel distances sigma j / ?S)"
    by (rule sum.cong) (auto simp: nth)
  also have "\<dots> = ?S / ?S"
    unfolding kernel_sum_def by (rule sum_divide_distrib [symmetric])
  also have "\<dots> = 1" using S by simp
  finally show ?thesis using len nth by blast
qed

lemma conditional_row_three_zero:
  "kernel_sum [0, 0, 0] 1 0 = 2"
  "computeConditionalProbabilities [0, 0, 0] 1 0 = [0, 1 / 2, 1 / 2]"
proof -
  have "{..<length [0, 0, 0 :: real]} - {0} = {Suc 0, Suc (Suc 0)}" by auto
  then show S: "kernel_sum [0, 0, 0] 1 0 = 2"
    by (simp add: kernel_sum_def gauss_kernel_def)
  show "computeConditionalProbabilities [0, 0, 0] 1 0 = [0, 1 / 2, 1 / 2]"
    by (simp add: computeConditionalProbabilities_eq S Let_def gauss_kernel_def upt_rec)
qed

theorem C1_conditional_row_witness:
  "(0::real) < 1 \<and> kernel_sum [0, 0, 0] 1 0 > e12
   \<and> computeConditionalProbabilities [0, 0, 0] 1 0 = [0, 1 / 2, 1 / 2]"
proof -
  have "{..<length [0, 0, 0 :: real]} - {0} = {Suc 0, Suc (Suc 0)}" by auto
  then have S: "kernel_sum [0, 0, 0] 1 0 = 2"
    by (simp add: kernel_sum_def gauss_kernel_def)
  have h: "kernel_sum [0, 0, 0] 1 0 > e12" unfolding S by simp
  have c: "length (computeConditionalProbabilities [0, 0, 0] 1 0) = 3
     \<and> (\<forall>j < 3. computeConditionalProbabilities [0, 0, 0] 1 0 ! j =
               (if j = 0 then 0 else gauss_kernel [0, 0, 0] 1 j / 2))"
    using C1_conditional_row_normalized [of 1 "[0, 0, 0]" 0] h S by simp
  have "computeConditionalProbabilities [0, 0, 0] 1 0 = [0, 1 / 2, 1 / 2]"
  proof (intro nth_equalityI)
    show "length (computeConditionalProbabilities [0, 0, 0] 1 0) = length [0, 1 / 2, 1 / 2 :: real]"
      using c by simp
  next
    fix j assume "j < length (computeConditionalProbabilities [0, 0, 0] 1 0)"
    then have "j < 3" using c by simp
    then consider "j = 0" | "j = 1" | "j = 2" by linarith
    then show "computeConditionalProbabilities [0, 0, 0] 1 0 ! j = [0, 1 / 2, 1 / 2] ! j"
      using c by cases (simp_all add: gauss_kernel_def)
  qed
  then show ?thesis using h by simp
qed

section \<open>Matrices of probabilities\<close>

lemma matrix_eqI:
  assumes "shape n m A" and "shape n m B"
    and "\<And>a b. a < n \<Longrightarrow> b < m \<Longrightarrow> A ! a ! b = B ! a ! b"
  shows "A = B"
proof -
  have "A ! a = B ! a" if "a < n" for a
    using assms that by (simp add: list_eq_iff_nth_eq shape_nth)
  then show ?thesis
    using assms(1,2) by (simp add: list_eq_iff_nth_eq shape_nth)
qed

subsection \<open>Symmetrization\<close>

lemma symmetrize_step_eq:
  "symmetrize_step Pc n i = (\<lambda>j A. set2 (set2 A i j (joint Pc n i j)) j i (joint Pc n i j))"
  by (intro ext) (simp add: symmetrize_step_def joint_def Let_def)

lemma joint_commute: "joint Pc n (min a b) (max a b) = joint Pc n a b"
  by (simp add: joint_def min_def max_def)

lemma symmetrize_loop:
  "shape n n (fold (\<lambda>i. fold (symmetrize_step Pc n i) [Suc i..<n]) [0..<n] (zeros n n))"
  "a < n \<Longrightarrow> b < n \<Longrightarrow>
   fold (\<lambda>i. fold (symmetrize_step Pc n i) [Suc i..<n]) [0..<n] (zeros n n) ! a ! b =
     (if a \<noteq> b then joint Pc n a b else 0)"
proof -
  note pl = pair_loop [OF shape_zeros order_refl, where f = "joint Pc n"]
  show "shape n n (fold (\<lambda>i. fold (symmetrize_step Pc n i) [Suc i..<n]) [0..<n] (zeros n n))"
    unfolding symmetrize_step_eq using pl by simp
  show "fold (\<lambda>i. fold (symmetrize_step Pc n i) [Suc i..<n]) [0..<n] (zeros n n) ! a ! b =
     (if a \<noteq> b then joint Pc n a b else 0)" if "a < n" "b < n"
    unfolding symmetrize_step_eq using pl that by (simp add: joint_commute min_less_iff_disj)
qed

lemma floor_step_eq: "floor_step minP i = (\<lambda>j A. set2 A i j (max (A ! i ! j) minP))"
  by (intro ext) (simp add: floor_step_def)

lemma symmetrizeP_shape: "shape (this_n s) (this_n s) (symmetrizeP s)"
  unfolding symmetrizeP_def Let_def floor_step_eq
  using cell_loop [OF symmetrize_loop(1) order_refl order_refl, where g = "\<lambda>i j x. max x e12"]
  by simp

lemma symmetrizeP_nth:
  assumes "a < this_n s" and "b < this_n s"
  shows "symmetrizeP s ! a ! b =
    (if a \<noteq> b then max (joint (this_P_conditional s) (this_n s) a b) e12 else e12)"
  unfolding symmetrizeP_def Let_def floor_step_eq
  using cell_loop [OF symmetrize_loop(1) order_refl order_refl, where g = "\<lambda>i j x. max x e12"]
    assms symmetrize_loop(2) [OF assms, of "this_P_conditional s"]
  by simp

lemma TSNE_symmetrizeP_shape: "shape (tsne_n t) (tsne_n t) (tsne_P (TSNE_symmetrizeP t))"
  unfolding TSNE_symmetrizeP_def Let_def using symmetrize_loop(1) by simp

lemma TSNE_symmetrizeP_nth:
  assumes "a < tsne_n t" and "b < tsne_n t"
  shows "tsne_P (TSNE_symmetrizeP t) ! a ! b =
    (if a \<noteq> b then joint (tsne_Pcond t) (tsne_n t) a b else 0)"
  unfolding TSNE_symmetrizeP_def Let_def using symmetrize_loop(2) [OF assms] by simp

subsection \<open>klDivergence reads no diagonal entry\<close>

lemma klDivergence_off_diagonal:
  assumes "length P' = length P"
    and "\<And>i j. i < length P \<Longrightarrow> j < length P \<Longrightarrow> i \<noteq> j \<Longrightarrow> P' ! i ! j = P ! i ! j"
  shows "klDivergence P' Q = klDivergence P Q"
proof -
  let ?n = "length P"
  have step: "kl_step P' Q i j = kl_step P Q i j" if "i < ?n" "j < ?n" for i j
  proof -
    have "i \<noteq> j \<Longrightarrow> P' ! i ! j = P ! i ! j"
      using assms(2) [OF that] by simp
    then show ?thesis by (intro ext) (auto simp: kl_step_def)
  qed
  have "fold (kl_step P' Q i) [0..<?n] = fold (kl_step P Q i) [0..<?n]" if "i < ?n" for i
  proof
    fix kl :: real
    show "fold (kl_step P' Q i) [0..<?n] kl = fold (kl_step P Q i) [0..<?n] kl"
      by (rule fold_cong) (simp_all add: step that)
  qed
  then have "fold (\<lambda>i. fold (kl_step P' Q i) [0..<?n]) [0..<?n] (0::real) =
             fold (\<lambda>i. fold (kl_step P Q i) [0..<?n]) [0..<?n] 0"
    by (intro fold_cong refl) simp
  then show ?thesis by (simp add: klDivergence_def assms(1))
qed

subsection \<open>Early exaggeration\<close>

lemma exaggerate_step_eq: "exaggerate_step factor i = (\<lambda>j A. set2 A i j (A ! i ! j * factor))"
  by (intro ext) (simp add: exaggerate_step_def)

lemma restore_step_eq: "restore_step P0 i = (\<lambda>j A. set2 A i j (P0 ! i ! j))"
  by (intro ext) (simp add: restore_step_def)

lemma unexaggerate_step_eq: "unexaggerate_step factor i = (\<lambda>j A. set2 A i j (A ! i ! j / factor))"
  by (intro ext) (simp add: unexaggerate_step_def)

lemma exaggerate_loop:
  assumes "shape n n A"
  shows "shape n n (fold (\<lambda>i. fold (exaggerate_step factor i) [0..<n]) [0..<n] A)"
    and "a < n \<Longrightarrow> b < n \<Longrightarrow>
      fold (\<lambda>i. fold (exaggerate_step factor i) [0..<n]) [0..<n] A ! a ! b = A ! a ! b * factor"
  unfolding exaggerate_step_eq
  using cell_loop [OF assms order_refl order_refl, where g = "\<lambda>i j x. x * factor"] by simp_all

lemma restore_loop:
  assumes "shape n n A"
  shows "shape n n (fold (\<lambda>i. fold (restore_step P0 i) [0..<n]) [0..<n] A)"
    and "a < n \<Longrightarrow> b < n \<Longrightarrow>
      fold (\<lambda>i. fold (restore_step P0 i) [0..<n]) [0..<n] A ! a ! b = P0 ! a ! b"
  unfolding restore_step_eq
  using cell_loop [OF assms order_refl order_refl, where g = "\<lambda>i j x. P0 ! i ! j"] by simp_all

lemma unexaggerate_loop:
  assumes "shape n n A"
  shows "shape n n (fold (\<lambda>i. fold (unexaggerate_step factor i) [0..<n]) [0..<n] A)"
    and "a < n \<Longrightarrow> b < n \<Longrightarrow>
      fold (\<lambda>i. fold (unexaggerate_step factor i) [0..<n]) [0..<n] A ! a ! b = A ! a ! b / factor"
  unfolding unexaggerate_step_eq
  using cell_loop [OF assms order_refl order_refl, where g = "\<lambda>i j x. x / factor"] by simp_all

lemma precomputed_round_trip:
  assumes "shape (this_n s) (this_n s) (this_P s)"
    and "shape (this_n s) (this_n s) (this_P_original s)"
  shows "this_P (removeEarlyExaggeration (applyEarlyExaggeration s)) = this_P_original s"
proof -
  let ?n = "this_n s"
  let ?P1 = "fold (\<lambda>i. fold (exaggerate_step (this_earlyExaggeration s) i) [0..<?n]) [0..<?n] (this_P s)"
  have sh1: "shape ?n ?n ?P1" using exaggerate_loop(1) [OF assms(1)] .
  have "fold (\<lambda>i. fold (restore_step (this_P_original s) i) [0..<?n]) [0..<?n] ?P1 = this_P_original s"
    using restore_loop [OF sh1, where ?P0.0 = "this_P_original s"] assms(2)
    by (intro matrix_eqI [of ?n ?n]) simp_all
  then show ?thesis
    by (simp add: removeEarlyExaggeration_def applyEarlyExaggeration_def)
qed

lemma tsne_round_trip:
  assumes "shape (tsne_n t) (tsne_n t) (tsne_P t)" and "tsne_earlyExaggeration t \<noteq> 0"
  shows "\<exists>t'. TSNE_removeExaggeration (TSNE_applyExaggeration t) = Some t' \<and> tsne_P t' = tsne_P t"
proof -
  let ?n = "tsne_n t"
  let ?f = "tsne_earlyExaggeration t"
  let ?P1 = "fold (\<lambda>i. fold (exaggerate_step ?f i) [0..<?n]) [0..<?n] (tsne_P t)"
  have sh1: "shape ?n ?n ?P1" using exaggerate_loop(1) [OF assms(1)] .
  have "fold (\<lambda>i. fold (unexaggerate_step ?f i) [0..<?n]) [0..<?n] ?P1 = tsne_P t"
    using unexaggerate_loop [OF sh1, where factor = ?f] exaggerate_loop(2) [OF assms(1), where factor = ?f] assms
    by (intro matrix_eqI [of ?n ?n]) simp_all
  then show ?thesis using assms(2)
    by (simp add: TSNE_removeExaggeration_def TSNE_applyExaggeration_def)
qed

section \<open>Symmetrization and early exaggeration\<close>

lemma joint_sym: "joint Pc n i j = joint Pc n j i"
  by (simp add: joint_def add.commute)

lemma shape_two [simp]: "shape 2 2 [[a, b], [c, d]]"
  by (simp add: shape_def)

lemma pre_two_points_simps [simp]:
  "this_n pre_two_points = 2"
  "this_P_conditional pre_two_points = [[0, 1], [1, 0]]"
  "this_P pre_two_points = [[e12, 1 / 2], [1 / 2, e12]]"
  "this_P_original pre_two_points = [[e12, 1 / 2], [1 / 2, e12]]"
  by (simp_all add: pre_two_points_def)

lemma tsne_two_points_simps [simp]:
  "tsne_n tsne_two_points = 2"
  "tsne_Pcond tsne_two_points = [[0, 1], [1, 0]]"
  "tsne_P tsne_two_points = [[0, 1 / 2], [1 / 2, 0]]"
  "tsne_earlyExaggeration tsne_two_points = 4"
  by (simp_all add: tsne_two_points_def new_TSNE_def nullish_def tsne_no_options_def)

lemma tsne_zero_factor_simps [simp]:
  "tsne_n tsne_zero_factor = 2"
  "tsne_P tsne_zero_factor = [[0, 1 / 2], [1 / 2, 0]]"
  "tsne_earlyExaggeration tsne_zero_factor = 0"
  by (simp_all add: tsne_zero_factor_def new_TSNE_def nullish_def tsne_no_options_def)

text \<open>
  Claim C5, as amended. On an \<open>N\<close> by \<open>N\<close> matrix of conditional probabilities the
  symmetrization of \<^verbatim>\<open>PrecomputedTSNE\<close> produces an \<open>N\<close> by \<open>N\<close> matrix whose entry
  \<open>(i, j)\<close>, \<open>i \<noteq> j\<close>, is the larger of \<open>(P(j|i) + P(i|j)) / (2N)\<close> and \<open>1e-12\<close>; the matrix is
  symmetric and every entry is at least \<open>1e-12\<close>, so strictly positive. The symmetrization
  of the class \<^verbatim>\<open>TSNE\<close> produces \<open>(P(j|i) + P(i|j)) / (2N)\<close> at \<open>i \<noteq> j\<close> and a symmetric
  matrix, with no floor: its diagonal is 0.
\<close>

theorem C5_symmetrization:
  assumes "shape (this_n s) (this_n s) (this_P_conditional s)"
    and "shape (tsne_n t) (tsne_n t) (tsne_Pcond t)"
  shows "shape (this_n s) (this_n s) (symmetrizeP s)
    \<and> (\<forall>i<this_n s. \<forall>j<this_n s.
          (i \<noteq> j \<longrightarrow> symmetrizeP s ! i ! j = max (joint (this_P_conditional s) (this_n s) i j) e12)
          \<and> symmetrizeP s ! i ! j = symmetrizeP s ! j ! i
          \<and> e12 \<le> symmetrizeP s ! i ! j
          \<and> 0 < symmetrizeP s ! i ! j)
    \<and> (\<forall>i<tsne_n t. \<forall>j<tsne_n t.
          (i \<noteq> j \<longrightarrow> tsne_P (TSNE_symmetrizeP t) ! i ! j = joint (tsne_Pcond t) (tsne_n t) i j)
          \<and> tsne_P (TSNE_symmetrizeP t) ! i ! i = 0
          \<and> tsne_P (TSNE_symmetrizeP t) ! i ! j = tsne_P (TSNE_symmetrizeP t) ! j ! i)"
proof -
  have pre: "(i \<noteq> j \<longrightarrow> symmetrizeP s ! i ! j = max (joint (this_P_conditional s) (this_n s) i j) e12)
          \<and> symmetrizeP s ! i ! j = symmetrizeP s ! j ! i
          \<and> e12 \<le> symmetrizeP s ! i ! j
          \<and> 0 < symmetrizeP s ! i ! j"
    if "i < this_n s" "j < this_n s" for i j
  proof -
    have ge: "e12 \<le> symmetrizeP s ! i ! j"
      unfolding symmetrizeP_nth [OF that] by (simp only: max.cobounded2 order_refl if_split simp_thms)
    have "(0::real) < e12" by simp
    then have "0 < symmetrizeP s ! i ! j" using ge by (rule less_le_trans)
    then show ?thesis
      using ge symmetrizeP_nth [OF that] symmetrizeP_nth [OF that(2,1)]
        joint_sym [of "this_P_conditional s" "this_n s" i j]
      by auto
  qed
  have cls: "(i \<noteq> j \<longrightarrow> tsne_P (TSNE_symmetrizeP t) ! i ! j = joint (tsne_Pcond t) (tsne_n t) i j)
          \<and> tsne_P (TSNE_symmetrizeP t) ! i ! i = 0
          \<and> tsne_P (TSNE_symmetrizeP t) ! i ! j = tsne_P (TSNE_symmetrizeP t) ! j ! i"
    if "i < tsne_n t" "j < tsne_n t" for i j
    using TSNE_symmetrizeP_nth [OF that] TSNE_symmetrizeP_nth [OF that(2,1)]
      TSNE_symmetrizeP_nth [OF that(1,1)] joint_sym [of "tsne_Pcond t" "tsne_n t" i j]
    by auto
  show ?thesis using symmetrizeP_shape pre cls by blast
qed

theorem C5_symmetrization_witness:
  "shape (this_n pre_two_points) (this_n pre_two_points) (this_P_conditional pre_two_points)
   \<and> shape (tsne_n tsne_two_points) (tsne_n tsne_two_points) (tsne_Pcond tsne_two_points)
   \<and> symmetrizeP pre_two_points ! 0 ! 1 = 1 / 2
   \<and> symmetrizeP pre_two_points ! 1 ! 0 = 1 / 2
   \<and> tsne_P (TSNE_symmetrizeP tsne_two_points) ! 0 ! 1 = 1 / 2
   \<and> tsne_P (TSNE_symmetrizeP tsne_two_points) ! 0 ! 0 = 0"
proof -
  have h1: "shape (this_n pre_two_points) (this_n pre_two_points) (this_P_conditional pre_two_points)"
    and h2: "shape (tsne_n tsne_two_points) (tsne_n tsne_two_points) (tsne_Pcond tsne_two_points)"
    by simp_all
  note c = C5_symmetrization [OF h1 h2]
  have n: "(0::nat) < this_n pre_two_points" "(1::nat) < this_n pre_two_points"
    "(0::nat) < tsne_n tsne_two_points" "(1::nat) < tsne_n tsne_two_points" "(0::nat) \<noteq> 1"
    by simp_all
  have a0: "symmetrizeP pre_two_points ! 0 ! 1 =
      max (joint (this_P_conditional pre_two_points) (this_n pre_two_points) 0 1) e12"
    and b: "symmetrizeP pre_two_points ! 0 ! 1 = symmetrizeP pre_two_points ! 1 ! 0"
    and c0: "tsne_P (TSNE_symmetrizeP tsne_two_points) ! 0 ! 1 =
      joint (tsne_Pcond tsne_two_points) (tsne_n tsne_two_points) 0 1"
    and c2: "tsne_P (TSNE_symmetrizeP tsne_two_points) ! 0 ! 0 = 0"
    using c n by blast+
  have j: "joint [[0, 1], [1, 0]] 2 0 1 = 1 / 2"
    by (simp add: joint_def)
  have a: "symmetrizeP pre_two_points ! 0 ! 1 = 1 / 2"
    using a0 j by simp
  have c1: "tsne_P (TSNE_symmetrizeP tsne_two_points) ! 0 ! 1 = 1 / 2"
    using c0 j by simp
  show ?thesis using h1 h2 a b c1 c2 by (simp del: pre_two_points_simps tsne_two_points_simps)
qed

text \<open>
  Claim C5 as it is written fails for the class \<^verbatim>\<open>TSNE\<close>: on two points its symmetrized
  matrix has the diagonal entry 0, which is not strictly positive.
\<close>

theorem C5_tsne_diagonal_zero:
  "shape (tsne_n tsne_two_points) (tsne_n tsne_two_points) (tsne_Pcond tsne_two_points)
   \<and> \<not> 0 < tsne_P (TSNE_symmetrizeP tsne_two_points) ! 0 ! 0"
proof -
  have "tsne_P (TSNE_symmetrizeP tsne_two_points) ! 0 ! 0 = 0"
    using TSNE_symmetrizeP_nth [of 0 tsne_two_points 0] by simp
  then show ?thesis by simp
qed

text \<open>
  Claim C9. After the symmetrization of \<^verbatim>\<open>PrecomputedTSNE\<close> every diagonal entry of the
  joint matrix is exactly \<open>1e-12\<close>, and \<^verbatim>\<open>klDivergence\<close> does not depend on the diagonal:
  it gives the same value on every matrix with the same entries off the diagonal.
\<close>

theorem C9_diagonal_floor:
  assumes "shape (this_n s) (this_n s) (this_P_conditional s)"
  shows "(\<forall>i<this_n s. symmetrizeP s ! i ! i = e12)
    \<and> (\<forall>P' Q. length P' = this_n s
          \<and> (\<forall>i<this_n s. \<forall>j<this_n s. i \<noteq> j \<longrightarrow> P' ! i ! j = symmetrizeP s ! i ! j)
          \<longrightarrow> klDivergence P' Q = klDivergence (symmetrizeP s) Q)"
proof -
  have len: "length (symmetrizeP s) = this_n s"
    using symmetrizeP_shape [of s] by (simp add: shape_nth)
  have "klDivergence P' Q = klDivergence (symmetrizeP s) Q"
    if "length P' = this_n s"
      and "\<forall>i<this_n s. \<forall>j<this_n s. i \<noteq> j \<longrightarrow> P' ! i ! j = symmetrizeP s ! i ! j" for P' Q
    using that len by (intro klDivergence_off_diagonal) simp_all
  then show ?thesis using symmetrizeP_nth by simp
qed

theorem C9_diagonal_floor_witness:
  "shape (this_n pre_two_points) (this_n pre_two_points) (this_P_conditional pre_two_points)
   \<and> symmetrizeP pre_two_points ! 0 ! 0 = e12
   \<and> symmetrizeP pre_two_points ! 1 ! 1 = e12
   \<and> klDivergence [[0, symmetrizeP pre_two_points ! 0 ! 1], [symmetrizeP pre_two_points ! 1 ! 0, 0]]
        [[0, 1 / 2], [1 / 2, 0]]
     = klDivergence (symmetrizeP pre_two_points) [[0, 1 / 2], [1 / 2, 0]]"
proof -
  have h: "shape (this_n pre_two_points) (this_n pre_two_points) (this_P_conditional pre_two_points)"
    by simp
  note c = C9_diagonal_floor [OF h]
  let ?P' = "[[0, symmetrizeP pre_two_points ! 0 ! 1], [symmetrizeP pre_two_points ! 1 ! 0, 0]]"
  have d: "symmetrizeP pre_two_points ! 0 ! 0 = e12" "symmetrizeP pre_two_points ! 1 ! 1 = e12"
    using c by simp_all
  have "\<forall>i<this_n pre_two_points. \<forall>j<this_n pre_two_points.
          i \<noteq> j \<longrightarrow> ?P' ! i ! j = symmetrizeP pre_two_points ! i ! j"
    by (auto simp: less_Suc_eq numeral_2_eq_2)
  moreover have "length ?P' = this_n pre_two_points" by simp
  ultimately have "klDivergence ?P' [[0, 1 / 2], [1 / 2, 0]]
      = klDivergence (symmetrizeP pre_two_points) [[0, 1 / 2], [1 / 2, 0]]"
    using c by blast
  then show ?thesis using h d by simp
qed

text \<open>
  Claim C7, as amended. In \<^verbatim>\<open>PrecomputedTSNE\<close>, with the copy \<^verbatim>\<open>P_original\<close> taken before
  the exaggeration, applying and then removing the exaggeration gives back exactly the
  matrix \<open>P\<close>, for every factor. In the class \<^verbatim>\<open>TSNE\<close>, where removal divides by the
  factor, it gives back \<open>P\<close> for every factor other than 0.
\<close>

theorem C7_exaggeration_round_trip:
  assumes "shape (this_n s) (this_n s) (this_P s)" and "this_P_original s = this_P s"
    and "shape (tsne_n t) (tsne_n t) (tsne_P t)" and "tsne_earlyExaggeration t \<noteq> 0"
  shows "this_P (removeEarlyExaggeration (applyEarlyExaggeration s)) = this_P s
    \<and> (\<exists>t'. TSNE_removeExaggeration (TSNE_applyExaggeration t) = Some t' \<and> tsne_P t' = tsne_P t)"
  using precomputed_round_trip [of s] tsne_round_trip [OF assms(3,4)] assms(1,2) by simp

theorem C7_exaggeration_round_trip_witness:
  "shape (this_n pre_two_points) (this_n pre_two_points) (this_P pre_two_points)
   \<and> this_P_original pre_two_points = this_P pre_two_points
   \<and> shape (tsne_n tsne_two_points) (tsne_n tsne_two_points) (tsne_P tsne_two_points)
   \<and> tsne_earlyExaggeration tsne_two_points \<noteq> 0
   \<and> this_P (removeEarlyExaggeration (applyEarlyExaggeration pre_two_points))
       = [[e12, 1 / 2], [1 / 2, e12]]
   \<and> map_option tsne_P (TSNE_removeExaggeration (TSNE_applyExaggeration tsne_two_points))
       = Some [[0, 1 / 2], [1 / 2, 0]]"
proof -
  have h1: "shape (this_n pre_two_points) (this_n pre_two_points) (this_P pre_two_points)"
    and h2: "this_P_original pre_two_points = this_P pre_two_points"
    and h3: "shape (tsne_n tsne_two_points) (tsne_n tsne_two_points) (tsne_P tsne_two_points)"
    and h4: "tsne_earlyExaggeration tsne_two_points \<noteq> 0"
    by simp_all
  note c = C7_exaggeration_round_trip [OF h1 h2 h3 h4]
  from c obtain t' where
    "TSNE_removeExaggeration (TSNE_applyExaggeration tsne_two_points) = Some t'"
    "tsne_P t' = tsne_P tsne_two_points"
    by blast
  then have "map_option tsne_P (TSNE_removeExaggeration (TSNE_applyExaggeration tsne_two_points))
       = Some [[0, 1 / 2], [1 / 2, 0]]"
    by simp
  then show ?thesis using h1 h2 h3 h4 c by simp
qed

text \<open>
  Claim C7 as it is written fails for the factor 0 in the class \<^verbatim>\<open>TSNE\<close>, whose
  constructor accepts it: the exaggeration makes every entry 0 and the removal divides 0
  by 0, so \<open>P\<close> is not given back.
\<close>

theorem C7_zero_factor_not_restored:
  "shape (tsne_n tsne_zero_factor) (tsne_n tsne_zero_factor) (tsne_P tsne_zero_factor)
   \<and> TSNE_removeExaggeration (TSNE_applyExaggeration tsne_zero_factor) = None"
  by (simp add: TSNE_removeExaggeration_def TSNE_applyExaggeration_def)

section \<open>The embedding update\<close>

lemma fold_add_sum:
  "fold (\<lambda>i acc. acc + h i) [0..<n] (a::real) = a + (\<Sum>i<n. h i)"
  by (induction n) simp_all

text \<open>A loop down one column of a matrix.\<close>

lemma column_loop:
  assumes "shape N M A" and "d < M" and "k \<le> N"
  shows "shape N M (fold (\<lambda>i A. set2 A i d (g i (A ! i ! d))) [0..<k] A)
    \<and> (\<forall>a b. fold (\<lambda>i A. set2 A i d (g i (A ! i ! d))) [0..<k] A ! a ! b =
          (if b = d \<and> a < k then g a (A ! a ! b) else A ! a ! b))"
  using assms(3)
proof (induction k)
  case 0
  show ?case using assms(1) by simp
next
  case (Suc k)
  let ?R = "fold (\<lambda>i A. set2 A i d (g i (A ! i ! d))) [0..<k] A"
  have sh: "shape N M ?R"
    and nth: "\<And>a b. ?R ! a ! b = (if b = d \<and> a < k then g a (A ! a ! b) else A ! a ! b)"
    using Suc by simp_all
  have l: "k < length ?R" "d < length (?R ! k)"
    using sh assms(2) Suc.prems by (simp_all add: shape_nth)
  have "set2 ?R k d (g k (?R ! k ! d)) ! a ! b =
      (if b = d \<and> a < Suc k then g a (A ! a ! b) else A ! a ! b)" for a b
    unfolding nth_set2 [OF l] nth by (auto simp: less_Suc_eq)
  then show ?case using sh by simp
qed

lemma center_step_nth:
  assumes "shape n m E" and "d < m"
  shows "shape n m (center_step n d E)"
    and "center_step n d E ! a ! b =
          (if b = d \<and> a < n then E ! a ! b - column_mean n E d else E ! a ! b)"
proof -
  have mean: "fold (\<lambda>i mean. mean + E ! i ! d) [0..<n] 0 / real n = column_mean n E d"
    by (simp add: fold_add_sum column_mean_def)
  note cl = column_loop [OF assms order_refl, where g = "\<lambda>i x. x - column_mean n E d"]
  show "shape n m (center_step n d E)"
    unfolding center_step_def Let_def mean using cl by simp
  show "center_step n d E ! a ! b =
          (if b = d \<and> a < n then E ! a ! b - column_mean n E d else E ! a ! b)"
    unfolding center_step_def Let_def mean using cl by simp
qed

lemma center_loop:
  assumes "shape n m E" and "k \<le> m"
  shows "shape n m (fold (center_step n) [0..<k] E)
    \<and> (\<forall>a b. a < n \<longrightarrow> fold (center_step n) [0..<k] E ! a ! b =
          (if b < k then E ! a ! b - column_mean n E b else E ! a ! b))"
  using assms(2)
proof (induction k)
  case 0
  show ?case using assms(1) by simp
next
  case (Suc k)
  let ?R = "fold (center_step n) [0..<k] E"
  have sh: "shape n m ?R"
    and nth: "\<And>a b. a < n \<Longrightarrow> ?R ! a ! b =
          (if b < k then E ! a ! b - column_mean n E b else E ! a ! b)"
    using Suc by simp_all
  have k: "k < m" using Suc.prems by simp
  have "column_mean n ?R k = column_mean n E k"
    unfolding column_mean_def by (simp add: nth)
  then have "center_step n k ?R ! a ! b =
      (if b < Suc k then E ! a ! b - column_mean n E b else E ! a ! b)" if "a < n" for a b
    unfolding center_step_nth(2) [OF sh k] using nth [OF that] that
    by (auto simp: less_Suc_eq)
  then show ?case using center_step_nth(1) [OF sh k] by simp
qed

lemma column_mean_centered:
  "(\<Sum>i<n. (E ! i ! d - column_mean n E d)) = 0"
proof (cases "n = 0")
  case True
  then show ?thesis by simp
next
  case False
  then show ?thesis
    by (simp add: sum_subtractf column_mean_def)
qed

text \<open>The loop of the momentum update, on the pair of velocity and embedding.\<close>

lemma momentum_loop_row:
  assumes "shape N M V" and "shape N M E" and "i < N" and "k \<le> M"
  shows "shape N M (fst (fold (momentum_step mom lr G i) [0..<k] (V, E)))
    \<and> shape N M (snd (fold (momentum_step mom lr G i) [0..<k] (V, E)))
    \<and> (\<forall>a b. fst (fold (momentum_step mom lr G i) [0..<k] (V, E)) ! a ! b =
          (if a = i \<and> b < k then mom * V ! a ! b - lr * G ! a ! b else V ! a ! b))
    \<and> (\<forall>a b. snd (fold (momentum_step mom lr G i) [0..<k] (V, E)) ! a ! b =
          (if a = i \<and> b < k then E ! a ! b + (mom * V ! a ! b - lr * G ! a ! b) else E ! a ! b))"
  using assms(4)
proof (induction k)
  case 0
  show ?case using assms(1,2) by simp
next
  case (Suc k)
  let ?R = "fold (momentum_step mom lr G i) [0..<k] (V, E)"
  let ?V = "fst ?R" and ?E = "snd ?R"
  have shV: "shape N M ?V" and shE: "shape N M ?E"
    and nthV: "\<And>a b. ?V ! a ! b =
          (if a = i \<and> b < k then mom * V ! a ! b - lr * G ! a ! b else V ! a ! b)"
    and nthE: "\<And>a b. ?E ! a ! b =
          (if a = i \<and> b < k then E ! a ! b + (mom * V ! a ! b - lr * G ! a ! b) else E ! a ! b)"
    using Suc by simp_all
  have lV: "i < length ?V" "k < length (?V ! i)" and lE: "i < length ?E" "k < length (?E ! i)"
    using shV shE assms(3) Suc.prems by (simp_all add: shape_nth)
  let ?V' = "set2 ?V i k (mom * ?V ! i ! k - lr * G ! i ! k)"
  let ?E' = "set2 ?E i k (?E ! i ! k + ?V' ! i ! k)"
  have step: "fold (momentum_step mom lr G i) [0..<Suc k] (V, E) = (?V', ?E')"
    by (simp add: momentum_step_def Let_def case_prod_beta)
  have "?V' ! a ! b =
      (if a = i \<and> b < Suc k then mom * V ! a ! b - lr * G ! a ! b else V ! a ! b)" for a b
    unfolding nth_set2 [OF lV] nthV by (auto simp: less_Suc_eq)
  moreover have "?E' ! a ! b =
      (if a = i \<and> b < Suc k then E ! a ! b + (mom * V ! a ! b - lr * G ! a ! b) else E ! a ! b)"
    for a b
    unfolding nth_set2 [OF lE] nth_set2 [OF lV] nthE nthV by (auto simp: less_Suc_eq)
  ultimately show ?case unfolding step using shV shE by simp
qed

lemma momentum_loop:
  assumes "shape N M V" and "shape N M E" and "n \<le> N" and "m \<le> M"
  shows "shape N M (fst (fold (\<lambda>i. fold (momentum_step mom lr G i) [0..<m]) [0..<n] (V, E)))
    \<and> shape N M (snd (fold (\<lambda>i. fold (momentum_step mom lr G i) [0..<m]) [0..<n] (V, E)))
    \<and> (\<forall>a b. fst (fold (\<lambda>i. fold (momentum_step mom lr G i) [0..<m]) [0..<n] (V, E)) ! a ! b =
          (if a < n \<and> b < m then mom * V ! a ! b - lr * G ! a ! b else V ! a ! b))
    \<and> (\<forall>a b. snd (fold (\<lambda>i. fold (momentum_step mom lr G i) [0..<m]) [0..<n] (V, E)) ! a ! b =
          (if a < n \<and> b < m then E ! a ! b + (mom * V ! a ! b - lr * G ! a ! b) else E ! a ! b))"
  using assms(3)
proof (induction n)
  case 0
  show ?case using assms(1,2) by simp
next
  case (Suc n)
  let ?R = "fold (\<lambda>i. fold (momentum_step mom lr G i) [0..<m]) [0..<n] (V, E)"
  let ?V = "fst ?R" and ?E = "snd ?R"
  have shV: "shape N M ?V" and shE: "shape N M ?E"
    and nthV: "\<And>a b. ?V ! a ! b =
          (if a < n \<and> b < m then mom * V ! a ! b - lr * G ! a ! b else V ! a ! b)"
    and nthE: "\<And>a b. ?E ! a ! b =
          (if a < n \<and> b < m then E ! a ! b + (mom * V ! a ! b - lr * G ! a ! b) else E ! a ! b)"
    using Suc by simp_all
  have n: "n < N" using Suc.prems by simp
  note row = momentum_loop_row [OF shV shE n assms(4), of mom lr G]
  have step: "fold (\<lambda>i. fold (momentum_step mom lr G i) [0..<m]) [0..<Suc n] (V, E) =
      fold (momentum_step mom lr G n) [0..<m] (?V, ?E)"
    by simp
  show ?case unfolding step using row nthV nthE by (auto simp: less_Suc_eq)
qed

lemma descent_step_eq:
  "descent_step t i = (\<lambda>d A. set2 A i d
     (tsne_Y t ! i ! d - tsne_learningRate t * tsne_gradient t ! i ! d
        + tsne_momentum t * (tsne_Y t ! i ! d - tsne_Yprev t ! i ! d)))"
  by (intro ext) (simp add: descent_step_def Let_def)

lemma TSNE_updateEmbedding_nth:
  assumes "i < tsne_n t" and "d < tsne_targetDim t"
  shows "tsne_Y (TSNE_updateEmbedding t) ! i ! d =
     tsne_Y t ! i ! d - tsne_learningRate t * tsne_gradient t ! i ! d
       + tsne_momentum t * (tsne_Y t ! i ! d - tsne_Yprev t ! i ! d)"
proof -
  note cl = cell_loop [OF shape_zeros [of "tsne_n t" "tsne_targetDim t"] order_refl order_refl,
      where g = "\<lambda>i d x. tsne_Y t ! i ! d - tsne_learningRate t * tsne_gradient t ! i ! d
        + tsne_momentum t * (tsne_Y t ! i ! d - tsne_Yprev t ! i ! d)"]
  show ?thesis
    unfolding TSNE_updateEmbedding_def Let_def descent_step_eq using cl assms by simp
qed

lemma TSNE_updateEmbedding_fields:
  "tsne_Yprev (TSNE_updateEmbedding t) = tsne_Y t"
  "tsne_momentum (TSNE_updateEmbedding t) = tsne_momentum t"
  "tsne_learningRate (TSNE_updateEmbedding t) = tsne_learningRate t"
  by (simp_all add: TSNE_updateEmbedding_def Let_def)

lemma PrecomputedTSNE_updateEmbedding_velocity:
  assumes "shape (this_n s) (this_targetDim s) (this_velocity s)"
    and "shape (this_n s) (this_targetDim s) (this_embedding s)"
    and "i < this_n s" and "d < this_targetDim s"
  shows "this_velocity (PrecomputedTSNE_updateEmbedding t s) ! i ! d =
    momentum_at t s * this_velocity s ! i ! d - this_learningRate s * this_gradient s ! i ! d"
proof -
  note ml = momentum_loop [OF assms(1,2) order_refl order_refl,
      of "momentum_at t s" "this_learningRate s" "this_gradient s"]
  show ?thesis
    unfolding PrecomputedTSNE_updateEmbedding_def Let_def momentum_at_def [symmetric]
    using ml assms(3,4) by simp
qed

lemma PrecomputedTSNE_updateEmbedding_embedding:
  assumes "shape (this_n s) (this_targetDim s) (this_velocity s)"
    and "shape (this_n s) (this_targetDim s) (this_embedding s)"
    and "i < this_n s" and "d < this_targetDim s"
  shows "this_embedding (PrecomputedTSNE_updateEmbedding t s) ! i ! d =
    (this_embedding s ! i ! d + this_velocity (PrecomputedTSNE_updateEmbedding t s) ! i ! d)
    - (\<Sum>k<this_n s. this_embedding s ! k ! d
          + this_velocity (PrecomputedTSNE_updateEmbedding t s) ! k ! d) / real (this_n s)"
    and "column_mean (this_n s) (this_embedding (PrecomputedTSNE_updateEmbedding t s)) d = 0"
    and "shape (this_n s) (this_targetDim s) (this_embedding (PrecomputedTSNE_updateEmbedding t s))"
    and "shape (this_n s) (this_targetDim s) (this_velocity (PrecomputedTSNE_updateEmbedding t s))"
proof -
  let ?n = "this_n s" and ?m = "this_targetDim s"
  let ?R = "fold (\<lambda>i. fold (momentum_step (momentum_at t s) (this_learningRate s) (this_gradient s) i)
              [0..<?m]) [0..<?n] (this_velocity s, this_embedding s)"
  note ml = momentum_loop [OF assms(1,2) order_refl order_refl,
      of "momentum_at t s" "this_learningRate s" "this_gradient s"]
  have shU: "shape ?n ?m (snd ?R)" using ml by simp
  have U: "snd ?R ! a ! b = this_embedding s ! a ! b + fst ?R ! a ! b" if "a < ?n" "b < ?m" for a b
    using ml that by simp
  note cl = center_loop [OF shU order_refl]
  have V': "this_velocity (PrecomputedTSNE_updateEmbedding t s) = fst ?R"
    and E': "this_embedding (PrecomputedTSNE_updateEmbedding t s) = fold (center_step ?n) [0..<?m] (snd ?R)"
    by (simp_all add: PrecomputedTSNE_updateEmbedding_def Let_def momentum_at_def)
  have E'nth: "this_embedding (PrecomputedTSNE_updateEmbedding t s) ! a ! d =
      snd ?R ! a ! d - column_mean ?n (snd ?R) d" if "a < ?n" for a
    unfolding E' using cl that assms(4) by simp
  have cm: "column_mean ?n (snd ?R) d =
      (\<Sum>k<?n. this_embedding s ! k ! d + fst ?R ! k ! d) / real ?n"
    unfolding column_mean_def using U assms(4) by simp
  show "this_embedding (PrecomputedTSNE_updateEmbedding t s) ! i ! d =
    (this_embedding s ! i ! d + this_velocity (PrecomputedTSNE_updateEmbedding t s) ! i ! d)
    - (\<Sum>k<this_n s. this_embedding s ! k ! d
          + this_velocity (PrecomputedTSNE_updateEmbedding t s) ! k ! d) / real (this_n s)"
    unfolding E'nth [OF assms(3)] cm V' using U [OF assms(3,4)] by simp
  have "(\<Sum>a<?n. this_embedding (PrecomputedTSNE_updateEmbedding t s) ! a ! d) =
      (\<Sum>a<?n. snd ?R ! a ! d - column_mean ?n (snd ?R) d)"
    by (rule sum.cong) (simp_all add: E'nth)
  also have "\<dots> = 0" by (rule column_mean_centered)
  finally show "column_mean ?n (this_embedding (PrecomputedTSNE_updateEmbedding t s)) d = 0"
    by (simp add: column_mean_def)
  show "shape ?n ?m (this_embedding (PrecomputedTSNE_updateEmbedding t s))"
    unfolding E' using cl by simp
  show "shape ?n ?m (this_velocity (PrecomputedTSNE_updateEmbedding t s))"
    unfolding V' using ml by simp
qed

lemma PrecomputedTSNE_updateEmbedding_fields:
  "this_momentum (PrecomputedTSNE_updateEmbedding t s) = this_momentum s"
  "this_finalMomentum (PrecomputedTSNE_updateEmbedding t s) = this_finalMomentum s"
  "this_momentumSwitchIter (PrecomputedTSNE_updateEmbedding t s) = this_momentumSwitchIter s"
  "this_learningRate (PrecomputedTSNE_updateEmbedding t s) = this_learningRate s"
  "this_n (PrecomputedTSNE_updateEmbedding t s) = this_n s"
  "this_targetDim (PrecomputedTSNE_updateEmbedding t s) = this_targetDim s"
  "this_gradient (PrecomputedTSNE_updateEmbedding t s) = this_gradient s"
  "this_P (PrecomputedTSNE_updateEmbedding t s) = this_P s"
  "this_P_original (PrecomputedTSNE_updateEmbedding t s) = this_P_original s"
  "this_Q (PrecomputedTSNE_updateEmbedding t s) = this_Q s"
  "this_costs (PrecomputedTSNE_updateEmbedding t s) = this_costs s"
  "this_snapshots (PrecomputedTSNE_updateEmbedding t s) = this_snapshots s"
  "this_stepIndex (PrecomputedTSNE_updateEmbedding t s) = this_stepIndex s"
  "this_labels (PrecomputedTSNE_updateEmbedding t s) = this_labels s"
  "this_inputData (PrecomputedTSNE_updateEmbedding t s) = this_inputData s"
  "this_maxIterations (PrecomputedTSNE_updateEmbedding t s) = this_maxIterations s"
  "this_earlyExaggerationIter (PrecomputedTSNE_updateEmbedding t s) = this_earlyExaggerationIter s"
  "this_iterationSnapshots (PrecomputedTSNE_updateEmbedding t s) = this_iterationSnapshots s"
  by (simp_all add: PrecomputedTSNE_updateEmbedding_def Let_def)

section \<open>Centering and the momentum schedule\<close>

lemma shape_two_one [simp]: "shape 2 (Suc 0) [[a], [b]]"
  by (simp add: shape_def)

lemma pre_one_dim_simps [simp]:
  "this_n pre_one_dim = 2"
  "this_targetDim pre_one_dim = 1"
  "this_embedding pre_one_dim = [[2], [0]]"
  "this_velocity pre_one_dim = [[1], [0]]"
  "this_gradient pre_one_dim = [[0], [0]]"
  "this_learningRate pre_one_dim = 200"
  "this_momentum pre_one_dim = 1 / 2"
  "this_finalMomentum pre_one_dim = 8 / 10"
  "this_momentumSwitchIter pre_one_dim = 250"
  by (simp_all add: pre_one_dim_def new_PrecomputedTSNE_def or_default_def no_options_def)

lemma tsne_first_step_simps [simp]:
  "tsne_n tsne_first_step = 2"
  "tsne_targetDim tsne_first_step = 1"
  "tsne_Y tsne_first_step = [[2], [0]]"
  "tsne_Yprev tsne_first_step = [[2], [0]]"
  "tsne_gradient tsne_first_step = [[1], [- 1]]"
  "tsne_learningRate tsne_first_step = 200"
  "tsne_momentum tsne_first_step = 8 / 10"
  "tsne_iteration tsne_first_step = 0"
  by (simp_all add: tsne_first_step_def new_TSNE_def nullish_def tsne_no_options_def)

lemma tsne_second_step_simps [simp]:
  "tsne_n tsne_second_step = 2"
  "tsne_targetDim tsne_second_step = 1"
  "tsne_Y tsne_second_step = [[2], [0]]"
  "tsne_Yprev tsne_second_step = [[1], [0]]"
  "tsne_gradient tsne_second_step = [[0], [0]]"
  "tsne_learningRate tsne_second_step = 200"
  "tsne_momentum tsne_second_step = 8 / 10"
  "tsne_iteration tsne_second_step = 1"
  by (simp_all add: tsne_second_step_def new_TSNE_def nullish_def tsne_no_options_def)

lemma sum_lessThan_two: "(\<Sum>i<2. f i) = f 0 + (f (Suc 0) :: real)"
  by (simp add: numeral_2_eq_2)

text \<open>
  Claim C2, as amended. After every embedding update of \<^verbatim>\<open>PrecomputedTSNE\<close> the mean of
  each dimension of the embedding over all points is 0: the update moves every point by
  its velocity and then subtracts from every coordinate the mean of its dimension. The
  update of the class \<^verbatim>\<open>TSNE\<close> subtracts no mean: each new coordinate is
  \<open>Y - learningRate * gradient + momentum * (Y - Yprev)\<close>.
\<close>

theorem C2_update_centres_embedding:
  assumes "shape (this_n s) (this_targetDim s) (this_velocity s)"
    and "shape (this_n s) (this_targetDim s) (this_embedding s)"
    and "shape (this_n s) (this_targetDim s) (this_gradient s)"
    and "shape (tsne_n t) (tsne_targetDim t) (tsne_Y t)"
    and "shape (tsne_n t) (tsne_targetDim t) (tsne_Yprev t)"
    and "shape (tsne_n t) (tsne_targetDim t) (tsne_gradient t)"
  shows "(\<forall>d<this_targetDim s.
            column_mean (this_n s) (this_embedding (PrecomputedTSNE_updateEmbedding iter s)) d = 0)
    \<and> (\<forall>i<this_n s. \<forall>d<this_targetDim s.
            this_embedding (PrecomputedTSNE_updateEmbedding iter s) ! i ! d =
              (this_embedding s ! i ! d + this_velocity (PrecomputedTSNE_updateEmbedding iter s) ! i ! d)
              - (\<Sum>k<this_n s. this_embedding s ! k ! d
                    + this_velocity (PrecomputedTSNE_updateEmbedding iter s) ! k ! d) / real (this_n s))
    \<and> (\<forall>i<tsne_n t. \<forall>d<tsne_targetDim t.
            tsne_Y (TSNE_updateEmbedding t) ! i ! d =
              tsne_Y t ! i ! d - tsne_learningRate t * tsne_gradient t ! i ! d
                + tsne_momentum t * (tsne_Y t ! i ! d - tsne_Yprev t ! i ! d))"
proof -
  have mean0: "column_mean (this_n s) (this_embedding (PrecomputedTSNE_updateEmbedding iter s)) d = 0"
    if "d < this_targetDim s" for d
  proof (cases "this_n s = 0")
    case True
    then show ?thesis by (simp add: column_mean_def)
  next
    case False
    then have "0 < this_n s" by simp
    then show ?thesis
      using PrecomputedTSNE_updateEmbedding_embedding(2) [OF assms(1,2) _ that] by simp
  qed
  show ?thesis
    using mean0 PrecomputedTSNE_updateEmbedding_embedding(1) [OF assms(1,2)]
      TSNE_updateEmbedding_nth [of _ t]
    by simp
qed

theorem C2_update_centres_embedding_witness:
  "shape (this_n pre_one_dim) (this_targetDim pre_one_dim) (this_velocity pre_one_dim)
   \<and> shape (this_n pre_one_dim) (this_targetDim pre_one_dim) (this_embedding pre_one_dim)
   \<and> shape (this_n pre_one_dim) (this_targetDim pre_one_dim) (this_gradient pre_one_dim)
   \<and> shape (tsne_n tsne_first_step) (tsne_targetDim tsne_first_step) (tsne_Y tsne_first_step)
   \<and> shape (tsne_n tsne_first_step) (tsne_targetDim tsne_first_step) (tsne_Yprev tsne_first_step)
   \<and> shape (tsne_n tsne_first_step) (tsne_targetDim tsne_first_step) (tsne_gradient tsne_first_step)
   \<and> column_mean (this_n pre_one_dim)
        (this_embedding (PrecomputedTSNE_updateEmbedding 0 pre_one_dim)) 0 = 0
   \<and> tsne_Y (TSNE_updateEmbedding tsne_first_step) ! 0 ! 0 = - 198"
proof -
  have h: "shape (this_n pre_one_dim) (this_targetDim pre_one_dim) (this_velocity pre_one_dim)"
    "shape (this_n pre_one_dim) (this_targetDim pre_one_dim) (this_embedding pre_one_dim)"
    "shape (this_n pre_one_dim) (this_targetDim pre_one_dim) (this_gradient pre_one_dim)"
    "shape (tsne_n tsne_first_step) (tsne_targetDim tsne_first_step) (tsne_Y tsne_first_step)"
    "shape (tsne_n tsne_first_step) (tsne_targetDim tsne_first_step) (tsne_Yprev tsne_first_step)"
    "shape (tsne_n tsne_first_step) (tsne_targetDim tsne_first_step) (tsne_gradient tsne_first_step)"
    by simp_all
  note c = C2_update_centres_embedding [OF h, of 0]
  have n: "(0::nat) < this_targetDim pre_one_dim" "(0::nat) < tsne_n tsne_first_step"
    "(0::nat) < tsne_targetDim tsne_first_step"
    by simp_all
  have a: "column_mean (this_n pre_one_dim)
        (this_embedding (PrecomputedTSNE_updateEmbedding 0 pre_one_dim)) 0 = 0"
    and b0: "tsne_Y (TSNE_updateEmbedding tsne_first_step) ! 0 ! 0 =
              tsne_Y tsne_first_step ! 0 ! 0
                - tsne_learningRate tsne_first_step * tsne_gradient tsne_first_step ! 0 ! 0
                + tsne_momentum tsne_first_step
                    * (tsne_Y tsne_first_step ! 0 ! 0 - tsne_Yprev tsne_first_step ! 0 ! 0)"
    using c n by blast+
  have b: "tsne_Y (TSNE_updateEmbedding tsne_first_step) ! 0 ! 0 = - 198"
    unfolding b0 by simp
  show ?thesis using h a b by (simp del: pre_one_dim_simps tsne_first_step_simps)
qed

text \<open>
  Claim C2 as it is written fails for the class \<^verbatim>\<open>TSNE\<close>: from the embedding
  \<open>[[2], [0]]\<close> with gradient \<open>[[1], [-1]]\<close> its update gives \<open>[[-198], [200]]\<close>, of mean 1.
\<close>

theorem C2_tsne_mean_not_zero:
  "shape (tsne_n tsne_first_step) (tsne_targetDim tsne_first_step) (tsne_Y tsne_first_step)
   \<and> column_mean (tsne_n tsne_first_step) (tsne_Y (TSNE_updateEmbedding tsne_first_step)) 0 \<noteq> 0"
proof -
  have "tsne_Y (TSNE_updateEmbedding tsne_first_step) ! 0 ! 0 = - 198"
    using TSNE_updateEmbedding_nth [of 0 tsne_first_step 0] by simp
  moreover have "tsne_Y (TSNE_updateEmbedding tsne_first_step) ! 1 ! 0 = 200"
    using TSNE_updateEmbedding_nth [of 1 tsne_first_step 0] by simp
  ultimately have "column_mean (tsne_n tsne_first_step)
      (tsne_Y (TSNE_updateEmbedding tsne_first_step)) 0 = 1"
    by (simp add: column_mean_def sum_lessThan_two)
  then show ?thesis by simp
qed

text \<open>
  Claim C4, as amended. In every update of \<^verbatim>\<open>PrecomputedTSNE\<close>, at iteration \<open>iter\<close>,
  the new velocity is \<open>mom * velocity - learningRate * gradient\<close> and the new position is
  the old position plus the new velocity, less the mean of its dimension; \<open>mom\<close> is the
  field \<^verbatim>\<open>momentum\<close> before the iteration \<^verbatim>\<open>momentumSwitchIter\<close> and \<^verbatim>\<open>finalMomentum\<close>
  from it on, which the constructor sets to 0.5, 0.8 and 250 and the update leaves
  unchanged. The update of the class \<^verbatim>\<open>TSNE\<close> has no schedule: its new position is the
  old position plus \<open>momentum * (Y - Yprev) - learningRate * gradient\<close> with the one
  configured momentum, 0.8 by default, and \<^verbatim>\<open>Yprev\<close> becomes the old position.
\<close>

theorem C4_momentum_update:
  assumes "shape (this_n s) (this_targetDim s) (this_velocity s)"
    and "shape (this_n s) (this_targetDim s) (this_embedding s)"
    and "shape (this_n s) (this_targetDim s) (this_gradient s)"
    and "shape (tsne_n t) (tsne_targetDim t) (tsne_Y t)"
    and "shape (tsne_n t) (tsne_targetDim t) (tsne_Yprev t)"
    and "shape (tsne_n t) (tsne_targetDim t) (tsne_gradient t)"
  shows "(\<forall>i<this_n s. \<forall>d<this_targetDim s.
            this_velocity (PrecomputedTSNE_updateEmbedding iter s) ! i ! d =
              momentum_at iter s * this_velocity s ! i ! d
                - this_learningRate s * this_gradient s ! i ! d
          \<and> this_embedding (PrecomputedTSNE_updateEmbedding iter s) ! i ! d =
              (this_embedding s ! i ! d + this_velocity (PrecomputedTSNE_updateEmbedding iter s) ! i ! d)
              - (\<Sum>k<this_n s. this_embedding s ! k ! d
                    + this_velocity (PrecomputedTSNE_updateEmbedding iter s) ! k ! d) / real (this_n s))
    \<and> momentum_at iter (new_PrecomputedTSNE opts) = scheduled_momentum iter
    \<and> momentum_at iter' (PrecomputedTSNE_updateEmbedding iter s) = momentum_at iter' s
    \<and> (\<forall>i<tsne_n t. \<forall>d<tsne_targetDim t.
            tsne_Y (TSNE_updateEmbedding t) ! i ! d =
              tsne_Y t ! i ! d
                + (tsne_momentum t * (tsne_Y t ! i ! d - tsne_Yprev t ! i ! d)
                   - tsne_learningRate t * tsne_gradient t ! i ! d))
    \<and> tsne_Yprev (TSNE_updateEmbedding t) = tsne_Y t
    \<and> tsne_momentum (TSNE_updateEmbedding t) = tsne_momentum t
    \<and> tsne_momentum (new_TSNE topts) = nullish (topt_momentum topts) (8 / 10)"
proof -
  have a: "momentum_at iter (new_PrecomputedTSNE opts) = scheduled_momentum iter"
    by (simp add: momentum_at_def scheduled_momentum_def new_PrecomputedTSNE_def)
  have b: "momentum_at iter' (PrecomputedTSNE_updateEmbedding iter s) = momentum_at iter' s"
    by (simp add: momentum_at_def PrecomputedTSNE_updateEmbedding_fields)
  have c: "tsne_momentum (new_TSNE topts) = nullish (topt_momentum topts) (8 / 10)"
    by (simp add: new_TSNE_def)
  have d: "tsne_Y (TSNE_updateEmbedding t) ! i ! d =
              tsne_Y t ! i ! d
                + (tsne_momentum t * (tsne_Y t ! i ! d - tsne_Yprev t ! i ! d)
                   - tsne_learningRate t * tsne_gradient t ! i ! d)"
    if "i < tsne_n t" "d < tsne_targetDim t" for i d
    unfolding TSNE_updateEmbedding_nth [OF that] by simp
  show ?thesis
    using a b c d PrecomputedTSNE_updateEmbedding_velocity [OF assms(1,2)]
      PrecomputedTSNE_updateEmbedding_embedding(1) [OF assms(1,2)]
      TSNE_updateEmbedding_fields(1,2) [of t]
    by simp
qed

theorem C4_momentum_update_witness:
  "shape (this_n pre_one_dim) (this_targetDim pre_one_dim) (this_velocity pre_one_dim)
   \<and> shape (this_n pre_one_dim) (this_targetDim pre_one_dim) (this_embedding pre_one_dim)
   \<and> shape (this_n pre_one_dim) (this_targetDim pre_one_dim) (this_gradient pre_one_dim)
   \<and> shape (tsne_n tsne_second_step) (tsne_targetDim tsne_second_step) (tsne_Y tsne_second_step)
   \<and> shape (tsne_n tsne_second_step) (tsne_targetDim tsne_second_step) (tsne_Yprev tsne_second_step)
   \<and> shape (tsne_n tsne_second_step) (tsne_targetDim tsne_second_step) (tsne_gradient tsne_second_step)
   \<and> this_velocity (PrecomputedTSNE_updateEmbedding 0 pre_one_dim) ! 0 ! 0 = 1 / 2
   \<and> this_velocity (PrecomputedTSNE_updateEmbedding 250 pre_one_dim) ! 0 ! 0 = 8 / 10
   \<and> this_embedding (PrecomputedTSNE_updateEmbedding 0 pre_one_dim) ! 0 ! 0 = 5 / 4
   \<and> tsne_Y (TSNE_updateEmbedding tsne_second_step) ! 0 ! 0 = 14 / 5"
proof -
  have h: "shape (this_n pre_one_dim) (this_targetDim pre_one_dim) (this_velocity pre_one_dim)"
    "shape (this_n pre_one_dim) (this_targetDim pre_one_dim) (this_embedding pre_one_dim)"
    "shape (this_n pre_one_dim) (this_targetDim pre_one_dim) (this_gradient pre_one_dim)"
    "shape (tsne_n tsne_second_step) (tsne_targetDim tsne_second_step) (tsne_Y tsne_second_step)"
    "shape (tsne_n tsne_second_step) (tsne_targetDim tsne_second_step) (tsne_Yprev tsne_second_step)"
    "shape (tsne_n tsne_second_step) (tsne_targetDim tsne_second_step) (tsne_gradient tsne_second_step)"
    by simp_all
  note c0 = C4_momentum_update [OF h, of 0]
  note c250 = C4_momentum_update [OF h, of 250]
  have n: "(0::nat) < this_n pre_one_dim" "(1::nat) < this_n pre_one_dim"
    "(0::nat) < this_targetDim pre_one_dim"
    "(0::nat) < tsne_n tsne_second_step" "(0::nat) < tsne_targetDim tsne_second_step"
    by simp_all
  have v0: "this_velocity (PrecomputedTSNE_updateEmbedding 0 pre_one_dim) ! 0 ! 0 =
              momentum_at 0 pre_one_dim * this_velocity pre_one_dim ! 0 ! 0
                - this_learningRate pre_one_dim * this_gradient pre_one_dim ! 0 ! 0"
    and v1: "this_velocity (PrecomputedTSNE_updateEmbedding 0 pre_one_dim) ! 1 ! 0 =
              momentum_at 0 pre_one_dim * this_velocity pre_one_dim ! 1 ! 0
                - this_learningRate pre_one_dim * this_gradient pre_one_dim ! 1 ! 0"
    and e0: "this_embedding (PrecomputedTSNE_updateEmbedding 0 pre_one_dim) ! 0 ! 0 =
              (this_embedding pre_one_dim ! 0 ! 0
                 + this_velocity (PrecomputedTSNE_updateEmbedding 0 pre_one_dim) ! 0 ! 0)
              - (\<Sum>k<this_n pre_one_dim. this_embedding pre_one_dim ! k ! 0
                    + this_velocity (PrecomputedTSNE_updateEmbedding 0 pre_one_dim) ! k ! 0)
                / real (this_n pre_one_dim)"
    and y0: "tsne_Y (TSNE_updateEmbedding tsne_second_step) ! 0 ! 0 =
              tsne_Y tsne_second_step ! 0 ! 0
                + (tsne_momentum tsne_second_step
                     * (tsne_Y tsne_second_step ! 0 ! 0 - tsne_Yprev tsne_second_step ! 0 ! 0)
                   - tsne_learningRate tsne_second_step * tsne_gradient tsne_second_step ! 0 ! 0)"
    using c0 n by blast+
  have v250: "this_velocity (PrecomputedTSNE_updateEmbedding 250 pre_one_dim) ! 0 ! 0 =
              momentum_at 250 pre_one_dim * this_velocity pre_one_dim ! 0 ! 0
                - this_learningRate pre_one_dim * this_gradient pre_one_dim ! 0 ! 0"
    using c250 n by blast
  have v0': "this_velocity (PrecomputedTSNE_updateEmbedding 0 pre_one_dim) ! 0 ! 0 = 1 / 2"
    unfolding v0 by (simp add: momentum_at_def)
  have v1': "this_velocity (PrecomputedTSNE_updateEmbedding 0 pre_one_dim) ! Suc 0 ! 0 = 0"
    using v1 by (simp add: momentum_at_def)
  have v250': "this_velocity (PrecomputedTSNE_updateEmbedding 250 pre_one_dim) ! 0 ! 0 = 8 / 10"
    unfolding v250 by (simp add: momentum_at_def)
  have e0': "this_embedding (PrecomputedTSNE_updateEmbedding 0 pre_one_dim) ! 0 ! 0 = 5 / 4"
    unfolding e0 by (simp add: sum_lessThan_two v0' v1')
  have y0': "tsne_Y (TSNE_updateEmbedding tsne_second_step) ! 0 ! 0 = 14 / 5"
    unfolding y0 by simp
  show ?thesis using h v0' v250' e0' y0'
    by (simp del: pre_one_dim_simps tsne_second_step_simps)
qed

text \<open>
  Claim C4 as it is written fails for the class \<^verbatim>\<open>TSNE\<close>: at iteration 1, before the
  switch iteration 250, its update uses the momentum 0.8, not 0.5. From the position 2
  with previous position 1 and gradient 0 it moves to 2.8, where the schedule gives 2.5.
\<close>

theorem C4_tsne_no_schedule:
  "shape (tsne_n tsne_second_step) (tsne_targetDim tsne_second_step) (tsne_Y tsne_second_step)
   \<and> tsne_Y (TSNE_updateEmbedding tsne_second_step) ! 0 ! 0 \<noteq>
       tsne_Y tsne_second_step ! 0 ! 0
         + (scheduled_momentum (tsne_iteration tsne_second_step)
              * (tsne_Y tsne_second_step ! 0 ! 0 - tsne_Yprev tsne_second_step ! 0 ! 0)
            - tsne_learningRate tsne_second_step * tsne_gradient tsne_second_step ! 0 ! 0)"
proof -
  have "tsne_Y (TSNE_updateEmbedding tsne_second_step) ! 0 ! 0 = 14 / 5"
    using TSNE_updateEmbedding_nth [of 0 tsne_second_step 0] by simp
  then show ?thesis by (simp add: scheduled_momentum_def)
qed

section \<open>The search for sigma\<close>

lemma guess_from_0 [simp]: "guess_from H target (lo, hi, s) 0 = s"
  by (simp add: guess_from_def)

lemma guess_from_Suc: "guess_from H target x (Suc k) = guess_from H target (next_bracket H target x) k"
  by (simp add: guess_from_def funpow_swap1)

lemma positive_next: "positive_bracket x \<Longrightarrow> positive_bracket (next_bracket H target x)"
  by (cases x) (auto simp: positive_bracket_def next_bracket_def)

lemma positive_funpow: "positive_bracket x \<Longrightarrow> positive_bracket ((next_bracket H target ^^ k) x)"
  by (induction k) (simp_all add: positive_next)

lemma guess_from_positive: "positive_bracket x \<Longrightarrow> 0 < guess_from H target x k"
  using positive_funpow [where x = x and H = H and target = target and k = k]
  by (cases "(next_bracket H target ^^ k) x") (simp add: guess_from_def positive_bracket_def)

lemma upt_min_Suc:
  assumes "iter < maxIter"
  shows "map f [0..<min (Suc (Suc m)) (maxIter - iter)] =
         f 0 # map (\<lambda>j. f (Suc j)) [0..<min (Suc m) (maxIter - Suc iter)]"
proof -
  have "min (Suc (Suc m)) (maxIter - iter) = Suc (min (Suc m) (maxIter - Suc iter))"
    using assms by arith
  then show ?thesis
    by (simp add: upt_rec [of 0] map_Suc_upt [symmetric] del: upt_Suc)
qed

lemma findSigma_loop_trace:
  assumes "iter \<le> maxIter"
  shows "\<exists>m. iter + m \<le> maxIter
    \<and> r_sigma (findSigma_loop ds i target rh maxIter tol iter lo hi s hist)
        = guess_from (row_entropy ds i) target (lo, hi, s) m
    \<and> (\<forall>j<m. \<not> converged (row_entropy ds i) target tol (guess_from (row_entropy ds i) target (lo, hi, s) j))
    \<and> (iter + m < maxIter \<longrightarrow>
          converged (row_entropy ds i) target tol (guess_from (row_entropy ds i) target (lo, hi, s) m))
    \<and> r_history (findSigma_loop ds i target rh maxIter tol iter lo hi s hist)
        = (if rh then hist @ map (\<lambda>j. trace_entry ds i (iter + j)
                                      (guess_from (row_entropy ds i) target (lo, hi, s) j))
                            [0..<min (Suc m) (maxIter - iter)]
           else hist)"
  using assms
proof (induction "maxIter - iter" arbitrary: iter lo hi s hist)
  case 0
  then have eq: "iter = maxIter" by simp
  show ?case
    by (rule exI [of _ 0], subst (1 2) findSigma_loop.simps) (simp add: eq Let_def)
next
  case (Suc d)
  then have lt: "iter < maxIter" by simp
  let ?H = "row_entropy ds i"
  show ?case
  proof (cases "converged ?H target tol s")
    case True
    show ?thesis
      by (rule exI [of _ 0], subst (1 2) findSigma_loop.simps)
        (use True lt in \<open>simp add: Let_def converged_def row_entropy_def trace_entry_def\<close>)
  next
    case False
    let ?x = "next_bracket ?H target (lo, hi, s)"
    let ?hist = "if rh then hist @ [trace_entry ds i iter s] else hist"
    have unfold0: "findSigma_loop ds i target rh maxIter tol iter lo hi s hist =
        (case ?x of (lo', hi', s') \<Rightarrow>
           findSigma_loop ds i target rh maxIter tol (Suc iter) lo' hi' s' ?hist)"
      by (subst findSigma_loop.simps)
        (use False lt in \<open>simp add: Let_def converged_def row_entropy_def trace_entry_def
            next_bracket_def\<close>)
    obtain lo' hi' s' where x: "?x = (lo', hi', s')" by (cases ?x)
    have unfold: "findSigma_loop ds i target rh maxIter tol iter lo hi s hist =
        findSigma_loop ds i target rh maxIter tol (Suc iter) lo' hi' s' ?hist"
      unfolding unfold0 x by simp
    have d: "d = maxIter - Suc iter" and le: "Suc iter \<le> maxIter"
      using Suc.hyps(2) lt by simp_all
    from Suc.hyps(1) [OF d le, of lo' hi' s' ?hist]
    obtain m where m: "Suc iter + m \<le> maxIter"
      and sig: "r_sigma (findSigma_loop ds i target rh maxIter tol (Suc iter) lo' hi' s' ?hist)
                 = guess_from ?H target (lo', hi', s') m"
      and nc: "\<forall>j<m. \<not> converged ?H target tol (guess_from ?H target (lo', hi', s') j)"
      and cv: "Suc iter + m < maxIter \<longrightarrow> converged ?H target tol (guess_from ?H target (lo', hi', s') m)"
      and hs: "r_history (findSigma_loop ds i target rh maxIter tol (Suc iter) lo' hi' s' ?hist)
        = (if rh then ?hist @ map (\<lambda>j. trace_entry ds i (Suc iter + j)
                                      (guess_from ?H target (lo', hi', s') j))
                            [0..<min (Suc m) (maxIter - Suc iter)]
           else ?hist)"
      by blast
    have g: "guess_from ?H target (lo, hi, s) (Suc j) = guess_from ?H target (lo', hi', s') j" for j
      by (simp add: guess_from_Suc x)
    have nc': "\<forall>j<Suc m. \<not> converged ?H target tol (guess_from ?H target (lo, hi, s) j)"
    proof (intro allI impI)
      fix j assume "j < Suc m"
      then show "\<not> converged ?H target tol (guess_from ?H target (lo, hi, s) j)"
        using False nc g by (cases j) simp_all
    qed
    have hs': "r_history (findSigma_loop ds i target rh maxIter tol iter lo hi s hist)
        = (if rh then hist @ map (\<lambda>j. trace_entry ds i (iter + j)
                                      (guess_from ?H target (lo, hi, s) j))
                            [0..<min (Suc (Suc m)) (maxIter - iter)]
           else hist)"
      unfolding unfold hs upt_min_Suc [OF lt] by (simp add: g)
    show ?thesis
      by (rule exI [of _ "Suc m"]) (use m sig nc' cv hs' unfold g in simp)
  qed
qed

lemma findSigma_loop_result:
  "r_P (findSigma_loop ds i target rh maxIter tol iter lo hi s hist)
     = computeConditionalProbabilities ds
         (r_sigma (findSigma_loop ds i target rh maxIter tol iter lo hi s hist)) i
   \<and> r_entropy (findSigma_loop ds i target rh maxIter tol iter lo hi s hist)
     = row_entropy ds i (r_sigma (findSigma_loop ds i target rh maxIter tol iter lo hi s hist))
   \<and> r_perplexity (findSigma_loop ds i target rh maxIter tol iter lo hi s hist)
     = 2 powr r_entropy (findSigma_loop ds i target rh maxIter tol iter lo hi s hist)"
proof (induction ds i target rh maxIter tol iter lo hi s hist rule: findSigma_loop.induct)
  case (1 distances i targetEntropy returnHistory maxIter tol iter sigmaMin sigmaMax sigma history)
  show ?case
    by (subst (1 2 3 4 5 6) findSigma_loop.simps)
      (use 1 in \<open>auto simp: Let_def row_entropy_def entropyToPerplexity_def\<close>)
qed

lemma log2_half: "log 2 (1 / 2) = - 1"
  by (simp add: log_divide)

lemma entropy_three_zero: "row_entropy [0, 0, 0] 0 1 = 1"
  by (simp add: row_entropy_def conditional_row_three_zero shannonEntropy_def upt_rec log2_half)

text \<open>
  Claim C3. For every distance matrix, point index \<open>i\<close> of a row and target perplexity
  \<open>T > 1\<close>, \<^verbatim>\<open>findSigma\<close> with its defaults returns without an exception. Its
  \<open>sigma\<close> is the guess number \<open>k\<close> of the search that starts from the bracket
  \<open>(1e-10, 1e10)\<close> with the guess 1, where \<open>k\<close> is the first iteration whose entropy is
  within \<open>1e-5\<close> of \<open>log2 T\<close>, or 50 when none of the iterations 0 to 49 is: at most 50
  iterations are made, and the guess after the last one is returned as it is. The guess
  is positive, and the returned row, entropy and perplexity are those of the returned
  \<open>sigma\<close>; the history, when asked for, has one entry for each iteration made.
\<close>

theorem C3_findSigma_bisection:
  assumes "1 < T" and "i < length D"
  shows "\<exists>r k. findSigma D i T rh default_maxIter default_tol = Inr r
    \<and> k \<le> 50
    \<and> r_sigma r = guess (row_entropy (D ! i) i) (log 2 T) k
    \<and> (\<forall>j<k. \<not> converged (row_entropy (D ! i) i) (log 2 T) default_tol
                   (guess (row_entropy (D ! i) i) (log 2 T) j))
    \<and> (k < 50 \<longrightarrow> converged (row_entropy (D ! i) i) (log 2 T) default_tol
                      (guess (row_entropy (D ! i) i) (log 2 T) k))
    \<and> guess (row_entropy (D ! i) i) (log 2 T) 0 = 1
    \<and> 0 < r_sigma r
    \<and> r_P r = computeConditionalProbabilities (D ! i) (r_sigma r) i
    \<and> r_entropy r = row_entropy (D ! i) i (r_sigma r)
    \<and> r_perplexity r = 2 powr r_entropy r
    \<and> r_history r =
        (if rh then map (\<lambda>j. trace_entry (D ! i) i j (guess (row_entropy (D ! i) i) (log 2 T) j))
                      [0..<min (Suc k) 50]
         else [])"
proof -
  let ?H = "row_entropy (D ! i) i"
  let ?x = "(1 / 10 ^ 10, 10 ^ 10, 1) :: real \<times> real \<times> real"
  let ?r = "findSigma_loop (D ! i) i (log 2 T) rh 50 default_tol 0 (1 / 10 ^ 10) (10 ^ 10) 1 []"
  have r: "findSigma D i T rh default_maxIter default_tol = Inr ?r"
    using assms(2) by (simp add: findSigma_def)
  from findSigma_loop_trace [of 0 50 "D ! i" i "log 2 T" rh default_tol "1 / 10 ^ 10" "10 ^ 10" 1 "[]"]
  obtain m where m: "m \<le> 50"
    and sig: "r_sigma ?r = guess_from ?H (log 2 T) ?x m"
    and nc: "\<forall>j<m. \<not> converged ?H (log 2 T) default_tol (guess_from ?H (log 2 T) ?x j)"
    and cv: "m < 50 \<longrightarrow> converged ?H (log 2 T) default_tol (guess_from ?H (log 2 T) ?x m)"
    and hs: "r_history ?r =
        (if rh then map (\<lambda>j. trace_entry (D ! i) i j (guess_from ?H (log 2 T) ?x j))
                      [0..<min (Suc m) 50]
         else [])"
    by auto
  have pos: "0 < r_sigma ?r"
    unfolding sig by (rule guess_from_positive) (simp add: positive_bracket_def)
  note res = findSigma_loop_result [of "D ! i" i "log 2 T" rh 50 default_tol 0 "1 / 10 ^ 10" "10 ^ 10" 1 "[]"]
  show ?thesis
    apply (rule exI [of _ ?r])
    apply (rule exI [of _ m])
    unfolding guess_def
    using r m sig nc cv hs pos res
    apply simp
    done
qed

theorem C3_findSigma_bisection_witness:
  "(1::real) < 2 \<and> 0 < length three_coincident
   \<and> map_sum id r_sigma (findSigma three_coincident 0 2 True default_maxIter default_tol) = Inr 1
   \<and> map_sum id r_P (findSigma three_coincident 0 2 True default_maxIter default_tol)
       = Inr [0, 1 / 2, 1 / 2]
   \<and> map_sum id r_entropy (findSigma three_coincident 0 2 True default_maxIter default_tol) = Inr 1
   \<and> map_sum id r_perplexity (findSigma three_coincident 0 2 True default_maxIter default_tol) = Inr 2
   \<and> map_sum id (map h_sigma \<circ> r_history)
       (findSigma three_coincident 0 2 True default_maxIter default_tol) = Inr [1]"
proof -
  have h: "(1::real) < 2" "0 < length three_coincident"
    by (simp_all add: three_coincident_def)
  have row: "three_coincident ! 0 = [0, 0, 0]"
    by (simp add: three_coincident_def)
  let ?H = "row_entropy [0, 0, 0] 0"
  from C3_findSigma_bisection [OF h, of True]
  obtain r k where r: "findSigma three_coincident 0 2 True default_maxIter default_tol = Inr r"
    and sig: "r_sigma r = guess ?H (log 2 2) k"
    and nc: "\<forall>j<k. \<not> converged ?H (log 2 2) default_tol (guess ?H (log 2 2) j)"
    and g0: "guess ?H (log 2 2) 0 = 1"
    and P: "r_P r = computeConditionalProbabilities [0, 0, 0] (r_sigma r) 0"
    and e: "r_entropy r = ?H (r_sigma r)"
    and p: "r_perplexity r = 2 powr r_entropy r"
    and hs: "r_history r = map (\<lambda>j. trace_entry [0, 0, 0] 0 j (guess ?H (log 2 2) j)) [0..<min (Suc k) 50]"
    unfolding row by auto
  have "converged ?H (log 2 2) default_tol (guess ?H (log 2 2) 0)"
    unfolding g0 by (simp add: converged_def entropy_three_zero)
  then have k: "k = 0" using nc by (cases k) auto
  have sig1: "r_sigma r = 1" using sig g0 k by simp
  have "map h_sigma (r_history r) = [1]"
    unfolding hs k using g0 by (simp add: trace_entry_def)
  then show ?thesis
    using h r sig1 P e p by (simp add: conditional_row_three_zero entropy_three_zero)
qed

section \<open>The conditional probabilities of the engine\<close>

lemma conditional_kernel_loop:
  assumes "shape n n P" and "i < n" and "m \<le> n"
  shows "shape n n (fst (fold (conditional_kernel_step D t i) [0..<m] (P, 0)))
    \<and> (\<forall>a b. fst (fold (conditional_kernel_step D t i) [0..<m] (P, 0)) ! a ! b =
          (if a = i \<and> b < m \<and> b \<noteq> i then exp (- (D ! i ! b) * (D ! i ! b) / t) else P ! a ! b))
    \<and> snd (fold (conditional_kernel_step D t i) [0..<m] (P, 0)) =
          (\<Sum>k \<in> {..<m} - {i}. exp (- (D ! i ! k) * (D ! i ! k) / t))"
  using assms(3)
proof (induction m)
  case 0
  show ?case using assms(1) by simp
next
  case (Suc m)
  let ?e = "\<lambda>k. exp (- (D ! i ! k) * (D ! i ! k) / t)"
  let ?R = "fold (conditional_kernel_step D t i) [0..<m] (P, 0)"
  have sh: "shape n n (fst ?R)"
    and nth: "\<And>a b. fst ?R ! a ! b = (if a = i \<and> b < m \<and> b \<noteq> i then ?e b else P ! a ! b)"
    and sm: "snd ?R = (\<Sum>k \<in> {..<m} - {i}. ?e k)"
    using Suc by simp_all
  have l: "i < length (fst ?R)" "m < length (fst ?R ! i)"
    using sh assms(2) Suc.prems by (simp_all add: shape_nth)
  show ?case
  proof (cases "i = m")
    case True
    have a: "{..<Suc m} - {i} = {..<m} - {i}" using True by auto
    have "fold (conditional_kernel_step D t i) [0..<Suc m] (P, 0) = ?R"
      using True by (simp add: conditional_kernel_step_def case_prod_beta)
    then show ?thesis unfolding a using sh nth sm True by (auto simp: less_Suc_eq)
  next
    case False
    have s: "{..<Suc m} - {i} = insert m ({..<m} - {i})" using False by auto
    have a: "(\<Sum>k \<in> {..<Suc m} - {i}. ?e k) = (\<Sum>k \<in> {..<m} - {i}. ?e k) + ?e m"
      unfolding s by (subst sum.insert) auto
    let ?P' = "set2 (fst ?R) i m (?e m)"
    have step: "fold (conditional_kernel_step D t i) [0..<Suc m] (P, 0) = (?P', snd ?R + ?P' ! i ! m)"
      using False by (simp add: conditional_kernel_step_def case_prod_beta Let_def)
    have c: "?P' ! a ! b = (if a = i \<and> b < Suc m \<and> b \<noteq> i then ?e b else P ! a ! b)" for a b
      unfolding nth_set2 [OF l] nth using False by (auto simp: less_Suc_eq)
    show ?thesis unfolding step a using sh c sm False by simp
  qed
qed

lemma conditional_row_step_nth:
  assumes "shape (this_n s) (this_n s) P" and "i < this_n s"
  shows "shape (this_n s) (this_n s) (conditional_row_step s i P)"
    and "b < this_n s \<Longrightarrow> conditional_row_step s i P ! a ! b =
      (if a = i then
         (if engine_kernel_sum s i > 0
          then (if b \<noteq> i then engine_kernel s i b else P ! i ! i) / engine_kernel_sum s i
          else (if b \<noteq> i then engine_kernel s i b else P ! i ! i))
       else P ! a ! b)"
proof -
  let ?n = "this_n s"
  let ?t = "2 * (this_sigmas s ! i) * (this_sigmas s ! i)"
  let ?R = "fold (conditional_kernel_step (this_distanceMatrix s) ?t i) [0..<?n] (P, 0)"
  note kl = conditional_kernel_loop [OF assms order_refl, of "this_distanceMatrix s" ?t]
  have sh: "shape ?n ?n (fst ?R)" using kl by simp
  have nth: "fst ?R ! a ! b = (if a = i \<and> b < ?n \<and> b \<noteq> i then engine_kernel s i b else P ! a ! b)"
    for a b
    using kl by (simp add: engine_kernel_def)
  have sm: "snd ?R = engine_kernel_sum s i"
    using kl by (simp add: engine_kernel_sum_def engine_kernel_def)
  note nl = cell_loop_row [OF sh assms(2) order_refl, where g = "\<lambda>j x. x / engine_kernel_sum s i"]
  show "shape ?n ?n (conditional_row_step s i P)"
    unfolding conditional_row_step_def Let_def sm using nl sh by simp
  show "conditional_row_step s i P ! a ! b =
      (if a = i then
         (if engine_kernel_sum s i > 0
          then (if b \<noteq> i then engine_kernel s i b else P ! i ! i) / engine_kernel_sum s i
          else (if b \<noteq> i then engine_kernel s i b else P ! i ! i))
       else P ! a ! b)" if "b < ?n"
    unfolding conditional_row_step_def Let_def sm using nl nth that by simp
qed

lemma computeConditionalP_rows:
  assumes "k \<le> this_n s"
  shows "shape (this_n s) (this_n s) (fold (conditional_row_step s) [0..<k] (zeros (this_n s) (this_n s)))
    \<and> (\<forall>a b. a < this_n s \<longrightarrow> b < this_n s \<longrightarrow>
          fold (conditional_row_step s) [0..<k] (zeros (this_n s) (this_n s)) ! a ! b =
          (if a < k \<and> b \<noteq> a then
             (if engine_kernel_sum s a > 0 then engine_kernel s a b / engine_kernel_sum s a
              else engine_kernel s a b)
           else 0))"
  using assms
proof (induction k)
  case 0
  show ?case by simp
next
  case (Suc k)
  let ?n = "this_n s"
  let ?R = "fold (conditional_row_step s) [0..<k] (zeros ?n ?n)"
  have sh: "shape ?n ?n ?R"
    and nth: "\<And>a b. a < ?n \<Longrightarrow> b < ?n \<Longrightarrow> ?R ! a ! b =
          (if a < k \<and> b \<noteq> a then
             (if engine_kernel_sum s a > 0 then engine_kernel s a b / engine_kernel_sum s a
              else engine_kernel s a b)
           else 0)"
    using Suc by simp_all
  have k: "k < ?n" using Suc.prems by simp
  note row = conditional_row_step_nth [OF sh k]
  have "conditional_row_step s k ?R ! a ! b =
          (if a < Suc k \<and> b \<noteq> a then
             (if engine_kernel_sum s a > 0 then engine_kernel s a b / engine_kernel_sum s a
              else engine_kernel s a b)
           else 0)" if "a < ?n" "b < ?n" for a b
    unfolding row(2) [OF that(2)] using nth [OF that] nth [OF k k] that k
    by (auto simp: less_Suc_eq)
  then show ?case using row(1) by simp
qed

lemma computeConditionalP_nth:
  assumes "a < this_n s" and "b < this_n s"
  shows "computeConditionalP s ! a ! b =
     (if b \<noteq> a then
        (if engine_kernel_sum s a > 0 then engine_kernel s a b / engine_kernel_sum s a
         else engine_kernel s a b)
      else 0)"
  unfolding computeConditionalP_def
  using computeConditionalP_rows [OF order_refl, of s] assms by simp

lemma distance_three_points:
  "computeDistanceMatrix [[0], [1], [2]] = [[0, 1, 4], [1, 0, 1], [4, 1, 0]]"
  by (simp add: computeDistanceMatrix_def distance_step_def squaredEuclideanDistance_def
      zeros_def set2_def upt_rec Let_def)

lemma pre_three_points_simps [simp]:
  "this_n pre_three_points = 3"
  "this_distanceMatrix pre_three_points = [[0, 1, 4], [1, 0, 1], [4, 1, 0]]"
  "this_sigmas pre_three_points = [1, 1, 1]"
  by (simp_all add: pre_three_points_def distance_three_points)

lemma lessThan_3_minus_0: "{..<3::nat} - {0} = {1, 2}"
  by auto

text \<open>
  Claim C1 as it is written fails in two places. For the row \<open>[0, 80]\<close> with
  \<open>sigma = 1\<close> the function of math-utils returns \<open>exp (- 40)\<close> at index 1, where the
  formula gives 1. For the points 0, 1, 2 of a line with every \<open>sigma = 1\<close>, the engine
  squares the entries of its matrix of squared distances again: its entry \<open>(0, 1)\<close> is
  \<open>exp (- 1 / 2) / (exp (- 1 / 2) + exp (- 8))\<close>, where the formula on the squared distances
  gives \<open>exp (- 1 / 2) / (exp (- 1 / 2) + exp (- 2))\<close>.
\<close>

theorem C1_conditional_row_counterexample:
  "(0::real) < 1
   \<and> computeConditionalProbabilities [0, 80] 1 0 ! 1
       \<noteq> gauss_kernel [0, 80] 1 1 / kernel_sum [0, 80] 1 0
   \<and> 0 < this_sigmas pre_three_points ! 0
   \<and> computeConditionalP pre_three_points ! 0 ! 1
       \<noteq> gauss_kernel (this_distanceMatrix pre_three_points ! 0) (this_sigmas pre_three_points ! 0) 1
           / kernel_sum (this_distanceMatrix pre_three_points ! 0) (this_sigmas pre_three_points ! 0) 0"
proof -
  have small: "exp (- 40 :: real) < 1" by simp
  have h: "kernel_sum [0, 80] 1 0 \<le> e12"
    unfolding kernel_sum_0_80 by (rule exp_minus_40_le)
  have "computeConditionalProbabilities [0, 80] 1 0 = [0, exp (- 40)]"
    using h by (simp add: computeConditionalProbabilities_eq Let_def gauss_kernel_def upt_rec)
  moreover have "gauss_kernel [0, 80] 1 1 / kernel_sum [0, 80] 1 0 = 1"
    unfolding kernel_sum_0_80 by (simp add: gauss_kernel_def)
  ultimately have a: "computeConditionalProbabilities [0, 80] 1 0 ! 1
       \<noteq> gauss_kernel [0, 80] 1 1 / kernel_sum [0, 80] 1 0"
    using small by simp
  have es: "engine_kernel_sum pre_three_points 0 = exp (- 1 / 2) + exp (- 8)"
    by (simp add: engine_kernel_sum_def lessThan_3_minus_0 engine_kernel_def)
  have pos: "0 < engine_kernel_sum pre_three_points 0"
    unfolding es by (intro add_pos_pos exp_gt_zero)
  have eng: "computeConditionalP pre_three_points ! 0 ! 1
      = exp (- 1 / 2) / (exp (- 1 / 2) + exp (- 8))"
    using computeConditionalP_nth [of 0 pre_three_points 1] pos by (simp add: es engine_kernel_def)
  have "{..<length [0, 1, 4 :: real]} - {0} = {Suc 0, Suc (Suc 0)}" by auto
  then have ks: "kernel_sum [0, 1, 4] 1 0 = exp (- 1 / 2) + exp (- 2)"
    by (simp add: kernel_sum_def gauss_kernel_def)
  have ne: "exp (- 1 / 2) / (exp (- 1 / 2) + exp (- 8))
      \<noteq> exp (- 1 / 2) / (exp (- 1 / 2) + exp (- 2) :: real)"
  proof
    assume eq: "exp (- 1 / 2) / (exp (- 1 / 2) + exp (- 8))
      = exp (- 1 / 2) / (exp (- 1 / 2) + exp (- 2) :: real)"
    have p1: "(0::real) < exp (- 1 / 2) + exp (- 8)" and p2: "(0::real) < exp (- 1 / 2) + exp (- 2)"
      by (intro add_pos_pos exp_gt_zero)+
    have "exp (- 1 / 2) * (exp (- 1 / 2) + exp (- 2)) = exp (- 1 / 2) * (exp (- 1 / 2) + exp (- 8) :: real)"
      using eq p1 p2 by (simp add: frac_eq_eq)
    then have "exp (- 2 :: real) = exp (- 8)" by simp
    then show False by simp
  qed
  have b: "computeConditionalP pre_three_points ! 0 ! 1
       \<noteq> gauss_kernel (this_distanceMatrix pre_three_points ! 0) (this_sigmas pre_three_points ! 0) 1
           / kernel_sum (this_distanceMatrix pre_three_points ! 0) (this_sigmas pre_three_points ! 0) 0"
    unfolding eng using ne by (simp add: ks gauss_kernel_def)
  show ?thesis using a b by simp
qed

section \<open>The run of the engine\<close>

lemma addSnapshot_fields [simp]:
  "this_perplexity (addSnapshot st d s) = this_perplexity s"
  "this_learningRate (addSnapshot st d s) = this_learningRate s"
  "this_maxIterations (addSnapshot st d s) = this_maxIterations s"
  "this_targetDim (addSnapshot st d s) = this_targetDim s"
  "this_earlyExaggeration (addSnapshot st d s) = this_earlyExaggeration s"
  "this_earlyExaggerationIter (addSnapshot st d s) = this_earlyExaggerationIter s"
  "this_momentum (addSnapshot st d s) = this_momentum s"
  "this_finalMomentum (addSnapshot st d s) = this_finalMomentum s"
  "this_momentumSwitchIter (addSnapshot st d s) = this_momentumSwitchIter s"
  "this_inputData (addSnapshot st d s) = this_inputData s"
  "this_labels (addSnapshot st d s) = this_labels s"
  "this_n (addSnapshot st d s) = this_n s"
  "this_distanceMatrix (addSnapshot st d s) = this_distanceMatrix s"
  "this_sigmas (addSnapshot st d s) = this_sigmas s"
  "this_P_conditional (addSnapshot st d s) = this_P_conditional s"
  "this_P (addSnapshot st d s) = this_P s"
  "this_P_original (addSnapshot st d s) = this_P_original s"
  "this_embedding (addSnapshot st d s) = this_embedding s"
  "this_Q (addSnapshot st d s) = this_Q s"
  "this_gradient (addSnapshot st d s) = this_gradient s"
  "this_velocity (addSnapshot st d s) = this_velocity s"
  "this_costs (addSnapshot st d s) = this_costs s"
  "this_iterationSnapshots (addSnapshot st d s) = this_iterationSnapshots s"
  by (simp_all add: addSnapshot_def)

lemma addSnapshot_snapshots [simp]:
  "map stepType (this_snapshots (addSnapshot st d s)) = map stepType (this_snapshots s) @ [st]"
  "map stepId (this_snapshots (addSnapshot st d s)) = map stepId (this_snapshots s) @ [this_stepIndex s]"
  "this_stepIndex (addSnapshot st d s) = Suc (this_stepIndex s)"
  by (simp_all add: addSnapshot_def)

lemma applyEarlyExaggeration_fields [simp]:
  "this_perplexity (applyEarlyExaggeration s) = this_perplexity s"
  "this_learningRate (applyEarlyExaggeration s) = this_learningRate s"
  "this_maxIterations (applyEarlyExaggeration s) = this_maxIterations s"
  "this_targetDim (applyEarlyExaggeration s) = this_targetDim s"
  "this_earlyExaggeration (applyEarlyExaggeration s) = this_earlyExaggeration s"
  "this_earlyExaggerationIter (applyEarlyExaggeration s) = this_earlyExaggerationIter s"
  "this_momentum (applyEarlyExaggeration s) = this_momentum s"
  "this_finalMomentum (applyEarlyExaggeration s) = this_finalMomentum s"
  "this_momentumSwitchIter (applyEarlyExaggeration s) = this_momentumSwitchIter s"
  "this_snapshots (applyEarlyExaggeration s) = this_snapshots s"
  "this_stepIndex (applyEarlyExaggeration s) = this_stepIndex s"
  "this_inputData (applyEarlyExaggeration s) = this_inputData s"
  "this_labels (applyEarlyExaggeration s) = this_labels s"
  "this_n (applyEarlyExaggeration s) = this_n s"
  "this_distanceMatrix (applyEarlyExaggeration s) = this_distanceMatrix s"
  "this_sigmas (applyEarlyExaggeration s) = this_sigmas s"
  "this_P_conditional (applyEarlyExaggeration s) = this_P_conditional s"
  "this_P_original (applyEarlyExaggeration s) = this_P_original s"
  "this_embedding (applyEarlyExaggeration s) = this_embedding s"
  "this_Q (applyEarlyExaggeration s) = this_Q s"
  "this_gradient (applyEarlyExaggeration s) = this_gradient s"
  "this_velocity (applyEarlyExaggeration s) = this_velocity s"
  "this_costs (applyEarlyExaggeration s) = this_costs s"
  "this_iterationSnapshots (applyEarlyExaggeration s) = this_iterationSnapshots s"
  by (simp_all add: applyEarlyExaggeration_def)

lemma removeEarlyExaggeration_fields [simp]:
  "this_perplexity (removeEarlyExaggeration s) = this_perplexity s"
  "this_learningRate (removeEarlyExaggeration s) = this_learningRate s"
  "this_maxIterations (removeEarlyExaggeration s) = this_maxIterations s"
  "this_targetDim (removeEarlyExaggeration s) = this_targetDim s"
  "this_earlyExaggeration (removeEarlyExaggeration s) = this_earlyExaggeration s"
  "this_earlyExaggerationIter (removeEarlyExaggeration s) = this_earlyExaggerationIter s"
  "this_momentum (removeEarlyExaggeration s) = this_momentum s"
  "this_finalMomentum (removeEarlyExaggeration s) = this_finalMomentum s"
  "this_momentumSwitchIter (removeEarlyExaggeration s) = this_momentumSwitchIter s"
  "this_snapshots (removeEarlyExaggeration s) = this_snapshots s"
  "this_stepIndex (removeEarlyExaggeration s) = this_stepIndex s"
  "this_inputData (removeEarlyExaggeration s) = this_inputData s"
  "this_labels (removeEarlyExaggeration s) = this_labels s"
  "this_n (removeEarlyExaggeration s) = this_n s"
  "this_distanceMatrix (removeEarlyExaggeration s) = this_distanceMatrix s"
  "this_sigmas (removeEarlyExaggeration s) = this_sigmas s"
  "this_P_conditional (removeEarlyExaggeration s) = this_P_conditional s"
  "this_P_original (removeEarlyExaggeration s) = this_P_original s"
  "this_embedding (removeEarlyExaggeration s) = this_embedding s"
  "this_Q (removeEarlyExaggeration s) = this_Q s"
  "this_gradient (removeEarlyExaggeration s) = this_gradient s"
  "this_velocity (removeEarlyExaggeration s) = this_velocity s"
  "this_costs (removeEarlyExaggeration s) = this_costs s"
  "this_iterationSnapshots (removeEarlyExaggeration s) = this_iterationSnapshots s"
  by (simp_all add: removeEarlyExaggeration_def)

lemma fold_err_snoc: "fold_err f (xs @ [x]) s = bind_err (fold_err f xs s) (f x)"
  by (induction xs arbitrary: s) (simp_all add: bind_err_def split: sum.splits)

lemma fold_err_invariant:
  assumes "I s" and "\<And>x s. x \<in> set xs \<Longrightarrow> I s \<Longrightarrow> \<exists>s'. f x s = Inr s' \<and> I s'"
  shows "\<exists>s'. fold_err f xs s = Inr s' \<and> I s'"
  using assms
proof (induction xs arbitrary: s)
  case Nil
  then show ?case by simp
next
  case (Cons x xs)
  from Cons.prems(2) [of x s] Cons.prems(1)
  obtain s1 where s1: "f x s = Inr s1" "I s1" by auto
  from Cons.IH [OF s1(2)] Cons.prems(2)
  obtain s' where "fold_err f xs s1 = Inr s'" "I s'" by auto
  then show ?case using s1 by (simp add: bind_err_def)
qed

lemma length_computeDistanceMatrix: "length (computeDistanceMatrix X) = length X"
proof -
  have "length (fold (\<lambda>i. fold (distance_step X i) [Suc i..<n]) xs D) = length D" for n xs D
    by (rule fold_invariant [where I = "\<lambda>A. length A = length D"], simp,
        rule fold_invariant [where I = "\<lambda>A. length A = length D"])
       (simp_all add: distance_step_def Let_def)
  then show ?thesis by (simp add: computeDistanceMatrix_def Let_def)
qed

lemma length_computeConditionalP: "length (computeConditionalP s) = this_n s"
  using computeConditionalP_rows [OF order_refl, of s]
  by (simp add: computeConditionalP_def shape_nth)

lemma computeAllSigmas_ok:
  assumes "this_n s \<le> length (this_distanceMatrix s)"
  shows "\<exists>r. computeAllSigmas s = Inr r \<and> length (fst r) = this_n s"
proof -
  have "\<exists>r. fold_err (sigma_step s) [0..<k] ([], []) = Inr r \<and> length (fst r) = k"
    if "k \<le> this_n s" for k
    using that
  proof (induction k)
    case 0
    show ?case by simp
  next
    case (Suc k)
    then obtain sigmas hist where r: "fold_err (sigma_step s) [0..<k] ([], []) = Inr (sigmas, hist)"
      and len: "length sigmas = k"
      by auto
    have "k < length (this_distanceMatrix s)" using Suc.prems assms by simp
    then obtain res where res:
      "findSigma (this_distanceMatrix s) k (this_perplexity s) True default_maxIter default_tol = Inr res"
      by (simp add: findSigma_def)
    have "fold_err (sigma_step s) [0..<Suc k] ([], []) = sigma_step s k (sigmas, hist)"
      by (simp add: fold_err_snoc r bind_err_def)
    also have "\<dots> = Inr (sigmas @ [r_sigma res],
        if k < 3 then hist @ [(k, r_history res)] else hist)"
      using res by (simp add: sigma_step_def bind_err_def)
    finally show ?case using len by simp
  qed
  then show ?thesis by (simp add: computeAllSigmas_def)
qed

lemma average_ok: "xs \<noteq> [] \<Longrightarrow> \<exists>a. average xs = Inr a"
  by (cases xs) (simp_all add: average_def)

lemma computeGradient_ok: "Y \<noteq> [] \<Longrightarrow> \<exists>g. computeGradient P Q Y = Inr g"
  by (cases Y) (simp_all add: computeGradient_def Let_def)

subsection \<open>The steps of run\<close>

lemma recorded_addSnapshot: "recorded st s (addSnapshot st d s)"
  by (simp add: recorded_def)

lemma recorded_addSnapshot_after:
  assumes "map stepType (this_snapshots s1) = map stepType (this_snapshots s)"
    and "map stepId (this_snapshots s1) = map stepId (this_snapshots s)"
    and "this_stepIndex s1 = this_stepIndex s"
    and "this_n s1 = this_n s" and "this_targetDim s1 = this_targetDim s"
  shows "recorded st s (addSnapshot st d s1)"
  using assms by (simp add: recorded_def)

lemma step0_intro: "recorded INTRO s (step0_intro x0 s)"
  unfolding step0_intro_def by (rule recorded_addSnapshot)

lemma step1_input_data: "recorded INPUT_DATA s (step1_input_data x0 X labels s)"
  unfolding step1_input_data_def by (rule recorded_addSnapshot)

lemma step2_distances:
  "recorded COMPUTE_DISTANCES s (step2_distances X s)"
  "this_distanceMatrix (step2_distances X s) = computeDistanceMatrix X"
  unfolding step2_distances_def Let_def
  by (rule recorded_addSnapshot_after) simp_all

lemma step3_sigmas:
  assumes "this_n s \<le> length (this_distanceMatrix s)" and "0 < this_n s"
  shows "\<exists>s'. step3_sigmas s = Inr s' \<and> recorded COMPUTE_SIGMAS s s'"
proof -
  from computeAllSigmas_ok [OF assms(1)]
  obtain r where r: "computeAllSigmas s = Inr r" and len: "length (fst r) = this_n s" by auto
  have "fst r \<noteq> []" using len assms(2) by auto
  from average_ok [OF this] obtain a where a: "average (fst r) = Inr a" by auto
  have "step3_sigmas s = Inr (addSnapshot COMPUTE_SIGMAS
      (SigmasData (fst r) (this_perplexity s) (snd r) a) (s\<lparr>this_sigmas := fst r\<rparr>))"
    by (simp add: step3_sigmas_def r a bind_err_def Let_def)
  moreover have "recorded COMPUTE_SIGMAS s (addSnapshot COMPUTE_SIGMAS
      (SigmasData (fst r) (this_perplexity s) (snd r) a) (s\<lparr>this_sigmas := fst r\<rparr>))"
    by (rule recorded_addSnapshot_after) simp_all
  ultimately show ?thesis by simp
qed

lemma step4_conditional:
  assumes "0 < this_n s"
  shows "\<exists>s'. step4_conditional s = Inr s' \<and> recorded COMPUTE_P_CONDITIONAL s s'"
proof -
  let ?s' = "s\<lparr>this_P_conditional := computeConditionalP s\<rparr>"
  let ?row = "(0::nat, this_P_conditional ?s' ! 0, this_sigmas ?s' ! 0)"
  have "getExamplePRow 0 ?s' = Inr ?row"
    using assms by (simp add: getExamplePRow_def length_computeConditionalP)
  then have "step4_conditional s = Inr (addSnapshot COMPUTE_P_CONDITIONAL
      (PConditionalData (this_P_conditional ?s') ?row) ?s')"
    by (simp add: step4_conditional_def bind_err_def Let_def)
  moreover have "recorded COMPUTE_P_CONDITIONAL s (addSnapshot COMPUTE_P_CONDITIONAL
      (PConditionalData (this_P_conditional ?s') ?row) ?s')"
    by (rule recorded_addSnapshot_after) simp_all
  ultimately show ?thesis by simp
qed

lemma step5_symmetrize: "recorded SYMMETRIZE_P s (step5_symmetrize s)"
  unfolding step5_symmetrize_def Let_def by (rule recorded_addSnapshot_after) simp_all

lemma step6_exaggeration: "recorded EARLY_EXAGGERATION s (step6_exaggeration s)"
  unfolding step6_exaggeration_def Let_def by (rule recorded_addSnapshot_after) simp_all

lemma step7_initialize:
  "recorded INITIALIZE_EMBEDDING s (step7_initialize Y0 s)"
  "this_embedding (step7_initialize Y0 s) = Y0"
  unfolding step7_initialize_def Let_def
  by (rule recorded_addSnapshot_after) simp_all

lemma step8_q:
  "recorded COMPUTE_Q s (step8_q s)"
  "this_embedding (step8_q s) = this_embedding s"
  unfolding step8_q_def Let_def
  by (rule recorded_addSnapshot_after) simp_all

lemma step9_gradient:
  assumes "this_embedding s \<noteq> []"
  shows "\<exists>s'. step9_gradient s = Inr s' \<and> recorded COMPUTE_GRADIENT s s'
    \<and> this_embedding s' = this_embedding s"
proof -
  from computeGradient_ok [OF assms]
  obtain g where g: "computeGradient (this_P s) (this_Q s) (this_embedding s) = Inr g" by auto
  let ?s' = "s\<lparr>this_gradient := g\<rparr>"
  have "step9_gradient s = Inr (addSnapshot COMPUTE_GRADIENT
      (GradientData (this_gradient ?s') (this_P ?s') (this_Q ?s') (this_embedding ?s')) ?s')"
    by (simp add: step9_gradient_def g bind_err_def Let_def)
  moreover have "recorded COMPUTE_GRADIENT s (addSnapshot COMPUTE_GRADIENT
      (GradientData (this_gradient ?s') (this_P ?s') (this_Q ?s') (this_embedding ?s')) ?s')"
    by (rule recorded_addSnapshot_after) simp_all
  ultimately show ?thesis by simp
qed

lemma length_updateEmbedding:
  "length (this_embedding (PrecomputedTSNE_updateEmbedding t s)) = length (this_embedding s)"
proof -
  have c: "length (center_step n d E) = length E" for n d E
    unfolding center_step_def Let_def
    by (rule fold_invariant [where I = "\<lambda>A. length A = length E"]) simp_all
  have m: "length (snd (fold (\<lambda>i. fold (momentum_step mom lr G i) ds) is (V, E))) = length E"
    for mom lr G ds "is" V E
    by (rule fold_invariant [where I = "\<lambda>p. length (snd p) = length E"], simp,
        rule fold_invariant [where I = "\<lambda>p. length (snd p) = length E"])
       (simp_all add: momentum_step_def Let_def case_prod_beta)
  have "length (fold (center_step n) ds E) = length E" for n ds E
    by (rule fold_invariant [where I = "\<lambda>A. length A = length E"]) (simp_all add: c)
  then show ?thesis
    by (simp add: PrecomputedTSNE_updateEmbedding_def Let_def m)
qed

lemma step10_update:
  "recorded UPDATE_EMBEDDING s (step10_update s)"
  "length (this_embedding (step10_update s)) = length (this_embedding s)"
  unfolding step10_update_def Let_def
  by (rule recorded_addSnapshot_after)
     (simp_all add: PrecomputedTSNE_updateEmbedding_fields length_updateEmbedding)

lemma iteration_step_ok:
  assumes "this_embedding s \<noteq> []"
  shows "\<exists>s' ks'. iteration_step iter (s, ks) = Inr (s', ks') \<and> frame s' = frame s"
proof -
  let ?s1 = "if iter = this_earlyExaggerationIter s then removeEarlyExaggeration s else s"
  let ?s2 = "?s1\<lparr>this_Q := computeQMatrix (this_embedding ?s1)\<rparr>"
  have e: "this_embedding ?s2 = this_embedding s" by simp
  have f2: "frame ?s2 = frame s" by (simp add: frame_def)
  from computeGradient_ok [of "this_embedding ?s2" "this_P ?s2" "this_Q ?s2"] assms e
  obtain g where g: "computeGradient (this_P ?s2) (this_Q ?s2) (this_embedding ?s2) = Inr g"
    by auto
  let ?s4 = "PrecomputedTSNE_updateEmbedding iter (?s2\<lparr>this_gradient := g\<rparr>)"
  let ?cost = "klDivergence (this_P ?s4) (this_Q ?s4)"
  let ?s5 = "?s4\<lparr>this_costs := this_costs ?s4 @ [?cost]\<rparr>"
  let ?snap = "\<lparr>it_iteration = iter, it_embedding = this_embedding ?s5,
                 it_Q = this_Q ?s5, it_gradient = this_gradient ?s5, it_cost = ?cost\<rparr>"
  have f4: "frame ?s4 = frame (?s2\<lparr>this_gradient := g\<rparr>)"
    unfolding frame_def
    by (simp only: PrecomputedTSNE_updateEmbedding_fields length_updateEmbedding)
  have f5: "frame ?s5 = frame s"
    using f4 f2 by (simp add: frame_def)
  have "iteration_step iter (s, ks) =
      (if int iter \<in> set (captureIterations ?s5)
       then Inr (?s5\<lparr>this_iterationSnapshots := this_iterationSnapshots ?s5 @ [?snap]\<rparr>, ks @ [?snap])
       else Inr (?s5, ks))"
    unfolding iteration_step_def Let_def prod.case g bind_err_def sum.case ..
  moreover have "frame (?s5\<lparr>this_iterationSnapshots := this_iterationSnapshots ?s5 @ [?snap]\<rparr>) = frame s"
    using f5 by (simp add: frame_def)
  ultimately show ?thesis using f5 by auto
qed

lemma runIterations_ok:
  assumes "this_embedding s \<noteq> []"
  shows "\<exists>r. runIterations s = Inr r \<and> frame (fst r) = frame s"
proof -
  let ?s0 = "s\<lparr>this_iterationSnapshots := []\<rparr>"
  have f0: "frame ?s0 = frame s" by (simp add: frame_def)
  have ne: "this_embedding s' \<noteq> []" if "frame s' = frame s" for s'
    using that assms by (auto simp: frame_def)
  have "\<exists>p'. fold_err iteration_step [1..<this_maxIterations s] (?s0, []) = Inr p'
      \<and> frame (fst p') = frame s"
  proof (rule fold_err_invariant
      [where I = "\<lambda>p :: PrecomputedTSNE \<times> iteration_snapshot list. frame (fst p) = frame s"])
    show "frame (fst (?s0, [] :: iteration_snapshot list)) = frame s" using f0 by simp
  next
    fix x and p :: "PrecomputedTSNE \<times> iteration_snapshot list"
    assume "frame (fst p) = frame s"
    then show "\<exists>p'. iteration_step x p = Inr p' \<and> frame (fst p') = frame s"
      using iteration_step_ok [OF ne, of "fst p" x "snd p"] by auto
  qed
  then show ?thesis by (simp add: runIterations_def)
qed

lemma step11_iterations:
  assumes "this_embedding s \<noteq> []"
  shows "\<exists>s'. step11_iterations s = Inr s' \<and> recorded ITERATION_PROGRESS s s'"
proof -
  from runIterations_ok [OF assms]
  obtain r where r: "runIterations s = Inr r" and f: "frame (fst r) = frame s" by auto
  have "step11_iterations s = Inr (addSnapshot ITERATION_PROGRESS
      (ProgressData (snd r) (this_costs (fst r)) (this_maxIterations (fst r))) (fst r))"
    by (simp add: step11_iterations_def r bind_err_def Let_def)
  moreover have "recorded ITERATION_PROGRESS s (addSnapshot ITERATION_PROGRESS
      (ProgressData (snd r) (this_costs (fst r)) (this_maxIterations (fst r))) (fst r))"
    by (rule recorded_addSnapshot_after) (use f in \<open>simp_all add: frame_def\<close>)
  ultimately show ?thesis by simp
qed

lemma step12_remove_exaggeration: "recorded REMOVE_EXAGGERATION s (step12_remove_exaggeration s)"
  unfolding step12_remove_exaggeration_def by (rule recorded_addSnapshot)

lemma step13_final: "recorded FINAL_RESULT s (step13_final labels s)"
  unfolding step13_final_def by (rule recorded_addSnapshot)

lemma run_probabilities_ok:
  assumes "inputData \<noteq> []"
  shows "\<exists>s14. run_probabilities inputData labels s0 = Inr s14
    \<and> map stepType (this_snapshots s14) = take 7 all_steps
    \<and> map stepId (this_snapshots s14) = map (\<lambda>j. this_stepIndex s0 + j) [0..<7]
    \<and> this_stepIndex s14 = this_stepIndex s0 + 7
    \<and> this_n s14 = length inputData
    \<and> this_targetDim s14 = this_targetDim s0"
proof -
  obtain x0 rest where X: "inputData = x0 # rest" using assms by (cases inputData) auto
  let ?a = "run_start inputData labels s0"
  let ?b = "step0_intro x0 ?a"
  let ?c = "step1_input_data x0 inputData labels ?b"
  let ?d = "step2_distances inputData ?c"
  have a: "this_snapshots ?a = []" "this_stepIndex ?a = this_stepIndex s0"
    "this_n ?a = length inputData" "this_targetDim ?a = this_targetDim s0"
    by (simp_all add: run_start_def)
  note b = step0_intro [where s = ?a and ?x0.0 = x0]
  note c = step1_input_data [where s = ?b and ?x0.0 = x0 and X = inputData and labels = labels]
  note d = step2_distances [where s = ?c and X = inputData]
  have nd: "this_n ?d = length inputData"
    using a b c d(1) by (simp add: recorded_def)
  have len: "0 < length inputData" using assms by simp
  have "this_n ?d \<le> length (this_distanceMatrix ?d)"
    unfolding nd d(2) length_computeDistanceMatrix by simp
  moreover have "0 < this_n ?d" unfolding nd by (rule len)
  ultimately have "\<exists>s'. step3_sigmas ?d = Inr s' \<and> recorded COMPUTE_SIGMAS ?d s'"
    by (rule step3_sigmas)
  then
  obtain e where e: "step3_sigmas ?d = Inr e" "recorded COMPUTE_SIGMAS ?d e" by auto
  have "0 < this_n e" using e(2) nd len by (simp add: recorded_def)
  from step4_conditional [OF this]
  obtain f where f: "step4_conditional e = Inr f" "recorded COMPUTE_P_CONDITIONAL e f" by auto
  note g = step5_symmetrize [of f]
  note h = step6_exaggeration [of "step5_symmetrize f"]
  have r: "run_probabilities inputData labels s0 = Inr (step6_exaggeration (step5_symmetrize f))"
    using e(1) f(1) unfolding run_probabilities_def X by (simp add: bind_err_def)
  show ?thesis
    unfolding r using a b c d(1) e(2) f(2) g h
    by (simp add: recorded_def all_steps_def upt_rec)
qed

lemma run_optimization_ok:
  assumes "Y0 \<noteq> []"
  shows "\<exists>s27. run_optimization Y0 labels s14 = Inr s27
    \<and> map stepType (this_snapshots s27) = map stepType (this_snapshots s14) @ drop 7 all_steps
    \<and> map stepId (this_snapshots s27) =
        map stepId (this_snapshots s14) @ map (\<lambda>j. this_stepIndex s14 + j) [0..<7]
    \<and> this_stepIndex s27 = this_stepIndex s14 + 7"
proof -
  let ?a = "step7_initialize Y0 s14"
  let ?b = "step8_q ?a"
  note a = step7_initialize [where s = s14 and ?Y0.0 = Y0]
  note b = step8_q [of ?a]
  have "this_embedding ?b \<noteq> []" using assms a(2) b(2) by simp
  from step9_gradient [OF this]
  obtain c where c: "step9_gradient ?b = Inr c" "recorded COMPUTE_GRADIENT ?b c"
    "this_embedding c = this_embedding ?b"
    by auto
  let ?d = "step10_update c"
  note d = step10_update [of c]
  have "this_embedding ?d \<noteq> []"
    using d(2) c(3) assms a(2) b(2) by (metis length_0_conv)
  from step11_iterations [OF this]
  obtain e where e: "step11_iterations ?d = Inr e" "recorded ITERATION_PROGRESS ?d e" by auto
  note f = step12_remove_exaggeration [of e]
  note g = step13_final [where s = "step12_remove_exaggeration e" and labels = labels]
  have r: "run_optimization Y0 labels s14 = Inr (step13_final labels (step12_remove_exaggeration e))"
    by (simp add: run_optimization_def c(1) e(1) bind_err_def)
  show ?thesis
    unfolding r using a(1) b(1) c(2) d(1) e(2) f g
    by (simp add: recorded_def all_steps_def upt_rec)
qed

lemma gaussian_row_length:
  "gaussian_row rnd scale d k = Some (row, k') \<Longrightarrow> length row = d"
  by (induction d arbitrary: k row k') (auto split: option.splits)

lemma gaussian_rows_length:
  "gaussian_rows rnd scale n d k = Some (Y0, k') \<Longrightarrow> length Y0 = n"
  by (induction n arbitrary: k Y0 k') (auto split: option.splits)

lemma run_eq:
  assumes "inputData \<noteq> []"
    and "gaussian_rows rnd (1 / 10000) (length inputData) (this_targetDim s0) k = Some (Y0, k')"
  shows "\<exists>s14. run_probabilities inputData labels s0 = Inr s14
    \<and> this_stepIndex s14 = this_stepIndex s0 + 7
    \<and> map stepType (this_snapshots s14) = take 7 all_steps
    \<and> map stepId (this_snapshots s14) = map (\<lambda>j. this_stepIndex s0 + j) [0..<7]
    \<and> run inputData labels rnd k s0 = Some (run_optimization Y0 labels s14)"
proof -
  from run_probabilities_ok [OF assms(1), of labels s0]
  obtain s14 where s14: "run_probabilities inputData labels s0 = Inr s14"
    and props: "this_stepIndex s14 = this_stepIndex s0 + 7"
      "map stepType (this_snapshots s14) = take 7 all_steps"
      "map stepId (this_snapshots s14) = map (\<lambda>j. this_stepIndex s0 + j) [0..<7]"
    and n: "this_n s14 = length inputData" and d: "this_targetDim s14 = this_targetDim s0"
    by auto
  have "PrecomputedTSNE_initializeEmbedding rnd k s14 = Some (Y0, k')"
    using assms(2) by (simp add: PrecomputedTSNE_initializeEmbedding_def n d)
  then have "run inputData labels rnd k s0 = Some (run_optimization Y0 labels s14)"
    by (simp add: run_def s14)
  then show ?thesis using s14 props by simp
qed

lemma run_snapshots:
  assumes "inputData \<noteq> []"
    and "gaussian_rows rnd (1 / 10000) (length inputData) (this_targetDim s0) k = Some (Y0, k')"
  shows "\<exists>s'. run inputData labels rnd k s0 = Some (Inr s')
    \<and> map stepType (this_snapshots s') = all_steps
    \<and> map stepId (this_snapshots s') = map (\<lambda>j. this_stepIndex s0 + j) [0..<14]
    \<and> this_stepIndex s' = this_stepIndex s0 + 14"
proof -
  from run_eq [OF assms, of labels]
  obtain s14 where idx: "this_stepIndex s14 = this_stepIndex s0 + 7"
    and ty: "map stepType (this_snapshots s14) = take 7 all_steps"
    and id: "map stepId (this_snapshots s14) = map (\<lambda>j. this_stepIndex s0 + j) [0..<7]"
    and r: "run inputData labels rnd k s0 = Some (run_optimization Y0 labels s14)"
    by auto
  have "length Y0 = length inputData" using assms(2) by (rule gaussian_rows_length)
  then have "Y0 \<noteq> []" using assms(1) by auto
  from run_optimization_ok [OF this, of labels s14]
  obtain s27 where s27: "run_optimization Y0 labels s14 = Inr s27"
    and ty': "map stepType (this_snapshots s27) = map stepType (this_snapshots s14) @ drop 7 all_steps"
    and id': "map stepId (this_snapshots s27) =
        map stepId (this_snapshots s14) @ map (\<lambda>j. this_stepIndex s14 + j) [0..<7]"
    and idx': "this_stepIndex s27 = this_stepIndex s14 + 7"
    by auto
  have a: "map stepType (this_snapshots s27) = all_steps"
    unfolding ty' ty by simp
  have "[0..<14] = [0..<7] @ map (\<lambda>j. 7 + j) [0..<7]"
    by (simp add: upt_rec)
  then have b: "map stepId (this_snapshots s27) = map (\<lambda>j. this_stepIndex s0 + j) [0..<14]"
    unfolding id' id idx by (simp add: add.assoc)
  show ?thesis using r s27 a b idx idx' by simp
qed

lemma draw_nonzero_quarter: "draw_nonzero quarter_stream k = Some (1 / 4, Suc k)"
  by (subst draw_nonzero.simps) (simp add: quarter_stream_def)

lemma draw_nonzero_half: "draw_nonzero half_then_quarter k = Some (half_then_quarter k, Suc k)"
  by (subst draw_nonzero.simps) (simp add: half_then_quarter_def)

lemma cos_quarter_turn: "cos (2 * pi * (1 / 4)) = (0::real)"
proof -
  have "2 * pi * (1 / 4) = pi / 2" by simp
  then show ?thesis by (simp only: cos_pi_half)
qed

lemma gaussianRandom_quarter: "gaussianRandom quarter_stream k = Some (0, Suc (Suc k))"
  unfolding gaussianRandom_def draw_nonzero_quarter option.case prod.case cos_quarter_turn
  by simp

lemma gaussianRandom_half: "gaussianRandom half_then_quarter k = Some (0, Suc (Suc k))"
proof -
  have "half_then_quarter (Suc k) = 1 / 4" by (simp add: half_then_quarter_def)
  then show ?thesis
    unfolding gaussianRandom_def draw_nonzero_half option.case prod.case
    by (simp only: cos_quarter_turn mult_zero_right)
qed

lemma gaussian_rows_quarter:
  "gaussian_rows quarter_stream (1 / 10000) (Suc 0) (Suc (Suc 0)) 0 = Some ([[0, 0]], 4)"
  by (simp add: gaussianRandom_quarter)

lemma gaussian_rows_half:
  "gaussian_rows half_then_quarter (1 / 10000) (Suc 0) (Suc (Suc 0)) 0 = Some ([[0, 0]], 4)"
  by (simp add: gaussianRandom_half)

lemma fresh_simps [simp]:
  "this_targetDim (new_PrecomputedTSNE no_options) = 2"
  "this_stepIndex (new_PrecomputedTSNE opts) = 0"
  by (simp_all add: new_PrecomputedTSNE_def no_options_def or_default_def)

text \<open>
  Claim C10, as amended. For every input dataset with at least one point and every
  configuration, when the random draws of the initial embedding end, \<^verbatim>\<open>run\<close> on a
  freshly constructed \<^verbatim>\<open>PrecomputedTSNE\<close> returns, and it has recorded exactly 14
  snapshots whose step types are INTRO, INPUT_DATA, COMPUTE_DISTANCES, COMPUTE_SIGMAS,
  COMPUTE_P_CONDITIONAL, SYMMETRIZE_P, EARLY_EXAGGERATION, INITIALIZE_EMBEDDING, COMPUTE_Q,
  COMPUTE_GRADIENT, UPDATE_EMBEDDING, ITERATION_PROGRESS, REMOVE_EXAGGERATION, FINAL_RESULT
  in this order, with the step ids 0 to 13.
\<close>

theorem C10_run_records_fourteen_snapshots:
  assumes "inputData \<noteq> []"
    and "gaussian_rows rnd (1 / 10000) (length inputData)
           (this_targetDim (new_PrecomputedTSNE opts)) k = Some (Y0, k')"
  shows "\<exists>s'. run inputData labels rnd k (new_PrecomputedTSNE opts) = Some (Inr s')
    \<and> length (this_snapshots s') = 14
    \<and> map stepType (this_snapshots s') =
        [INTRO, INPUT_DATA, COMPUTE_DISTANCES, COMPUTE_SIGMAS, COMPUTE_P_CONDITIONAL,
         SYMMETRIZE_P, EARLY_EXAGGERATION, INITIALIZE_EMBEDDING, COMPUTE_Q, COMPUTE_GRADIENT,
         UPDATE_EMBEDDING, ITERATION_PROGRESS, REMOVE_EXAGGERATION, FINAL_RESULT]
    \<and> map stepId (this_snapshots s') = [0..<14]"
proof -
  from run_snapshots [OF assms, of labels]
  obtain s' where r: "run inputData labels rnd k (new_PrecomputedTSNE opts) = Some (Inr s')"
    and ty: "map stepType (this_snapshots s') = all_steps"
    and id: "map stepId (this_snapshots s') = map (\<lambda>j. 0 + j) [0..<14]"
    by auto
  have "length (map stepType (this_snapshots s')) = 14"
    unfolding ty by (simp add: all_steps_def)
  then have "length (this_snapshots s') = 14" by simp
  then show ?thesis using r ty id by (simp add: all_steps_def)
qed

theorem C10_run_records_fourteen_snapshots_witness:
  "[[0]] \<noteq> ([] :: matrix)
   \<and> gaussian_rows quarter_stream (1 / 10000) (length [[0 :: real]])
        (this_targetDim (new_PrecomputedTSNE no_options)) 0 = Some ([[0, 0]], 4)
   \<and> map_option (map_sum id (map stepType \<circ> this_snapshots))
        (run [[0]] [0] quarter_stream 0 (new_PrecomputedTSNE no_options))
       = Some (Inr [INTRO, INPUT_DATA, COMPUTE_DISTANCES, COMPUTE_SIGMAS, COMPUTE_P_CONDITIONAL,
           SYMMETRIZE_P, EARLY_EXAGGERATION, INITIALIZE_EMBEDDING, COMPUTE_Q, COMPUTE_GRADIENT,
           UPDATE_EMBEDDING, ITERATION_PROGRESS, REMOVE_EXAGGERATION, FINAL_RESULT])
   \<and> map_option (map_sum id (map stepId \<circ> this_snapshots))
        (run [[0]] [0] quarter_stream 0 (new_PrecomputedTSNE no_options))
       = Some (Inr [0..<14])"
proof -
  have h1: "[[0]] \<noteq> ([] :: matrix)" by simp
  have h2: "gaussian_rows quarter_stream (1 / 10000) (length [[0 :: real]])
        (this_targetDim (new_PrecomputedTSNE no_options)) 0 = Some ([[0, 0]], 4)"
    using gaussian_rows_quarter by (simp add: numeral_2_eq_2)
  from C10_run_records_fourteen_snapshots [OF h1 h2, of "[0]"]
  obtain s' where s': "run [[0]] [0] quarter_stream 0 (new_PrecomputedTSNE no_options) = Some (Inr s')
    \<and> length (this_snapshots s') = 14
    \<and> map stepType (this_snapshots s') =
        [INTRO, INPUT_DATA, COMPUTE_DISTANCES, COMPUTE_SIGMAS, COMPUTE_P_CONDITIONAL,
         SYMMETRIZE_P, EARLY_EXAGGERATION, INITIALIZE_EMBEDDING, COMPUTE_Q, COMPUTE_GRADIENT,
         UPDATE_EMBEDDING, ITERATION_PROGRESS, REMOVE_EXAGGERATION, FINAL_RESULT]
    \<and> map stepId (this_snapshots s') = [0..<14]"
    ..
  have r: "run [[0]] [0] quarter_stream 0 (new_PrecomputedTSNE no_options) = Some (Inr s')"
    and ty: "map stepType (this_snapshots s') =
        [INTRO, INPUT_DATA, COMPUTE_DISTANCES, COMPUTE_SIGMAS, COMPUTE_P_CONDITIONAL,
         SYMMETRIZE_P, EARLY_EXAGGERATION, INITIALIZE_EMBEDDING, COMPUTE_Q, COMPUTE_GRADIENT,
         UPDATE_EMBEDDING, ITERATION_PROGRESS, REMOVE_EXAGGERATION, FINAL_RESULT]"
    and id: "map stepId (this_snapshots s') = [0..<14]"
    using s' by simp_all
  have "map_option (map_sum id (map stepType \<circ> this_snapshots))
        (run [[0]] [0] quarter_stream 0 (new_PrecomputedTSNE no_options))
       = Some (Inr [INTRO, INPUT_DATA, COMPUTE_DISTANCES, COMPUTE_SIGMAS, COMPUTE_P_CONDITIONAL,
           SYMMETRIZE_P, EARLY_EXAGGERATION, INITIALIZE_EMBEDDING, COMPUTE_Q, COMPUTE_GRADIENT,
           UPDATE_EMBEDDING, ITERATION_PROGRESS, REMOVE_EXAGGERATION, FINAL_RESULT])"
    unfolding r by (simp add: ty)
  moreover have "map_option (map_sum id (map stepId \<circ> this_snapshots))
        (run [[0]] [0] quarter_stream 0 (new_PrecomputedTSNE no_options))
       = Some (Inr [0..<14])"
    unfolding r by (simp add: id)
  ultimately show ?thesis using h1 h2 by blast
qed

text \<open>
  Claim C10 as it is written fails on the empty dataset: \<^verbatim>\<open>run\<close> throws when it reads
  \<^verbatim>\<open>inputData[0].length\<close>, before it records a snapshot.
\<close>

theorem C10_empty_dataset_throws:
  "run [] [] quarter_stream 0 (new_PrecomputedTSNE no_options) = Some (Inl TypeError)"
  by (simp add: run_def run_probabilities_def)

lemma run_deterministic:
  assumes "gaussian_rows rnd1 (1 / 10000) (length inputData) (this_targetDim s0) k1 = Some (Y0, k1')"
    and "gaussian_rows rnd2 (1 / 10000) (length inputData) (this_targetDim s0) k2 = Some (Y0, k2')"
  shows "run inputData labels rnd1 k1 s0 = run inputData labels rnd2 k2 s0"
proof (cases "inputData = []")
  case True
  then show ?thesis by (simp add: run_def run_probabilities_def)
next
  case False
  from run_eq [OF False assms(1), of labels]
  obtain s14 where s14: "run_probabilities inputData labels s0 = Inr s14"
    and r1: "run inputData labels rnd1 k1 s0 = Some (run_optimization Y0 labels s14)"
    by auto
  from run_eq [OF False assms(2), of labels] s14
  have r2: "run inputData labels rnd2 k2 s0 = Some (run_optimization Y0 labels s14)"
    by auto
  show ?thesis unfolding r1 r2 ..
qed



section \<open>What every update of a run leaves true\<close>

text \<open>
  The hypotheses on shapes of the theorems on the update hold at every update of a run:
  the initial embedding and the velocity are \<open>n\<close> by \<open>targetDim\<close> matrices and every
  update keeps the shapes. So the embedding is centred after the first update and after
  every iteration, and every embedding captured in an iteration snapshot is centred.
\<close>

lemma centred_iff:
  "centred n d E \<longleftrightarrow> shape n d E \<and> (\<forall>k<d. column_mean n E k = 0)"
  by (auto simp: centred_def list_all_iff)

lemma updateEmbedding_centred:
  assumes "shape (this_n s) (this_targetDim s) (this_velocity s)"
    and "shape (this_n s) (this_targetDim s) (this_embedding s)"
  shows "centred (this_n s) (this_targetDim s) (this_embedding (PrecomputedTSNE_updateEmbedding t s))"
    and "shape (this_n s) (this_targetDim s) (this_velocity (PrecomputedTSNE_updateEmbedding t s))"
proof -
  let ?n = "this_n s" and ?m = "this_targetDim s"
  let ?R = "fold (\<lambda>i. fold (momentum_step (momentum_at t s) (this_learningRate s) (this_gradient s) i)
              [0..<?m]) [0..<?n] (this_velocity s, this_embedding s)"
  note ml = momentum_loop [OF assms order_refl order_refl,
      of "momentum_at t s" "this_learningRate s" "this_gradient s"]
  have shU: "shape ?n ?m (snd ?R)" using ml by simp
  note cl = center_loop [OF shU order_refl]
  have V': "this_velocity (PrecomputedTSNE_updateEmbedding t s) = fst ?R"
    and E': "this_embedding (PrecomputedTSNE_updateEmbedding t s) = fold (center_step ?n) [0..<?m] (snd ?R)"
    by (simp_all add: PrecomputedTSNE_updateEmbedding_def Let_def momentum_at_def)
  show "shape ?n ?m (this_velocity (PrecomputedTSNE_updateEmbedding t s))"
    unfolding V' using ml by simp
  have sh: "shape ?n ?m (this_embedding (PrecomputedTSNE_updateEmbedding t s))"
    unfolding E' using cl by simp
  have "column_mean ?n (this_embedding (PrecomputedTSNE_updateEmbedding t s)) d = 0" if "d < ?m" for d
  proof (cases "?n = 0")
    case True
    then show ?thesis by (simp add: column_mean_def)
  next
    case False
    then have "0 < ?n" by simp
    then show ?thesis
      using PrecomputedTSNE_updateEmbedding_embedding(2) [OF assms _ that] by simp
  qed
  then show "centred ?n ?m (this_embedding (PrecomputedTSNE_updateEmbedding t s))"
    using sh by (simp add: centred_iff)
qed

lemma iteration_step_invariant:
  assumes "this_embedding s \<noteq> []" and "optimizer_invariant s"
  shows "\<exists>s' ks'. iteration_step iter (s, ks) = Inr (s', ks') \<and> frame s' = frame s
    \<and> optimizer_invariant s'"
proof -
  let ?n = "this_n s" and ?m = "this_targetDim s"
  let ?s1 = "if iter = this_earlyExaggerationIter s then removeEarlyExaggeration s else s"
  let ?s2 = "?s1\<lparr>this_Q := computeQMatrix (this_embedding ?s1)\<rparr>"
  have e: "this_embedding ?s2 = this_embedding s" by simp
  have f2: "frame ?s2 = frame s" by (simp add: frame_def)
  from computeGradient_ok [of "this_embedding ?s2" "this_P ?s2" "this_Q ?s2"] assms(1) e
  obtain g where g: "computeGradient (this_P ?s2) (this_Q ?s2) (this_embedding ?s2) = Inr g"
    by auto
  let ?s3 = "?s2\<lparr>this_gradient := g\<rparr>"
  let ?s4 = "PrecomputedTSNE_updateEmbedding iter ?s3"
  let ?cost = "klDivergence (this_P ?s4) (this_Q ?s4)"
  let ?s5 = "?s4\<lparr>this_costs := this_costs ?s4 @ [?cost]\<rparr>"
  let ?snap = "\<lparr>it_iteration = iter, it_embedding = this_embedding ?s5,
                 it_Q = this_Q ?s5, it_gradient = this_gradient ?s5, it_cost = ?cost\<rparr>"
  have s3: "this_n ?s3 = ?n" "this_targetDim ?s3 = ?m"
    "this_velocity ?s3 = this_velocity s" "this_embedding ?s3 = this_embedding s"
    "this_iterationSnapshots ?s3 = this_iterationSnapshots s"
    by simp_all
  have shV: "shape (this_n ?s3) (this_targetDim ?s3) (this_velocity ?s3)"
    and shE: "shape (this_n ?s3) (this_targetDim ?s3) (this_embedding ?s3)"
    unfolding s3 using assms(2) by (simp_all add: optimizer_invariant_def centred_def)
  have c4: "centred ?n ?m (this_embedding ?s4)" and v4: "shape ?n ?m (this_velocity ?s4)"
    using updateEmbedding_centred [OF shV shE, of iter] unfolding s3 by simp_all
  have f4: "frame ?s4 = frame ?s3"
    unfolding frame_def
    by (simp only: PrecomputedTSNE_updateEmbedding_fields length_updateEmbedding)
  have f5: "frame ?s5 = frame s"
    using f4 f2 by (simp add: frame_def)
  have n5: "this_n ?s5 = ?n" "this_targetDim ?s5 = ?m"
    using f5 by (simp_all add: frame_def)
  have i5: "this_iterationSnapshots ?s5 = this_iterationSnapshots s"
    by (simp add: PrecomputedTSNE_updateEmbedding_fields)
  have inv5: "optimizer_invariant ?s5"
    unfolding optimizer_invariant_def n5 i5 using c4 v4 assms(2)
    by (simp add: optimizer_invariant_def)
  let ?s6 = "?s5\<lparr>this_iterationSnapshots := this_iterationSnapshots ?s5 @ [?snap]\<rparr>"
  have inv6: "optimizer_invariant ?s6"
    using inv5 c4 n5 by (simp add: optimizer_invariant_def)
  have f6: "frame ?s6 = frame s" using f5 by (simp add: frame_def)
  have "iteration_step iter (s, ks) =
      (if int iter \<in> set (captureIterations ?s5) then Inr (?s6, ks @ [?snap]) else Inr (?s5, ks))"
    unfolding iteration_step_def Let_def prod.case g bind_err_def sum.case ..
  then show ?thesis using f5 f6 inv5 inv6 by auto
qed

lemma runIterations_invariant:
  assumes "this_embedding s \<noteq> []"
    and "centred (this_n s) (this_targetDim s) (this_embedding s)"
    and "shape (this_n s) (this_targetDim s) (this_velocity s)"
  shows "\<exists>r. runIterations s = Inr r \<and> frame (fst r) = frame s \<and> optimizer_invariant (fst r)"
proof -
  let ?s0 = "s\<lparr>this_iterationSnapshots := []\<rparr>"
  have f0: "frame ?s0 = frame s" by (simp add: frame_def)
  have i0: "optimizer_invariant ?s0" using assms(2,3) by (simp add: optimizer_invariant_def)
  have ne: "this_embedding s' \<noteq> []" if "frame s' = frame s" for s'
    using that assms(1) by (auto simp: frame_def)
  have "\<exists>p'. fold_err iteration_step [1..<this_maxIterations s] (?s0, []) = Inr p'
      \<and> (frame (fst p') = frame s \<and> optimizer_invariant (fst p'))"
  proof (rule fold_err_invariant
      [where I = "\<lambda>p :: PrecomputedTSNE \<times> iteration_snapshot list.
                    frame (fst p) = frame s \<and> optimizer_invariant (fst p)"])
    show "frame (fst (?s0, [] :: iteration_snapshot list)) = frame s
        \<and> optimizer_invariant (fst (?s0, [] :: iteration_snapshot list))"
      using f0 i0 by simp
  next
    fix x and p :: "PrecomputedTSNE \<times> iteration_snapshot list"
    assume "frame (fst p) = frame s \<and> optimizer_invariant (fst p)"
    then show "\<exists>p'. iteration_step x p = Inr p'
        \<and> (frame (fst p') = frame s \<and> optimizer_invariant (fst p'))"
      using iteration_step_invariant [OF ne, of "fst p" x "snd p"] by auto
  qed
  then show ?thesis by (simp add: runIterations_def)
qed

lemma gaussian_rows_shape:
  "gaussian_rows rnd scale n d k = Some (Y0, k') \<Longrightarrow> shape n d Y0"
proof (induction n arbitrary: k Y0 k')
  case 0
  then show ?case by (simp add: shape_def)
next
  case (Suc n)
  from Suc.prems obtain row k1 rows where row: "gaussian_row rnd scale d k = Some (row, k1)"
    and rows: "gaussian_rows rnd scale n d k1 = Some (rows, k')" and Y0: "Y0 = row # rows"
    by (auto split: option.splits)
  have "length row = d" using row by (rule gaussian_row_length)
  then show ?case using Suc.IH [OF rows] Y0 by (simp add: shape_def)
qed

lemma run_optimization_centred:
  assumes "Y0 \<noteq> []" and "shape (this_n s14) (this_targetDim s14) Y0"
  shows "\<exists>s27. run_optimization Y0 labels s14 = Inr s27 \<and> optimizer_invariant s27"
proof -
  let ?n = "this_n s14" and ?m = "this_targetDim s14"
  let ?a = "step7_initialize Y0 s14"
  let ?b = "step8_q ?a"
  have a: "this_embedding ?a = Y0" "this_velocity ?a = zeros ?n ?m" "this_n ?a = ?n" "this_targetDim ?a = ?m"
    by (simp_all add: step7_initialize_def Let_def)
  have b: "this_embedding ?b = Y0" "this_velocity ?b = zeros ?n ?m" "this_n ?b = ?n" "this_targetDim ?b = ?m"
    using a by (simp_all add: step8_q_def Let_def)
  from computeGradient_ok [of "this_embedding ?b" "this_P ?b" "this_Q ?b"] assms(1) b(1)
  obtain g where g: "computeGradient (this_P ?b) (this_Q ?b) (this_embedding ?b) = Inr g" by auto
  let ?b' = "?b\<lparr>this_gradient := g\<rparr>"
  let ?c = "addSnapshot COMPUTE_GRADIENT
      (GradientData (this_gradient ?b') (this_P ?b') (this_Q ?b') (this_embedding ?b')) ?b'"
  have c0: "step9_gradient ?b = Inr ?c"
    by (simp add: step9_gradient_def g bind_err_def Let_def)
  have c: "this_embedding ?c = Y0" "this_velocity ?c = zeros ?n ?m" "this_n ?c = ?n" "this_targetDim ?c = ?m"
    using b by simp_all
  let ?u = "PrecomputedTSNE_updateEmbedding 0 ?c"
  let ?d = "step10_update ?c"
  have shV: "shape (this_n ?c) (this_targetDim ?c) (this_velocity ?c)"
    and shE: "shape (this_n ?c) (this_targetDim ?c) (this_embedding ?c)"
    unfolding c using assms(2) by simp_all
  note u = updateEmbedding_centred [OF shV shE, of 0]
  have d: "this_embedding ?d = this_embedding ?u" "this_velocity ?d = this_velocity ?u"
    "this_n ?d = ?n" "this_targetDim ?d = ?m"
    using c(3,4) by (simp_all add: step10_update_def Let_def PrecomputedTSNE_updateEmbedding_fields)
  have ne: "this_embedding ?d \<noteq> []"
    using length_updateEmbedding [of 0 ?c] c(1) assms(1) unfolding d(1) by (metis length_0_conv)
  have cd: "centred (this_n ?d) (this_targetDim ?d) (this_embedding ?d)"
    and vd: "shape (this_n ?d) (this_targetDim ?d) (this_velocity ?d)"
    unfolding d using u unfolding c by simp_all
  from runIterations_invariant [OF ne cd vd]
  obtain r where r: "runIterations ?d = Inr r" and inv: "optimizer_invariant (fst r)" by auto
  let ?e = "addSnapshot ITERATION_PROGRESS
      (ProgressData (snd r) (this_costs (fst r)) (this_maxIterations (fst r))) (fst r)"
  have e0: "step11_iterations ?d = Inr ?e"
    unfolding step11_iterations_def r bind_err_def by (simp add: Let_def)
  have "optimizer_invariant (step13_final labels (step12_remove_exaggeration ?e))"
    using inv by (simp add: optimizer_invariant_def step13_final_def step12_remove_exaggeration_def)
  moreover have "run_optimization Y0 labels s14 = Inr (step13_final labels (step12_remove_exaggeration ?e))"
    unfolding run_optimization_def c0 bind_err_def sum.case e0 ..
  ultimately show ?thesis by simp
qed

lemma run_centred:
  assumes "run inputData labels rnd k s0 = Some (Inr s')"
  shows "optimizer_invariant s'"
proof -
  have X: "inputData \<noteq> []"
    using assms by (auto simp: run_def run_probabilities_def)
  from run_probabilities_ok [OF X, of labels s0]
  obtain s14 where s14: "run_probabilities inputData labels s0 = Inr s14"
    and n: "this_n s14 = length inputData"
    by auto
  from assms s14 obtain Y0 k' where
    Y0: "PrecomputedTSNE_initializeEmbedding rnd k s14 = Some (Y0, k')"
    and r: "run_optimization Y0 labels s14 = Inr s'"
    by (auto simp: run_def split: option.splits)
  have sh: "shape (this_n s14) (this_targetDim s14) Y0"
    using Y0 by (auto simp: PrecomputedTSNE_initializeEmbedding_def dest: gaussian_rows_shape)
  then have "length Y0 = length inputData" using n by (simp add: shape_nth)
  then have "Y0 \<noteq> []" using X by auto
  from run_optimization_centred [OF this sh, of labels] r show ?thesis by simp
qed

lemma random_row_cursor:
  "length (fst (random_row rnd scale d k)) = d \<and> snd (random_row rnd scale d k) = k + d"
  by (induction d arbitrary: k) (simp_all add: Let_def)

lemma initializeEmbedding_cursor:
  "shape n d (fst (initializeEmbedding rnd n d scale k))
   \<and> snd (initializeEmbedding rnd n d scale k) = k + n * d"
  by (induction n arbitrary: k) (simp_all add: Let_def shape_def random_row_cursor)

end
